(* ===== verification/Prelude.thy ===== *)
theory Prelude
  imports Main "HOL-Library.AList"
begin

text \<open>
  Shared vocabulary of the development: Go strings as byte lists with the library calls the
  program makes on them, association lists for Go maps (the list order is the unspecified
  iteration order of a Go map), result types, and the theorem collections that the component
  theories feed and use.

  A Go string is a sequence of bytes, and an Isabelle \<open>char\<close> is a byte, so \<open>string\<close> is the
  type of Go strings. Case folding and space trimming are the ASCII part of Go's Unicode
  functions: names and addresses are taken to be ASCII wherever a theorem speaks of them.
\<close>

named_theorems go_string "simplification rules of the string library"
named_theorems go_table "rules of association lists that stand for Go maps"

section \<open>Results\<close>

text \<open>A Go call that returns \<open>(value, error)\<close> is a sum with the error on the left.\<close>

abbreviation is_ok :: "'e + 'a \<Rightarrow> bool" where
  "is_ok r \<equiv> \<not> isl r"

lemma sum_bind_cases:
  "(case r of Inl e \<Rightarrow> Inl e | Inr x \<Rightarrow> f x) = Inr y \<longleftrightarrow> (\<exists>x. r = Inr x \<and> f x = Inr y)"
  by (cases r) auto

section \<open>Bytes and characters\<close>

definition byte :: "char \<Rightarrow> nat" where
  "byte c = of_char c"

lemma byte_less [simp]: "byte c < 256"
  by (simp add: byte_def)

lemma byte_inj: "byte c = byte d \<longleftrightarrow> c = d"
  by (simp add: byte_def)

lemma char_of_byte [simp]: "char_of (byte c) = c"
  by (simp add: byte_def)

lemma byte_char_of [simp]: "n < 256 \<Longrightarrow> byte (char_of n) = n"
  by (simp add: byte_def of_char_of)

definition is_digit :: "char \<Rightarrow> bool" where
  "is_digit c \<longleftrightarrow> 48 \<le> byte c \<and> byte c \<le> 57"

definition digit_val :: "char \<Rightarrow> int" where
  "digit_val c = int (byte c) - 48"

definition digit_char :: "nat \<Rightarrow> char" where
  "digit_char d = char_of (48 + d)"

lemma digit_char [simp]:
  assumes "d < 10"
  shows "is_digit (digit_char d)" and "digit_val (digit_char d) = int d"
  using assms by (simp_all add: is_digit_def digit_val_def digit_char_def)

section \<open>Case folding\<close>

definition lower_char :: "char \<Rightarrow> char" where
  "lower_char c = (if 65 \<le> byte c \<and> byte c \<le> 90 then char_of (byte c + 32) else c)"

text \<open>The ASCII part of \<open>strings.ToLower\<close>.\<close>

definition to_lower :: "string \<Rightarrow> string" where
  "to_lower s = map lower_char s"

lemma lower_char_idem: "lower_char (lower_char c) = lower_char c"
  by (simp add: lower_char_def)

lemma to_lower_idem [simp, go_string]: "to_lower (to_lower s) = to_lower s"
  by (simp add: to_lower_def lower_char_idem)

lemma to_lower_Nil_iff [simp, go_string]: "to_lower s = [] \<longleftrightarrow> s = []"
  by (simp add: to_lower_def)

lemma to_lower_append [simp, go_string]: "to_lower (s @ t) = to_lower s @ to_lower t"
  by (simp add: to_lower_def)

lemma length_to_lower [simp, go_string]: "length (to_lower s) = length s"
  by (simp add: to_lower_def)

section \<open>Searching and cutting\<close>

text \<open>\<open>strings.IndexByte\<close> and \<open>strings.LastIndexByte\<close>, with \<open>None\<close> for -1.\<close>

fun index_byte :: "char \<Rightarrow> string \<Rightarrow> nat option" where
  "index_byte c [] = None"
| "index_byte c (x # xs) = (if x = c then Some 0 else map_option Suc (index_byte c xs))"

definition last_index_byte :: "char \<Rightarrow> string \<Rightarrow> nat option" where
  "last_index_byte c s = map_option (\<lambda>i. length s - Suc i) (index_byte c (rev s))"

lemma index_byte_None [simp, go_string]: "index_byte c s = None \<longleftrightarrow> c \<notin> set s"
  by (induction s) auto

lemma index_byte_append: "c \<notin> set xs \<Longrightarrow> index_byte c (xs @ c # ys) = Some (length xs)"
  by (induction xs) auto

lemma index_byte_SomeD:
  "index_byte c s = Some i \<Longrightarrow> i < length s \<and> s ! i = c \<and> c \<notin> set (take i s)"
proof (induction s arbitrary: i)
  case (Cons x xs)
  then show ?case by (auto split: if_splits)
qed simp

lemma last_index_byte_None [simp, go_string]: "last_index_byte c s = None \<longleftrightarrow> c \<notin> set s"
  by (simp add: last_index_byte_def)

lemma last_index_byte_append:
  "c \<notin> set ys \<Longrightarrow> last_index_byte c (xs @ c # ys) = Some (length xs)"
  using index_byte_append [of c "rev ys" "rev xs"] by (simp add: last_index_byte_def)

lemma last_index_byte_SomeD:
  assumes "last_index_byte c s = Some i"
  shows "i < length s \<and> s ! i = c \<and> c \<notin> set (drop (Suc i) s)"
proof -
  from assms obtain j where j: "index_byte c (rev s) = Some j" and i: "i = length s - Suc j"
    by (auto simp: last_index_byte_def)
  from index_byte_SomeD [OF j] have "j < length s" and "rev s ! j = c"
    and "c \<notin> set (take j (rev s))" by auto
  moreover have "set (take j (rev s)) = set (drop (length s - j) s)"
    by (simp add: take_rev)
  ultimately show ?thesis using i by (simp add: rev_nth Suc_diff_Suc)
qed

text \<open>\<open>strings.HasPrefix\<close> and \<open>strings.Cut\<close>.\<close>

fun has_prefix :: "string \<Rightarrow> string \<Rightarrow> bool" where
  "has_prefix s [] = True"
| "has_prefix [] (p # ps) = False"
| "has_prefix (x # xs) (p # ps) = (x = p \<and> has_prefix xs ps)"

lemma has_prefix_iff: "has_prefix s p \<longleftrightarrow> (\<exists>t. s = p @ t)"
  by (induction s p rule: has_prefix.induct) auto

lemma has_prefix_append [simp, go_string]: "has_prefix (p @ t) p"
  by (auto simp: has_prefix_iff)

fun cut_str :: "string \<Rightarrow> string \<Rightarrow> (string \<times> string) option" where
  "cut_str [] sep = (if sep = [] then Some ([], []) else None)"
| "cut_str (x # xs) sep =
     (if has_prefix (x # xs) sep then Some ([], drop (length sep) (x # xs))
      else map_option (\<lambda>(a, b). (x # a, b)) (cut_str xs sep))"

lemma cut_str_SomeD: "cut_str s sep = Some (a, b) \<Longrightarrow> s = a @ sep @ b"
proof (induction s arbitrary: a)
  case (Cons x xs)
  show ?case
  proof (cases "has_prefix (x # xs) sep")
    case True
    with Cons.prems show ?thesis by (auto simp: has_prefix_iff)
  next
    case False
    with Cons.prems obtain a' where "a = x # a'" "cut_str xs sep = Some (a', b)"
      by (auto split: if_splits)
    with Cons.IH show ?thesis by simp
  qed
qed (simp split: if_splits)

text \<open>\<open>strings.TrimSpace\<close> on ASCII: tab, newline, vertical tab, form feed, return, space.\<close>

definition is_space :: "char \<Rightarrow> bool" where
  "is_space c \<longleftrightarrow> byte c = 32 \<or> (9 \<le> byte c \<and> byte c \<le> 13)"

definition trim_by :: "(char \<Rightarrow> bool) \<Rightarrow> string \<Rightarrow> string" where
  "trim_by p s = rev (dropWhile p (rev (dropWhile p s)))"

definition trim_space :: "string \<Rightarrow> string" where
  "trim_space = trim_by is_space"

text \<open>\<open>strings.Split\<close> on one byte (and \<open>SplitSeq\<close>, its iterator form).\<close>

fun split_on :: "char \<Rightarrow> string \<Rightarrow> string list" where
  "split_on c [] = [[]]"
| "split_on c (x # xs) =
     (if x = c then [] # split_on c xs
      else (case split_on c xs of [] \<Rightarrow> [[x]] | t # ts \<Rightarrow> (x # t) # ts))"

text \<open>\<open>strings.Join\<close>.\<close>

fun join_with :: "string \<Rightarrow> string list \<Rightarrow> string" where
  "join_with sep [] = []"
| "join_with sep [x] = x"
| "join_with sep (x # y # ys) = x @ sep @ join_with sep (y # ys)"

lemma split_on_append:
  "c \<notin> set b \<Longrightarrow> split_on c (a @ c # b) = split_on c a @ [b]"
proof (induction a)
  case Nil
  have "c \<notin> set b \<Longrightarrow> split_on c b = [b]" by (induction b) auto
  with Nil show ?case by simp
next
  case (Cons x a)
  have "split_on c a \<noteq> []" by (cases a) (auto split: list.splits)
  with Cons show ?case by (auto split: list.splits)
qed

lemma split_on_none: "c \<notin> set s \<Longrightarrow> split_on c s = [s]"
  by (induction s) auto

lemma split_on_parts: "x \<in> set (split_on c s) \<Longrightarrow> c \<notin> set x"
  by (induction s arbitrary: x) (auto split: if_splits list.splits)

lemma split_on_nonempty [simp]: "split_on c s \<noteq> []"
  by (cases s) (auto split: list.splits)

lemma join_split_on: "join_with [c] (split_on c s) = s"
proof (induction s)
  case (Cons x s)
  obtain t ts where "split_on c s = t # ts" using split_on_nonempty [of c s] by (cases "split_on c s") auto
  with Cons show ?case by (cases ts) auto
qed simp

text \<open>The value of a hexadecimal digit.\<close>

definition unhex :: "char \<Rightarrow> nat option" where
  "unhex c =
     (if 48 \<le> byte c \<and> byte c \<le> 57 then Some (byte c - 48)
      else if 97 \<le> byte c \<and> byte c \<le> 102 then Some (byte c - 87)
      else if 65 \<le> byte c \<and> byte c \<le> 70 then Some (byte c - 55)
      else None)"

section \<open>Go maps as association lists\<close>

text \<open>
  \<open>map_of\<close> looks up, \<open>AList.update\<close> stores, \<open>AList.delete\<close> deletes and \<open>map fst\<close> lists the
  keys in iteration order. A list is a Go map when its keys are distinct.
\<close>

definition is_gomap :: "('k \<times> 'v) list \<Rightarrow> bool" where
  "is_gomap m \<longleftrightarrow> distinct (map fst m)"

lemma is_gomap_Nil [simp, go_table]: "is_gomap []"
  by (simp add: is_gomap_def)

lemma is_gomap_update [simp, go_table]: "is_gomap m \<Longrightarrow> is_gomap (AList.update k v m)"
  by (simp add: is_gomap_def distinct_update)

lemma is_gomap_delete [simp, go_table]: "is_gomap m \<Longrightarrow> is_gomap (AList.delete k m)"
  by (simp add: is_gomap_def distinct_delete)

lemma gomap_update [simp, go_table]: "map_of (AList.update k v m) = (map_of m)(k \<mapsto> v)"
  by (simp add: update_conv')

lemma gomap_delete [simp, go_table]: "map_of (AList.delete k m) = (map_of m)(k := None)"
  by (simp add: delete_conv')

lemma is_gomap_mem: "is_gomap m \<Longrightarrow> (k, v) \<in> set m \<longleftrightarrow> map_of m k = Some v"
  by (auto simp: is_gomap_def)

lemma find_SomeD: "List.find P xs = Some x \<Longrightarrow> x \<in> set xs \<and> P x"
  by (induction xs) (auto split: if_splits)

lemma find_NoneD: "List.find P xs = None \<longleftrightarrow> (\<forall>x \<in> set xs. \<not> P x)"
  by (induction xs) auto

lemma set_map_filter_snd: "set (List.map_filter snd xs) = {v. \<exists>k. (k, Some v) \<in> set xs}"
  by (induction xs) (auto simp: map_filter_def)

section \<open>Two interfaces shared by the component proofs\<close>

text \<open>
  Data refinement: operations executed on a concrete state, an abstraction of that state and a
  relation that says what an operation may do to the abstract state and return. The law is the
  simulation of one operation; a client gets it for every sequence of operations.
\<close>

fun exec_all :: "('s \<Rightarrow> 'op \<Rightarrow> 'out \<times> 's) \<Rightarrow> 's \<Rightarrow> 'op list \<Rightarrow> 'out list \<times> 's" where
  "exec_all exec s [] = ([], s)"
| "exec_all exec s (p # ps) =
     (case exec s p of (out, s') \<Rightarrow> case exec_all exec s' ps of (outs, s'') \<Rightarrow> (out # outs, s''))"

inductive spec_run :: "('a \<Rightarrow> 'op \<Rightarrow> 'out \<Rightarrow> 'a \<Rightarrow> bool) \<Rightarrow> 'a \<Rightarrow> 'op list \<Rightarrow> 'out list \<Rightarrow> 'a \<Rightarrow> bool"
  for spec where
  nil: "spec_run spec a [] [] a"
| more: "spec a p out a' \<Longrightarrow> spec_run spec a' ps outs a'' \<Longrightarrow> spec_run spec a (p # ps) (out # outs) a''"

locale data_refinement =
  fixes ok :: "'s \<Rightarrow> bool" and abs :: "'s \<Rightarrow> 'a"
    and exec :: "'s \<Rightarrow> 'op \<Rightarrow> 'out \<times> 's" and spec :: "'a \<Rightarrow> 'op \<Rightarrow> 'out \<Rightarrow> 'a \<Rightarrow> bool"
  assumes keeps_ok: "ok s \<Longrightarrow> exec s p = (out, s') \<Longrightarrow> ok s'"
    and simulates: "ok s \<Longrightarrow> exec s p = (out, s') \<Longrightarrow> spec (abs s) p out (abs s')"
begin

lemma run_refines:
  assumes "ok s" and "exec_all exec s ps = (outs, s')"
  shows "ok s' \<and> spec_run spec (abs s) ps outs (abs s')"
  using assms
proof (induction ps arbitrary: s outs)
  case (Cons p ps)
  obtain out s1 where e: "exec s p = (out, s1)" by fastforce
  from Cons.prems e obtain outs' where "outs = out # outs'" "exec_all exec s1 ps = (outs', s')"
    by (auto split: prod.splits)
  then show ?case
    using Cons.IH [OF keeps_ok [OF Cons.prems(1) e]] simulates [OF Cons.prems(1) e]
    by (auto intro: spec_run.more)
qed (auto intro: spec_run.nil)

end

text \<open>
  Step relations: the states reachable from an initial one, and a predicate that every step keeps.
\<close>

inductive reachable :: "('s \<Rightarrow> bool) \<Rightarrow> ('s \<Rightarrow> 's \<Rightarrow> bool) \<Rightarrow> 's \<Rightarrow> bool" for init step where
  start: "init s \<Longrightarrow> reachable init step s"
| step: "reachable init step s \<Longrightarrow> step s s' \<Longrightarrow> reachable init step s'"

locale step_system =
  fixes init :: "'s \<Rightarrow> bool" and step :: "'s \<Rightarrow> 's \<Rightarrow> bool" and inv :: "'s \<Rightarrow> bool"
  assumes init_inv: "init s \<Longrightarrow> inv s"
    and step_inv: "inv s \<Longrightarrow> step s s' \<Longrightarrow> inv s'"
begin

lemma reachable_inv: "reachable init step s \<Longrightarrow> inv s"
  by (induction rule: reachable.induct) (auto intro: init_inv step_inv)

end

end
