(* ===== verification/Go_Net.thy ===== *)
theory Go_Net
  imports Prelude
begin

text \<open>
  The functions of Go's \<open>net\<close> and \<open>strconv\<close> packages that the program calls on addresses:
  \<open>net.SplitHostPort\<close>, \<open>net.JoinHostPort\<close>, \<open>strconv.Itoa\<close>, \<open>strconv.Atoi\<close>, the numeric part of
  \<open>net.LookupPort\<close> and the test \<open>net.ParseIP(s) != nil\<close>. They follow the standard library's own
  code. Their error values are never inspected by the program beyond being non-nil, so a failing
  call is \<open>None\<close>.
\<close>

section \<open>Decimal integers\<close>

fun itoa_nat :: "nat \<Rightarrow> string" where
  "itoa_nat n = (if n < 10 then [digit_char n] else itoa_nat (n div 10) @ [digit_char (n mod 10)])"

declare itoa_nat.simps [simp del]

definition itoa :: "int \<Rightarrow> string" where
  "itoa i = (if i < 0 then CHR ''-'' # itoa_nat (nat (- i)) else itoa_nat (nat i))"

fun digits_val :: "int \<Rightarrow> string \<Rightarrow> int option" where
  "digits_val acc [] = Some acc"
| "digits_val acc (c # cs) = (if is_digit c then digits_val (10 * acc + digit_val c) cs else None)"

text \<open>\<open>strconv.Atoi\<close> on a 64-bit platform: an optional sign, digits, and the range of \<open>int64\<close>.\<close>

definition split_sign :: "string \<Rightarrow> bool \<times> string" where
  "split_sign s = (case s of
      [] \<Rightarrow> (False, [])
    | c # cs \<Rightarrow> if c = CHR ''-'' then (True, cs) else if c = CHR ''+'' then (False, cs) else (False, s))"

definition atoi :: "string \<Rightarrow> int option" where
  "atoi s = (case split_sign s of (neg, ds) \<Rightarrow>
     if ds = [] then None
     else case digits_val 0 ds of
       None \<Rightarrow> None
     | Some n \<Rightarrow> let v = (if neg then - n else n)
                 in if - (2 ^ 63) \<le> v \<and> v < 2 ^ 63 then Some v else None)"

lemma itoa_nat_nonempty [simp]: "itoa_nat n \<noteq> []"
  by (subst itoa_nat.simps) simp

lemma itoa_nat_digits: "c \<in> set (itoa_nat n) \<Longrightarrow> is_digit c"
proof (induction n rule: itoa_nat.induct)
  case (1 n)
  then show ?case by (subst (asm) (2) itoa_nat.simps) (auto split: if_splits)
qed

lemma digits_val_append:
  "digits_val acc (xs @ ys) = (case digits_val acc xs of None \<Rightarrow> None | Some n \<Rightarrow> digits_val n ys)"
  by (induction xs arbitrary: acc) auto

lemma digits_val_itoa_nat: "digits_val 0 (itoa_nat n) = Some (int n)"
proof (induction n rule: itoa_nat.induct)
  case (1 n)
  show ?case
  proof (cases "n < 10")
    case True
    then show ?thesis by (subst itoa_nat.simps) simp
  next
    case False
    then have "int n = 10 * int (n div 10) + int (n mod 10)" by presburger
    with False 1 show ?thesis by (subst itoa_nat.simps) (simp add: digits_val_append)
  qed
qed

lemma not_digit_marks [simp]:
  "\<not> is_digit (CHR '':'')" "\<not> is_digit (CHR ''['')" "\<not> is_digit (CHR '']'')"
  "\<not> is_digit (CHR ''-'')" "\<not> is_digit (CHR ''+'')" "\<not> is_digit (CHR ''/'')"
  by (simp_all add: is_digit_def byte_def)

lemma split_sign_digits: "\<forall>c \<in> set s. is_digit c \<Longrightarrow> split_sign s = (False, s)"
  by (auto simp: split_sign_def split: list.splits)

lemma itoa_marks [simp]:
  "CHR '':'' \<notin> set (itoa i)" "CHR ''['' \<notin> set (itoa i)" "CHR '']'' \<notin> set (itoa i)"
  by (auto simp: itoa_def dest: itoa_nat_digits)

lemma atoi_itoa:
  assumes "- (2 ^ 63) \<le> i" and "i < 2 ^ 63"
  shows "atoi (itoa i) = Some i"
proof (cases "i < 0")
  case True
  then have "split_sign (itoa i) = (True, itoa_nat (nat (- i)))"
    by (simp add: itoa_def split_sign_def)
  with True assms show ?thesis by (simp add: atoi_def digits_val_itoa_nat)
next
  case False
  then have "split_sign (itoa i) = (False, itoa_nat (nat i))"
    by (simp add: itoa_def split_sign_digits itoa_nat_digits)
  with False assms show ?thesis by (simp add: atoi_def digits_val_itoa_nat)
qed

section \<open>Host and port\<close>

text \<open>The last checks of \<open>SplitHostPort\<close>: no bracket after positions \<open>j\<close> and \<open>k\<close>.\<close>

definition split_checked :: "string \<Rightarrow> string \<Rightarrow> nat \<Rightarrow> nat \<Rightarrow> nat \<Rightarrow> (string \<times> string) option" where
  "split_checked hp host i j k =
     (if CHR ''['' \<in> set (drop j hp) then None
      else if CHR '']'' \<in> set (drop k hp) then None
      else Some (host, drop (Suc i) hp))"

definition SplitHostPort :: "string \<Rightarrow> (string \<times> string) option" where
  "SplitHostPort hp = (case last_index_byte (CHR '':'') hp of
      None \<Rightarrow> None
    | Some i \<Rightarrow>
        if hp ! 0 = CHR ''['' then
          (case index_byte (CHR '']'') hp of
             None \<Rightarrow> None
           | Some e \<Rightarrow> if Suc e = length hp then None
                       else if Suc e = i then split_checked hp (drop 1 (take e hp)) i 1 (Suc e)
                       else None)
        else if CHR '':'' \<in> set (take i hp) then None
        else split_checked hp (take i hp) i 0 0)"

definition JoinHostPort :: "string \<Rightarrow> string \<Rightarrow> string" where
  "JoinHostPort host port =
     (if CHR '':'' \<in> set host then ''['' @ host @ '']:'' @ port else host @ '':'' @ port)"

lemma SplitHostPort_JoinHostPort:
  assumes "CHR '':'' \<notin> set port" and "CHR ''['' \<notin> set host" "CHR '']'' \<notin> set host"
    and "CHR ''['' \<notin> set port" "CHR '']'' \<notin> set port"
  shows "SplitHostPort (JoinHostPort host port) = Some (host, port)"
proof (cases "CHR '':'' \<in> set host")
  case True
  let ?hp = "CHR ''['' # host @ CHR '']'' # CHR '':'' # port"
  have i: "last_index_byte (CHR '':'') ?hp = Some (length host + 2)"
    using last_index_byte_append [of "CHR '':''" port "CHR ''['' # host @ [CHR '']'']"] assms by simp
  have e: "index_byte (CHR '']'') (host @ CHR '']'' # CHR '':'' # port) = Some (length host)"
    using assms by (simp add: index_byte_append)
  have "SplitHostPort ?hp = Some (host, port)"
    using assms by (simp add: SplitHostPort_def i e split_checked_def)
  with True show ?thesis by (simp add: JoinHostPort_def)
next
  case False
  let ?hp = "host @ CHR '':'' # port"
  have i: "last_index_byte (CHR '':'') ?hp = Some (length host)"
    using last_index_byte_append [of "CHR '':''" port host] assms by simp
  have "?hp ! 0 \<noteq> CHR ''[''"
    using assms by (cases host) auto
  with False assms have "SplitHostPort ?hp = Some (host, port)"
    by (simp add: SplitHostPort_def i split_checked_def)
  with False show ?thesis by (simp add: JoinHostPort_def)
qed

lemma SplitHostPort_no_colon: "CHR '':'' \<notin> set hp \<Longrightarrow> SplitHostPort hp = None"
  by (simp add: SplitHostPort_def last_index_byte_None [THEN iffD2])

lemma SplitHostPort_SomeD:
  assumes "SplitHostPort hp = Some (h, p)"
  shows "CHR '':'' \<notin> set p \<and> CHR ''['' \<notin> set h \<and> CHR ''['' \<notin> set p \<and> CHR '']'' \<notin> set p \<and> CHR '']'' \<notin> set h"
proof -
  from assms obtain i where i: "last_index_byte (CHR '':'') hp = Some i"
    by (auto simp: SplitHostPort_def split: option.splits)
  note bounds = last_index_byte_SomeD [OF i]
  show ?thesis
  proof (cases "hp ! 0 = CHR ''[''")
    case True
    with assms i obtain e where e: "index_byte (CHR '']'') hp = Some e" and "Suc e = i"
      and chk: "split_checked hp (drop 1 (take e hp)) i 1 (Suc e) = Some (h, p)"
      by (auto simp: SplitHostPort_def split: option.splits if_splits)
    from index_byte_SomeD [OF e] have ne: "CHR '']'' \<notin> set (take e hp)" by simp
    from chk have hp: "h = drop 1 (take e hp)" "p = drop (Suc i) hp"
      and nb: "CHR ''['' \<notin> set (drop 1 hp)" and nc: "CHR '']'' \<notin> set (drop (Suc e) hp)"
      by (auto simp: split_checked_def split: if_splits)
    have "set (drop 1 (take e hp)) \<subseteq> set (drop 1 hp)"
      by (metis drop_take set_take_subset)
    moreover have "set (drop (Suc i) hp) \<subseteq> set (drop 1 hp)"
      by (rule set_drop_subset_set_drop) simp
    moreover have "set (drop (Suc i) hp) \<subseteq> set (drop (Suc e) hp)"
      using \<open>Suc e = i\<close> by (intro set_drop_subset_set_drop) simp
    moreover have "set (drop 1 (take e hp)) \<subseteq> set (take e hp)" by (rule set_drop_subset)
    ultimately show ?thesis using bounds hp nb nc ne by auto
  next
    case False
    with assms i have chk: "split_checked hp (take i hp) i 0 0 = Some (h, p)"
      by (auto simp: SplitHostPort_def split: if_splits)
    then show ?thesis using bounds
      by (auto simp: split_checked_def split: if_splits dest: in_set_takeD in_set_dropD)
  qed
qed

text \<open>The host part of an address, or the whole address when it has no port part.\<close>

lemma SplitHostPort_JoinHostPort_itoa:
  "CHR ''['' \<notin> set host \<Longrightarrow> CHR '']'' \<notin> set host \<Longrightarrow>
   SplitHostPort (JoinHostPort host (itoa i)) = Some (host, itoa i)"
  by (rule SplitHostPort_JoinHostPort) auto

section \<open>Port numbers\<close>

text \<open>
  The numeric part of \<open>net.LookupPort\<close> (\<open>parsePort\<close>): \<open>Inr\<close> of the port number, clamped to
  \<open>2^30\<close>, or \<open>Inl\<close> for a service name that has to be looked up. An empty string is port 0.
\<close>

definition parse_port :: "string \<Rightarrow> string + int" where
  "parse_port s = (case split_sign s of (neg, ds) \<Rightarrow>
     (case digits_val 0 ds of
        None \<Rightarrow> Inl s
      | Some n \<Rightarrow> let m = min n (2 ^ 30 - (if neg then 0 else 1))
                  in Inr (if neg then - m else m)))"

definition LookupPort :: "(string \<Rightarrow> int option) \<Rightarrow> string \<Rightarrow> int option" where
  "LookupPort services s = (case parse_port s of
      Inl name \<Rightarrow> (case services name of None \<Rightarrow> None | Some p \<Rightarrow> if 0 \<le> p \<and> p \<le> 65535 then Some p else None)
    | Inr n \<Rightarrow> if 0 \<le> n \<and> n \<le> 65535 then Some n else None)"

lemma LookupPort_bound: "LookupPort services s = Some p \<Longrightarrow> 0 \<le> p \<and> p \<le> 65535"
  by (auto simp: LookupPort_def split: sum.splits option.splits if_splits)

lemma LookupPort_itoa:
  assumes "p \<le> 65535"
  shows "LookupPort services (itoa (int p)) = Some (int p)"
proof -
  have "split_sign (itoa (int p)) = (False, itoa_nat p)"
    by (simp add: itoa_def split_sign_digits itoa_nat_digits)
  with assms show ?thesis
    by (simp add: LookupPort_def parse_port_def digits_val_itoa_nat)
qed

section \<open>IP literals\<close>

definition is_hex :: "char \<Rightarrow> bool" where
  "is_hex c \<longleftrightarrow> is_digit c \<or> (97 \<le> byte c \<and> byte c \<le> 102) \<or> (65 \<le> byte c \<and> byte c \<le> 70)"

definition octet_ok :: "string \<Rightarrow> bool" where
  "octet_ok p \<longleftrightarrow> p \<noteq> [] \<and> list_all is_digit p \<and> (p = ''0'' \<or> p ! 0 \<noteq> CHR ''0'') \<and>
     (case digits_val 0 p of None \<Rightarrow> False | Some n \<Rightarrow> n \<le> 255)"

definition ipv4_ok :: "string \<Rightarrow> bool" where
  "ipv4_ok s \<longleftrightarrow> (let ps = split_on (CHR ''.'') s in length ps = 4 \<and> list_all octet_ok ps)"

text \<open>
  The group loop of \<open>netip.parseIPv6\<close>: \<open>k\<close> groups of two bytes are still free, \<open>ell\<close> says whether
  an ellipsis was seen.
\<close>

fun ipv6_loop :: "nat \<Rightarrow> bool \<Rightarrow> string \<Rightarrow> (nat \<times> bool \<times> string) option" where
  "ipv6_loop 0 ell s = Some (0, ell, s)"
| "ipv6_loop (Suc k) ell s =
     (let h = takeWhile is_hex s; rest = dropWhile is_hex s in
      if h = [] \<or> 4 < length h then None
      else case rest of
        [] \<Rightarrow> Some (k, ell, [])
      | c # r \<Rightarrow>
          if c = CHR ''.'' then
            (if (\<not> ell \<and> k \<noteq> 1) \<or> k = 0 \<or> \<not> ipv4_ok s then None else Some (k - 1, ell, []))
          else if c \<noteq> CHR '':'' then None
          else (case r of
              [] \<Rightarrow> None
            | d # r' \<Rightarrow>
                if d = CHR '':'' then
                  (if ell then None else if r' = [] then Some (k, True, []) else ipv6_loop k True r')
                else ipv6_loop k ell r))"

definition ipv6_ok :: "string \<Rightarrow> bool" where
  "ipv6_ok s \<longleftrightarrow> CHR ''%'' \<notin> set s \<and>
     (let lead = has_prefix s ''::''; s' = (if lead then drop 2 s else s) in
      (lead \<and> s' = []) \<or>
      (case ipv6_loop 8 lead s' of
         None \<Rightarrow> False
       | Some (k, ell, r) \<Rightarrow> r = [] \<and> (0 < k \<longrightarrow> ell) \<and> (k = 0 \<longrightarrow> \<not> ell)))"

text \<open>\<open>net.ParseIP(s) != nil\<close>: the first of the bytes dot, colon, percent picks the parser.\<close>

definition ParseIP_ok :: "string \<Rightarrow> bool" where
  "ParseIP_ok s = (case List.find (\<lambda>c. c \<in> {CHR ''.'', CHR '':'', CHR ''%''}) s of
      None \<Rightarrow> False
    | Some c \<Rightarrow> if c = CHR ''.'' then ipv4_ok s else if c = CHR '':'' then ipv6_ok s else False)"

end
