(* ===== verification/Errors.thy ===== *)
theory Errors
  imports Go_Net
begin

text \<open>
  Go error values and \<open>errors.go\<close>: the sentinels, the \<open>Retryable\<close> marker and \<open>IsRetryable\<close>, the
  classification that decides whether the registry's dial loop keeps waiting.

  An error value is the tree that \<open>Unwrap\<close> spans. \<open>errors.Is\<close> and \<open>errors.AsType\<close> walk that tree
  in pre-order, as the standard library does.
\<close>

named_theorems go_error "rules for errors.Is, errors.AsType and IsRetryable"

section \<open>Error values\<close>

text \<open>The package-level error values that the program compares against with \<open>errors.Is\<close>.\<close>

datatype sentinel =
    ErrRouteNotFound | ErrRouteExists | ErrClosed
  | ErrTargetNotFound
  | ECONNREFUSED | ECONNRESET
  | CtxCanceled | CtxDeadlineExceeded
  | NetErrClosed | HttpServerClosed

text \<open>
  \<open>ErrNew\<close> is \<open>errors.New\<close> of a message nobody compares with; \<open>Errorf fmt args es\<close> is
  \<open>fmt.Errorf\<close> with its text operands and the errors under its \<open>%w\<close> verbs; \<open>NetErr t al es\<close> is a
  \<open>net.Error\<close> with \<open>Timeout() = t\<close>, the sentinels its own \<open>Is\<close> method answers to, and the errors it
  wraps (\<open>net.OpError\<close>, the poller's timeout error); \<open>Joined\<close> is \<open>errors.Join\<close>.
\<close>

datatype goerr =
    Sentinel sentinel
  | ErrNew string
  | Errorf string "string list" "goerr list"
  | Joined "goerr list"
  | NetErr bool "sentinel list" "goerr list"
  | RetryableError goerr

text \<open>\<open>errors.Is(err, s)\<close>.\<close>

fun err_is :: "sentinel \<Rightarrow> goerr \<Rightarrow> bool" where
  "err_is s (Sentinel t) = (s = t)"
| "err_is s (ErrNew m) = False"
| "err_is s (Errorf f as es) = list_ex (err_is s) es"
| "err_is s (Joined es) = list_ex (err_is s) es"
| "err_is s (NetErr t al es) = (s \<in> set al \<or> list_ex (err_is s) es)"
| "err_is s (RetryableError e) = err_is s e"

text \<open>\<open>errors.AsType[*retryableError](err)\<close> finds a node.\<close>

fun as_retryable :: "goerr \<Rightarrow> bool" where
  "as_retryable (Errorf f as es) = list_ex as_retryable es"
| "as_retryable (Joined es) = list_ex as_retryable es"
| "as_retryable (NetErr t al es) = list_ex as_retryable es"
| "as_retryable (RetryableError e) = True"
| "as_retryable (Sentinel s) = False"
| "as_retryable (ErrNew m) = False"

text \<open>
  \<open>errors.AsType[net.Error](err)\<close>, reduced to the \<open>Timeout()\<close> of the first node found. The errno
  values and \<open>net.ErrClosed\<close> are network errors that are no timeouts; \<open>context.DeadlineExceeded\<close>
  is one whose \<open>Timeout()\<close> is true.
\<close>

fun as_net_error :: "goerr \<Rightarrow> bool option"
  and as_net_errors :: "goerr list \<Rightarrow> bool option" where
  "as_net_error (Sentinel s) =
     (if s = CtxDeadlineExceeded then Some True
      else if s \<in> {ECONNREFUSED, ECONNRESET, NetErrClosed} then Some False
      else None)"
| "as_net_error (ErrNew m) = None"
| "as_net_error (Errorf f as es) = as_net_errors es"
| "as_net_error (Joined es) = as_net_errors es"
| "as_net_error (NetErr t al es) = Some t"
| "as_net_error (RetryableError e) = as_net_error e"
| "as_net_errors [] = None"
| "as_net_errors (e # es) = (case as_net_error e of Some t \<Rightarrow> Some t | None \<Rightarrow> as_net_errors es)"

section \<open>errors.go\<close>

definition Retryable :: "goerr option \<Rightarrow> goerr option" where
  "Retryable err = (case err of None \<Rightarrow> None | Some e \<Rightarrow> Some (RetryableError e))"

definition IsRetryable :: "goerr option \<Rightarrow> bool" where
  "IsRetryable err = (case err of
      None \<Rightarrow> False
    | Some e \<Rightarrow>
        if as_retryable e then True
        else if err_is ECONNREFUSED e \<or> err_is ECONNRESET e then True
        else if err_is CtxCanceled e \<or> err_is CtxDeadlineExceeded e then False
        else (case as_net_error e of Some timeout \<Rightarrow> timeout | None \<Rightarrow> False))"

text \<open>\<open>errors.Join\<close> of the non-nil errors of a list; nil when there are none.\<close>

definition errors_Join :: "goerr option list \<Rightarrow> goerr option" where
  "errors_Join errs = (let es = List.map_filter (\<lambda>e. e) errs in if es = [] then None else Some (Joined es))"

lemma errors_Join_None [go_error]: "errors_Join errs = None \<longleftrightarrow> (\<forall>e \<in> set errs. e = None)"
proof -
  have "List.map_filter (\<lambda>e. e) errs = [] \<longleftrightarrow> (\<forall>e \<in> set errs. e = None)"
    by (induction errs) (auto simp: map_filter_def)
  then show ?thesis by (simp add: errors_Join_def Let_def)
qed

section \<open>Lemmas\<close>

lemma IsRetryable_None [simp, go_error]: "\<not> IsRetryable None"
  by (simp add: IsRetryable_def)

lemma IsRetryable_marked [simp, go_error]: "IsRetryable (Some (RetryableError e))"
  by (simp add: IsRetryable_def)

lemma IsRetryable_Sentinel [simp, go_error]:
  "IsRetryable (Some (Sentinel s)) \<longleftrightarrow> s = ECONNREFUSED \<or> s = ECONNRESET"
  by (cases s) (auto simp: IsRetryable_def)

lemma IsRetryable_ErrNew [simp, go_error]: "\<not> IsRetryable (Some (ErrNew m))"
  by (simp add: IsRetryable_def)

lemma IsRetryable_wrap1 [simp, go_error]: "IsRetryable (Some (Errorf f as [e])) = IsRetryable (Some e)"
  by (simp add: IsRetryable_def split: option.splits)

lemma IsRetryable_plain_Errorf [simp, go_error]: "\<not> IsRetryable (Some (Errorf f as []))"
  by (simp add: IsRetryable_def)

lemma IsRetryable_context:
  assumes "err_is CtxCanceled e \<or> err_is CtxDeadlineExceeded e"
    and "\<not> as_retryable e" and "\<not> err_is ECONNREFUSED e" and "\<not> err_is ECONNRESET e"
  shows "\<not> IsRetryable (Some e)"
  using assms by (auto simp: IsRetryable_def)

text \<open>A chain of \<open>%w\<close> wrappers around one error, innermost last.\<close>

fun wrap_all :: "(string \<times> string list) list \<Rightarrow> goerr \<Rightarrow> goerr" where
  "wrap_all [] e = e"
| "wrap_all ((f, as) # ws) e = Errorf f as [wrap_all ws e]"

lemma err_is_wrap_all [simp, go_error]: "err_is s (wrap_all ws e) = err_is s e"
  by (induction ws e rule: wrap_all.induct) auto

lemma IsRetryable_wrap_all [simp, go_error]: "IsRetryable (Some (wrap_all ws e)) = IsRetryable (Some e)"
  by (induction ws e rule: wrap_all.induct) auto

section \<open>Properties\<close>

text \<open>Wrapping an error any number of times with \<open>%w\<close> changes neither what \<open>errors.Is\<close> finds in it nor
  whether the dial loop retries it, so the classification is the same at every layer.\<close>

theorem IsRetryable_sees_through_wrapping:
  "IsRetryable (Some (wrap_all ws e)) = IsRetryable (Some e) \<and>
   (\<forall>s. err_is s (wrap_all ws e) = err_is s e) \<and>
   IsRetryable (Retryable (Some (wrap_all ws e)))"
  by (simp add: Retryable_def)

end
