(* ===== verification/Backoff.thy ===== *)
theory Backoff
  imports Prelude "HOL-Library.Word"
begin

text \<open>
  \<open>internal/backoff/backoff.go\<close>: exponential delays from \<open>min\<close> to \<open>max\<close> with jitter. A
  \<open>time.Duration\<close> is an \<open>int64\<close>, kept at its width because \<open>Next\<close> relies on the sign of a shift
  that may overflow; comparisons read the word as two's complement.
\<close>

type_synonym duration = "64 word"

definition millisecond :: duration where
  "millisecond = 1000000"

record Backoff =
  b_min :: duration
  b_max :: duration
  b_attempt :: nat

definition backoff_New :: "duration \<Rightarrow> duration \<Rightarrow> Backoff" where
  "backoff_New mn mx =
     (let mn' = (if sint mn \<le> 0 then millisecond else mn);
          mx' = (if sint mx < sint mn' then mn' else mx)
      in \<lparr>b_min = mn', b_max = mx', b_attempt = 0\<rparr>)"

text \<open>
  \<open>rand.Int64N(n)\<close> for \<open>n > 0\<close>: some value of \<open>[0, n)\<close>. The raw draw is an input, so a theorem
  about every draw is a theorem about every value the generator can return.
\<close>

definition Int64N :: "nat \<Rightarrow> duration \<Rightarrow> duration" where
  "Int64N draw n = word_of_int (int draw mod sint n)"

text \<open>The delay before jitter, and whether the attempt counter advances.\<close>

definition base_delay :: "Backoff \<Rightarrow> duration \<times> bool" where
  "base_delay b =
     (let d = push_bit (b_attempt b) (b_min b) in
      if sint d > sint (b_max b) \<or> sint d \<le> 0 then (b_max b, False) else (d, True))"

text \<open>Go's division truncates; on the positive \<open>d\<close> of \<open>Next\<close> it agrees with \<open>div\<close>.\<close>

definition quot :: "duration \<Rightarrow> int \<Rightarrow> duration" where
  "quot d k = word_of_int (sgn (sint d) * sgn k * (\<bar>sint d\<bar> div \<bar>k\<bar>))"

definition backoff_Next :: "nat \<Rightarrow> Backoff \<Rightarrow> duration \<times> Backoff" where
  "backoff_Next draw b =
     (case base_delay b of (d, adv) \<Rightarrow>
        let b' = (if adv then b\<lparr>b_attempt := Suc (b_attempt b)\<rparr> else b);
            j = Int64N draw (quot d 2 + 1) - quot d 4
        in (d + j, b'))"

definition backoff_Reset :: "Backoff \<Rightarrow> Backoff" where
  "backoff_Reset b = b\<lparr>b_attempt := 0\<rparr>"

section \<open>Invariant\<close>

text \<open>
  Every doubling counted by \<open>attempt\<close> stayed at or below \<open>max\<close>: this is what keeps the next shift
  within 64 bits, so that an overflow can only show up as a negative value.
\<close>

definition backoff_inv :: "Backoff \<Rightarrow> bool" where
  "backoff_inv b \<longleftrightarrow> 0 < sint (b_min b) \<and> sint (b_min b) \<le> sint (b_max b) \<and>
     (\<forall>k. Suc k = b_attempt b \<longrightarrow> sint (b_min b) * 2 ^ k \<le> sint (b_max b))"

lemma sint_bounds: "- (2 ^ 63) \<le> sint (w :: duration)" "sint (w :: duration) < 2 ^ 63"
  using sint_greater_eq [of w] sint_less [of w] by simp_all

lemma sint_word_of_int_small: "- (2 ^ 63) \<le> i \<Longrightarrow> i < 2 ^ 63 \<Longrightarrow> sint (word_of_int i :: duration) = i"
  by (simp add: signed_of_int signed_take_bit_int_eq_self)

lemma backoff_inv_New: "backoff_inv (backoff_New mn mx)"
  by (auto simp: backoff_inv_def backoff_New_def Let_def millisecond_def)

lemma backoff_inv_Reset: "backoff_inv b \<Longrightarrow> backoff_inv (backoff_Reset b)"
  by (simp add: backoff_inv_def backoff_Reset_def)

lemma shift_value:
  assumes "0 < sint w" and "sint w * 2 ^ n < 2 ^ 64"
  shows "sint (push_bit n (w :: duration)) =
    (if sint w * 2 ^ n < 2 ^ 63 then sint w * 2 ^ n else sint w * 2 ^ n - 2 ^ 64)"
proof -
  let ?p = "sint w * 2 ^ n"
  have p: "push_bit n w = word_of_int ?p" and pos: "0 < ?p"
    using assms(1) by (simp_all add: push_bit_eq_mult)
  have "(word_of_int (?p - 2 ^ 64) :: duration) = word_of_int ?p - word_of_int (2 ^ 64)"
    by (rule of_int_diff)
  also have "(word_of_int (2 ^ 64) :: duration) = 0" by simp
  finally have p': "push_bit n w = word_of_int (?p - 2 ^ 64)" using p by simp
  show ?thesis
  proof (cases "?p < 2 ^ 63")
    case True
    then show ?thesis using pos by (simp only: p if_True) (rule sint_word_of_int_small, simp_all)
  next
    case False
    then show ?thesis using assms(2)
      by (simp only: p' if_False) (rule sint_word_of_int_small, simp_all)
  qed
qed

lemma base_delay_value:
  assumes "backoff_inv b"
  shows "sint (fst (base_delay b)) = min (sint (b_min b) * 2 ^ b_attempt b) (sint (b_max b))"
    and "snd (base_delay b) \<longleftrightarrow> sint (b_min b) * 2 ^ b_attempt b \<le> sint (b_max b)"
proof -
  let ?m = "sint (b_min b)" and ?M = "sint (b_max b)" and ?n = "b_attempt b"
  from assms have pos: "0 < ?m" and le: "?m \<le> ?M"
    and prev: "\<And>k. Suc k = ?n \<Longrightarrow> ?m * 2 ^ k \<le> ?M"
    by (auto simp: backoff_inv_def)
  have M: "?M < 2 ^ 63" by (rule sint_bounds)
  have small: "?m * 2 ^ ?n < 2 ^ 64"
  proof (cases ?n)
    case 0
    with le M show ?thesis by simp
  next
    case (Suc k)
    with prev [of k] M show ?thesis by simp
  qed
  note sv = shift_value [OF pos small]
  have "0 < ?m * 2 ^ ?n" using pos by simp
  then have "fst (base_delay b) = (if ?m * 2 ^ ?n \<le> ?M then push_bit ?n (b_min b) else b_max b)
      \<and> (snd (base_delay b) \<longleftrightarrow> ?m * 2 ^ ?n \<le> ?M)"
    using small M by (auto simp: base_delay_def Let_def sv)
  then show "sint (fst (base_delay b)) = min (?m * 2 ^ ?n) ?M"
    and "snd (base_delay b) \<longleftrightarrow> ?m * 2 ^ ?n \<le> ?M"
    using sv M by (auto simp: min_def)
qed

lemma backoff_Next_state:
  "snd (backoff_Next draw b) =
     (if snd (base_delay b) then b\<lparr>b_attempt := Suc (b_attempt b)\<rparr> else b)"
  by (simp add: backoff_Next_def Let_def split: prod.split)

lemma backoff_inv_Next: "backoff_inv b \<Longrightarrow> backoff_inv (snd (backoff_Next draw b))"
  using base_delay_value(2) [of b] by (auto simp: backoff_Next_state backoff_inv_def)

lemma backoff_Next_consts [simp]:
  "b_min (snd (backoff_Next draw b)) = b_min b" "b_max (snd (backoff_Next draw b)) = b_max b"
  by (simp_all add: backoff_Next_state)

section \<open>Jitter\<close>

lemma backoff_Next_delay:
  assumes "backoff_inv b" and "sint (b_max b) \<le> 2 ^ 62"
  defines "d \<equiv> min (sint (b_min b) * 2 ^ b_attempt b) (sint (b_max b))"
  shows "sint (fst (backoff_Next draw b)) = d + int draw mod (d div 2 + 1) - d div 4"
proof -
  obtain w adv where bd: "base_delay b = (w, adv)" by fastforce
  with base_delay_value(1) [OF assms(1)] have w: "sint w = d" by (simp add: d_def)
  have d: "0 < d" "d \<le> 2 ^ 62"
    using assms by (auto simp: d_def backoff_inv_def min_def)
  have q2: "quot w 2 = word_of_int (d div 2)" and q4: "quot w 4 = word_of_int (d div 4)"
    using d by (simp_all add: quot_def w)
  have "quot w 2 + 1 = word_of_int (d div 2 + 1)"
    by (simp add: q2)
  then have "sint (quot w 2 + 1) = d div 2 + 1"
    using d sint_word_of_int_small [of "d div 2 + 1"] by simp
  moreover have wd: "w = word_of_int d" by (simp flip: w)
  ultimately have nxt: "fst (backoff_Next draw b) =
      word_of_int (d + int draw mod (d div 2 + 1) - d div 4)"
    using q4 by (simp add: backoff_Next_def bd Let_def Int64N_def wd)
  have "0 < d div 2 + 1" using d by simp
  then have "0 \<le> int draw mod (d div 2 + 1)" "int draw mod (d div 2 + 1) < d div 2 + 1"
    by (rule pos_mod_sign, rule pos_mod_bound)
  moreover have "d div 2 \<le> d" "0 \<le> d div 4" "d div 4 \<le> d" using d by simp_all
  moreover have "(2 :: int) ^ 62 = 4611686018427387904" "(2 :: int) ^ 63 = 9223372036854775808"
    by simp_all
  ultimately have "- (2 ^ 63) \<le> d + int draw mod (d div 2 + 1) - d div 4"
    and "d + int draw mod (d div 2 + 1) - d div 4 < 2 ^ 63"
    using d by linarith+
  then show ?thesis unfolding nxt by (rule sint_word_of_int_small)
qed

lemma backoff_Next_delay_bounds:
  assumes "backoff_inv b" and "sint (b_max b) \<le> 2 ^ 62"
  defines "d \<equiv> min (sint (b_min b) * 2 ^ b_attempt b) (sint (b_max b))"
  shows "0 < sint (fst (backoff_Next draw b))"
    and "d - d div 4 \<le> sint (fst (backoff_Next draw b))"
    and "sint (fst (backoff_Next draw b)) \<le> d - d div 4 + d div 2"
proof -
  have "0 < d" using assms by (auto simp: d_def backoff_inv_def min_def)
  then have "0 < d div 2 + 1" by simp
  then have "0 \<le> int draw mod (d div 2 + 1)" "int draw mod (d div 2 + 1) < d div 2 + 1"
    by (rule pos_mod_sign, rule pos_mod_bound)
  moreover have "d div 4 < d" using \<open>0 < d\<close> by simp
  moreover have "sint (fst (backoff_Next draw b)) = d + int draw mod (d div 2 + 1) - d div 4"
    unfolding d_def by (rule backoff_Next_delay [OF assms(1,2)])
  ultimately show "0 < sint (fst (backoff_Next draw b))"
    and "d - d div 4 \<le> sint (fst (backoff_Next draw b))"
    and "sint (fst (backoff_Next draw b)) \<le> d - d div 4 + d div 2"
    by linarith+
qed

section \<open>The sequence of delays\<close>

text \<open>The state after one \<open>Next\<close> per draw.\<close>

fun backoff_run :: "nat list \<Rightarrow> Backoff \<Rightarrow> Backoff" where
  "backoff_run [] b = b"
| "backoff_run (r # rs) b = backoff_run rs (snd (backoff_Next r b))"

lemma backoff_run_inv: "backoff_inv b \<Longrightarrow> backoff_inv (backoff_run rs b)"
  by (induction rs arbitrary: b) (auto intro: backoff_inv_Next)

lemma backoff_run_consts [simp]:
  "b_min (backoff_run rs b) = b_min b" "b_max (backoff_run rs b) = b_max b"
  by (induction rs arbitrary: b) auto

lemma min_double_saturated:
  assumes "(M :: int) < m * 2 ^ k" and "0 < m" and "k \<le> n"
  shows "min (m * 2 ^ n) M = M"
proof -
  have "m * 2 ^ k \<le> m * 2 ^ n" using assms(2,3) by (simp add: power_increasing)
  with assms(1) show ?thesis by simp
qed

lemma backoff_run_schedule:
  assumes "backoff_inv b"
  shows "sint (fst (base_delay (backoff_run rs b))) =
    min (sint (b_min b) * 2 ^ (b_attempt b + length rs)) (sint (b_max b))"
  using assms
proof (induction rs arbitrary: b)
  case Nil
  then show ?case by (simp add: base_delay_value)
next
  case (Cons r rs)
  let ?b' = "snd (backoff_Next r b)"
  have inv: "backoff_inv ?b'" by (rule backoff_inv_Next [OF Cons.prems])
  show ?case
  proof (cases "snd (base_delay b)")
    case True
    with Cons.IH [OF inv] show ?thesis by (simp add: backoff_Next_state)
  next
    case False
    with base_delay_value(2) [OF Cons.prems]
    have sat: "sint (b_max b) < sint (b_min b) * 2 ^ b_attempt b" by simp
    have pos: "0 < sint (b_min b)" using Cons.prems by (simp add: backoff_inv_def)
    have "min (sint (b_min b) * 2 ^ (b_attempt b + length rs)) (sint (b_max b)) = sint (b_max b)"
      by (rule min_double_saturated [OF sat pos]) simp
    moreover have
      "min (sint (b_min b) * 2 ^ (b_attempt b + length (r # rs))) (sint (b_max b)) = sint (b_max b)"
      by (rule min_double_saturated [OF sat pos]) simp
    ultimately show ?thesis using False Cons.IH [OF inv] by (simp add: backoff_Next_state)
  qed
qed

section \<open>Properties\<close>

text \<open>C23: The delays: after any number of calls the jittered delay is positive and within a quarter below and a
  quarter above the base delay, which doubles from \<open>Min\<close> and stays at \<open>Max\<close> once it reaches it; no
  multiplication overflows, whatever the bounds up to 2^62 nanoseconds given to \<open>New\<close>, however large the
  attempt number, and \<open>Reset\<close> starts over.\<close>

theorem backoff_delays:
  fixes rs :: "nat list"
  assumes "0 < sint mn" and "sint mn \<le> sint mx" and "sint mx \<le> 2 ^ 62"
  defines "d \<equiv> min (sint mn * 2 ^ length rs) (sint mx)"
  shows "let b = backoff_run rs (backoff_New mn mx); delay = sint (fst (backoff_Next draw b)) in
    0 < delay \<and> d - d div 4 \<le> delay \<and> delay \<le> d - d div 4 + d div 2 \<and>
    sint (fst (base_delay b)) = d \<and> backoff_Reset b = backoff_New mn mx"
proof -
  let ?b = "backoff_run rs (backoff_New mn mx)"
  have new: "b_min (backoff_New mn mx) = mn" "b_max (backoff_New mn mx) = mx"
      "b_attempt (backoff_New mn mx) = 0"
    using assms by (auto simp: backoff_New_def Let_def word_sless_alt word_sle_eq)
  have inv: "backoff_inv ?b" by (rule backoff_run_inv [OF backoff_inv_New])
  have base: "sint (fst (base_delay ?b)) = d"
    using backoff_run_schedule [OF backoff_inv_New, of rs mn mx] by (simp add: new d_def)
  have d: "min (sint (b_min ?b) * 2 ^ b_attempt ?b) (sint (b_max ?b)) = d"
    using base base_delay_value(1) [OF inv] by simp
  have mx: "sint (b_max ?b) \<le> 2 ^ 62" using assms(3) by (simp add: new)
  have "backoff_Reset ?b = backoff_New mn mx"
    by (rule Backoff.equality) (simp_all add: backoff_Reset_def new)
  with backoff_Next_delay_bounds [OF inv mx, of draw, unfolded d] base show ?thesis
    by (simp add: Let_def)
qed

theorem backoff_delays_witness:
  "let b = backoff_run [7, 7, 7, 7, 7, 7] (backoff_New 25000000 500000000);
       delay = sint (fst (backoff_Next 11 b)) in
   375000000 \<le> delay \<and> delay \<le> 625000000 \<and> sint (fst (base_delay b)) = 500000000"
proof -
  have "sint (25000000 :: duration) = 25000000" "sint (500000000 :: duration) = 500000000" by simp_all
  then show ?thesis
    using backoff_delays [where mn = 25000000 and mx = 500000000 and rs = "[7, 7, 7, 7, 7, 7]" and draw = 11]
    by (simp add: Let_def)
qed

end
