(* ===== verification/World.thy ===== *)
theory World
  imports Errors Backoff
begin

text \<open>
  The world a dial runs in: a clock, the random draws still to come, the connections and listeners
  closed so far, and the instant at which some other goroutine closes the registry. The field \<open>ext\<close> is
  the state of everything outside the program (networks, backends, event handlers).

  Contexts carry the instants at which they will be done, so that cancellation by another
  goroutine at an arbitrary moment is a value of the context. Time is an \<open>int\<close> of nanoseconds.
\<close>

named_theorems go_time "rules for contexts and the clock"

section \<open>Connections, addresses and events\<close>

text \<open>
  A \<open>net.Conn\<close>: its identity, whether it has a \<open>CloseWrite\<close> method, and what \<open>Close\<close> returns.
\<close>

datatype conn = Conn (conn_id: nat) (has_close_write: bool) (close_error: "goerr option")

text \<open>
  A \<open>net.Addr\<close> interface value: a nil pointer inside the interface, or an address with its
  network and text. A nil interface is \<open>None\<close> of an option.
\<close>

datatype goaddr = TypedNil | NetAddr (addr_network: string) (addr_string: string)

datatype EventType =
    EventInvalid | EventRouteAdded | EventRouteRemoved | EventDialStart | EventDialRetry
  | EventDialSuccess | EventDialError | EventBackendUnhealthy | EventBackendRecovered
  | EventOther nat

fun EventType_String :: "EventType \<Rightarrow> string" where
  "EventType_String EventInvalid = ''invalid''"
| "EventType_String EventRouteAdded = ''route_added''"
| "EventType_String EventRouteRemoved = ''route_removed''"
| "EventType_String EventDialStart = ''dial_start''"
| "EventType_String EventDialRetry = ''dial_retry''"
| "EventType_String EventDialSuccess = ''dial_success''"
| "EventType_String EventDialError = ''dial_error''"
| "EventType_String EventBackendUnhealthy = ''backend_unhealthy''"
| "EventType_String EventBackendRecovered = ''backend_recovered''"
| "EventType_String (EventOther n) = ''unknown''"

record Event =
  ev_type :: EventType
  ev_route :: string
  ev_address :: string
  ev_attempt :: nat
  ev_err :: "goerr option"
  ev_elapsed :: int
  ev_time :: "int option"

definition event :: "EventType \<Rightarrow> string \<Rightarrow> Event" where
  "event t name = \<lparr>ev_type = t, ev_route = name, ev_address = [], ev_attempt = 0, ev_err = None,
     ev_elapsed = 0, ev_time = None\<rparr>"

section \<open>The world\<close>

record 'x world =
  now :: int
  rnd :: "nat list"
  closed_conns :: "nat list"
  closed_listeners :: "nat list"
  done_at :: "int option"
  ext :: 'x

definition take_draw :: "'x world \<Rightarrow> nat \<times> 'x world" where
  "take_draw w = (case rnd w of [] \<Rightarrow> (0, w) | d # ds \<Rightarrow> (d, w\<lparr>rnd := ds\<rparr>))"

definition close_conn :: "conn \<Rightarrow> 'x world \<Rightarrow> 'x world" where
  "close_conn c w = w\<lparr>closed_conns := conn_id c # closed_conns w\<rparr>"

definition close_listener :: "nat \<Rightarrow> 'x world \<Rightarrow> 'x world" where
  "close_listener l w = w\<lparr>closed_listeners := l # closed_listeners w\<rparr>"

lemma now_take_draw [simp, go_time]: "now (snd (take_draw w)) = now w"
  by (simp add: take_draw_def split: list.splits)

lemma done_at_take_draw [simp, go_time]: "done_at (snd (take_draw w)) = done_at w"
  by (simp add: take_draw_def split: list.splits)

lemma ext_take_draw [simp]: "ext (snd (take_draw w)) = ext w"
  by (simp add: take_draw_def split: list.splits)

lemma take_draw_eqD:
  "take_draw w = (d, w') \<Longrightarrow> now w' = now w \<and> done_at w' = done_at w \<and> ext w' = ext w"
  by (auto simp: take_draw_def split: list.splits)

lemma now_close_conn [simp, go_time]: "now (close_conn c w) = now w"
  by (simp add: close_conn_def)

section \<open>Contexts\<close>

text \<open>
  A context has an optional deadline with the cause it will report, and an optional instant of
  cancellation with its cause.
\<close>

record ctx =
  c_deadline :: "(int \<times> goerr) option"
  c_cancel :: "(int \<times> goerr) option"

definition Background :: ctx where
  "Background = \<lparr>c_deadline = None, c_cancel = None\<rparr>"

text \<open>When the context is done, and what \<open>Err\<close> and \<open>context.Cause\<close> report from then on.\<close>

definition ctx_done :: "ctx \<Rightarrow> (int \<times> goerr \<times> goerr) option" where
  "ctx_done c = (case (c_cancel c, c_deadline c) of
      (None, None) \<Rightarrow> None
    | (Some (t, e), None) \<Rightarrow> Some (t, Sentinel CtxCanceled, e)
    | (None, Some (d, e)) \<Rightarrow> Some (d, Sentinel CtxDeadlineExceeded, e)
    | (Some (t, e), Some (d, e')) \<Rightarrow>
        if t \<le> d then Some (t, Sentinel CtxCanceled, e)
        else Some (d, Sentinel CtxDeadlineExceeded, e'))"

definition ctx_Err :: "ctx \<Rightarrow> int \<Rightarrow> goerr option" where
  "ctx_Err c t = (case ctx_done c of
      None \<Rightarrow> None | Some (d, err, cause) \<Rightarrow> if d \<le> t then Some err else None)"

definition ctx_Cause :: "ctx \<Rightarrow> int \<Rightarrow> goerr option" where
  "ctx_Cause c t = (case ctx_done c of
      None \<Rightarrow> None | Some (d, err, cause) \<Rightarrow> if d \<le> t then Some cause else None)"

text \<open>
  \<open>context.WithTimeoutCause\<close> at time \<open>t\<close>: a parent with an earlier deadline keeps it, and its
  cause; \<open>context.WithTimeout\<close> reports \<open>DeadlineExceeded\<close>; \<open>context.WithoutCancel\<close> drops both.
\<close>

definition WithTimeoutCause :: "ctx \<Rightarrow> int \<Rightarrow> int \<Rightarrow> goerr \<Rightarrow> ctx" where
  "WithTimeoutCause c t d cause = (case c_deadline c of
      Some (cur, _) \<Rightarrow> if cur < t + d then c else c\<lparr>c_deadline := Some (t + d, cause)\<rparr>
    | None \<Rightarrow> c\<lparr>c_deadline := Some (t + d, cause)\<rparr>)"

definition WithTimeout :: "ctx \<Rightarrow> int \<Rightarrow> int \<Rightarrow> ctx" where
  "WithTimeout c t d = WithTimeoutCause c t d (Sentinel CtxDeadlineExceeded)"

definition WithoutCancel :: "ctx \<Rightarrow> ctx" where
  "WithoutCancel c = Background"

text \<open>The instant by which a context with a deadline is done.\<close>

definition done_by :: "ctx \<Rightarrow> int \<Rightarrow> bool" where
  "done_by c d \<longleftrightarrow> (\<exists>t err cause. ctx_done c = Some (t, err, cause) \<and> t \<le> d)"

lemma done_by_deadline [go_time]: "c_deadline c = Some (d, e) \<Longrightarrow> done_by c d"
  by (auto simp: done_by_def ctx_done_def split: option.splits prod.splits)

lemma WithTimeoutCause_deadline [go_time]:
  "\<exists>d' e. c_deadline (WithTimeoutCause c t d cause) = Some (d', e) \<and> d' \<le> t + d"
  by (auto simp: WithTimeoutCause_def split: option.splits prod.splits)

lemma ctx_Cause_None_iff [go_time]:
  "ctx_Cause c t = None \<longleftrightarrow> (\<forall>d err cause. ctx_done c = Some (d, err, cause) \<longrightarrow> t < d)"
  by (auto simp: ctx_Cause_def split: option.splits if_splits)

lemma ctx_Cause_Err: "ctx_Cause c t = None \<longleftrightarrow> ctx_Err c t = None"
  by (auto simp: ctx_Cause_def ctx_Err_def split: option.splits if_splits)

lemma ctx_Cause_mono: "ctx_Cause c t = Some e \<Longrightarrow> t \<le> t' \<Longrightarrow> ctx_Cause c t' = Some e"
  by (auto simp: ctx_Cause_def split: option.splits if_splits)

section \<open>Durations\<close>

abbreviation nano_ms :: int where "nano_ms \<equiv> 1000000"

abbreviation nano_s :: int where "nano_s \<equiv> 1000000000"

end
