(* ===== verification/Options.thy ===== *)
theory Options
  imports World
begin

text \<open>
  \<open>options.go\<close>, \<open>backend.go\<close>, \<open>middleware.go\<close> and the types of \<open>route.go\<close>: dial functions,
  middleware, backends with their optional capabilities, the two configuration records and the
  option functions that edit them.

  A dial function is a state transformer on the world. An optional capability that Go detects by
  a type assertion is an \<open>option\<close> field of the backend record.
\<close>

named_theorems go_config "effects of the option functions"

section \<open>Dial functions and backends\<close>

type_synonym 'x dialfn = "ctx \<Rightarrow> string \<Rightarrow> string \<Rightarrow> 'x world \<Rightarrow> (goerr + conn) \<times> 'x world"
type_synonym 'x middleware = "'x dialfn \<Rightarrow> 'x dialfn"
type_synonym 'x healthcheck = "ctx \<Rightarrow> 'x dialfn \<Rightarrow> 'x world \<Rightarrow> goerr option \<times> 'x world"
type_synonym 'x handler = "Event \<Rightarrow> 'x world \<Rightarrow> 'x world"

text \<open>
  \<open>bk_id\<close> is the pointer identity of the backend. \<open>bk_sink\<close> is \<open>SetEventSink\<close>: the sink the
  registry installs is determined by the route name it fills in, so the name stands for it.
\<close>

record 'x Backend =
  bk_id :: nat
  bk_dial :: "'x dialfn"
  bk_start :: "(ctx \<Rightarrow> 'x world \<Rightarrow> goerr option \<times> 'x world) option"
  bk_stop :: "(ctx \<Rightarrow> 'x world \<Rightarrow> goerr option \<times> 'x world) option"
  bk_addr :: "('x world \<Rightarrow> goaddr option) option"
  bk_sink :: "(string \<Rightarrow> 'x world \<Rightarrow> 'x world) option"

definition simple_backend :: "nat \<Rightarrow> 'x dialfn \<Rightarrow> 'x Backend" where
  "simple_backend i d = \<lparr>bk_id = i, bk_dial = d, bk_start = None, bk_stop = None,
     bk_addr = None, bk_sink = None\<rparr>"

section \<open>Configuration\<close>

record 'x config =
  c_fallback :: "'x dialfn option"
  c_forceStrict :: bool
  c_readyTimeout :: int
  c_middleware :: "'x middleware list"
  c_handlers :: "'x handler list"

record 'x routeConfig =
  rc_readyTimeout :: int
  rc_middleware :: "'x middleware list"
  rc_health :: "'x healthcheck option"
  rc_portMap :: "(int \<times> int) list"
  rc_hostRewrite :: string

definition defaultReadyTimeout :: int where
  "defaultReadyTimeout = 60 * nano_s"

text \<open>\<open>plain\<close> is the \<open>net.Dialer\<close> a nil fallback stands for.\<close>

definition WithFallback :: "'x dialfn \<Rightarrow> 'x dialfn option \<Rightarrow> 'x config \<Rightarrow> 'x config" where
  "WithFallback plain d c = c\<lparr>c_fallback := Some (case d of None \<Rightarrow> plain | Some d' \<Rightarrow> d')\<rparr>"

definition WithFallbackDialer :: "'x dialfn \<Rightarrow> 'x dialfn option \<Rightarrow> 'x config \<Rightarrow> 'x config" where
  "WithFallbackDialer plain d = WithFallback plain d"

text \<open>The logger is no part of the configuration here.\<close>

definition Registry_WithLogger :: "'x config \<Rightarrow> 'x config" where
  "Registry_WithLogger c = c"

definition WithStrict :: "'x config \<Rightarrow> 'x config" where
  "WithStrict c = c\<lparr>c_forceStrict := True\<rparr>"

definition WithReadyTimeout :: "int \<Rightarrow> 'x config \<Rightarrow> 'x config" where
  "WithReadyTimeout d c = c\<lparr>c_readyTimeout := d\<rparr>"

definition WithMiddleware :: "'x middleware list \<Rightarrow> 'x config \<Rightarrow> 'x config" where
  "WithMiddleware mw c = c\<lparr>c_middleware := c_middleware c @ mw\<rparr>"

definition WithEventHandler :: "'x handler \<Rightarrow> 'x config \<Rightarrow> 'x config" where
  "WithEventHandler h c = c\<lparr>c_handlers := c_handlers c @ [h]\<rparr>"

definition RouteWithReadyTimeout :: "int \<Rightarrow> 'x routeConfig \<Rightarrow> 'x routeConfig" where
  "RouteWithReadyTimeout d c = c\<lparr>rc_readyTimeout := d\<rparr>"

definition RouteWithMiddleware :: "'x middleware list \<Rightarrow> 'x routeConfig \<Rightarrow> 'x routeConfig" where
  "RouteWithMiddleware mw c = c\<lparr>rc_middleware := rc_middleware c @ mw\<rparr>"

definition RouteWithHealthCheck :: "'x healthcheck \<Rightarrow> 'x routeConfig \<Rightarrow> 'x routeConfig" where
  "RouteWithHealthCheck hc c = c\<lparr>rc_health := Some hc\<rparr>"

definition RouteWithHostRewrite :: "string \<Rightarrow> 'x routeConfig \<Rightarrow> 'x routeConfig" where
  "RouteWithHostRewrite host c = c\<lparr>rc_hostRewrite := host\<rparr>"

definition RouteWithPortMap :: "(int \<times> int) list \<Rightarrow> 'x routeConfig \<Rightarrow> 'x routeConfig" where
  "RouteWithPortMap m c = c\<lparr>rc_portMap := m\<rparr>"

definition route_config :: "'x config \<Rightarrow> ('x routeConfig \<Rightarrow> 'x routeConfig) list \<Rightarrow> 'x routeConfig" where
  "route_config cfg opts = foldl (\<lambda>c opt. opt c)
     \<lparr>rc_readyTimeout = c_readyTimeout cfg, rc_middleware = [], rc_health = None, rc_portMap = [],
      rc_hostRewrite = []\<rparr> opts"

text \<open>The configuration part of \<open>New\<close>: defaults, then the options in order, then strictness.\<close>

definition New_config :: "('x config \<Rightarrow> 'x config) list \<Rightarrow> 'x config" where
  "New_config opts =
     (let cfg = foldl (\<lambda>c opt. opt c)
          \<lparr>c_fallback = None, c_forceStrict = False, c_readyTimeout = defaultReadyTimeout,
           c_middleware = [], c_handlers = []\<rparr> opts
      in if c_forceStrict cfg then cfg\<lparr>c_fallback := None\<rparr> else cfg)"

lemma options_forceStrict [simp, go_config]:
  "c_forceStrict (WithFallback plain d c) = c_forceStrict c"
  "c_forceStrict (WithFallbackDialer plain d c) = c_forceStrict c"
  "c_forceStrict (WithStrict c) = True"
  "c_forceStrict (WithReadyTimeout t c) = c_forceStrict c"
  "c_forceStrict (WithMiddleware mw c) = c_forceStrict c"
  "c_forceStrict (WithEventHandler h c) = c_forceStrict c"
  by (simp_all add: WithFallback_def WithFallbackDialer_def WithStrict_def WithReadyTimeout_def
      WithMiddleware_def WithEventHandler_def)

text \<open>The options the package exports, as one predicate.\<close>

inductive registry_option :: "('x config \<Rightarrow> 'x config) \<Rightarrow> bool" where
  opt_fallback: "registry_option (WithFallback plain d)"
| opt_fallback_dialer: "registry_option (WithFallbackDialer plain d)"
| opt_strict: "registry_option WithStrict"
| opt_timeout: "registry_option (WithReadyTimeout t)"
| opt_middleware: "registry_option (WithMiddleware mw)"
| opt_handler: "registry_option (WithEventHandler h)"

lemma registry_option_keeps_strict:
  "registry_option opt \<Longrightarrow> c_forceStrict c \<Longrightarrow> c_forceStrict (opt c)"
  by (induction rule: registry_option.induct) auto

lemma strict_options:
  assumes "\<forall>opt \<in> set opts. registry_option opt" and "c_forceStrict c \<or> WithStrict \<in> set opts"
  shows "c_forceStrict (foldl (\<lambda>c opt. opt c) c opts)"
  using assms
proof (induction opts arbitrary: c)
  case (Cons opt opts)
  have opts: "\<forall>opt \<in> set opts. registry_option opt" using Cons.prems(1) by simp
  have "c_forceStrict (opt c) \<or> WithStrict \<in> set opts"
  proof (cases "WithStrict \<in> set opts")
    case False
    with Cons.prems have "c_forceStrict c \<or> opt = WithStrict" and "registry_option opt" by auto
    then show ?thesis by (auto dest: registry_option_keeps_strict)
  qed simp
  from Cons.IH [OF opts this] show ?case by simp
qed simp

lemma New_config_strict:
  assumes "\<forall>opt \<in> set opts. registry_option opt" and "WithStrict \<in> set opts"
  shows "c_fallback (New_config opts) = None"
  using strict_options [OF assms(1), of
      "\<lparr>c_fallback = None, c_forceStrict = False, c_readyTimeout = defaultReadyTimeout,
        c_middleware = [], c_handlers = []\<rparr>"] assms(2)
  by (simp add: New_config_def Let_def)

section \<open>Emitting events\<close>

text \<open>\<open>Registry.emit\<close>: every handler sees the event, stamped with the time when it has none.\<close>

definition emit :: "'x config \<Rightarrow> Event \<Rightarrow> 'x world \<Rightarrow> 'x world" where
  "emit cfg e w =
     (if c_handlers cfg = [] then w
      else let e' = (if ev_time e = None then e\<lparr>ev_time := Some (now w)\<rparr> else e)
           in foldl (\<lambda>w h. h e' w) w (c_handlers cfg))"

text \<open>The sink the registry hands to a backend at \<open>Add\<close>: it fills in a missing route name.\<close>

definition sink_emit :: "'x config \<Rightarrow> string \<Rightarrow> Event \<Rightarrow> 'x world \<Rightarrow> 'x world" where
  "sink_emit cfg name e w = emit cfg (if ev_route e = [] then e\<lparr>ev_route := name\<rparr> else e) w"

text \<open>A handler that appends what it sees to a log; the world's \<open>ext\<close> is that log.\<close>

definition log_handler :: "Event list handler" where
  "log_handler e w = w\<lparr>ext := ext w @ [e]\<rparr>"

lemma emit_no_handlers [simp]: "c_handlers cfg = [] \<Longrightarrow> emit cfg e w = w"
  by (simp add: emit_def)

section \<open>Properties\<close>

text \<open>\<open>WithStrict\<close> wins whatever the order of the options: a registry built with it among any exported
  options has no fallback dialer, even when a fallback is set after it.\<close>

theorem strict_beats_fallback:
  assumes "\<forall>opt \<in> set opts. registry_option opt" and "WithStrict \<in> set opts"
  shows "c_fallback (New_config opts) = None"
  by (rule New_config_strict [OF assms])

theorem strict_beats_fallback_witness:
  "c_fallback (New_config [WithStrict, WithFallback (\<lambda>ctx nw a w. (Inl (ErrNew ''x''), w)) None] :: unit config) = None"
  by (rule strict_beats_fallback) (auto intro: registry_option.intros)

end
