(* ===== verification/Http_Names.thy ===== *)
theory Http_Names
  imports Errors
begin

text \<open>
  The string functions of \<open>http.go\<close>: \<open>allDigits\<close>, \<open>validateHostRewrite\<close>, and the URL builders. Go
  ranges over the runes of a string; no rune outside ASCII is a digit or one of the refused
  bytes, so ranging over bytes gives the same answers.
\<close>

definition allDigits :: "string \<Rightarrow> bool" where
  "allDigits s \<longleftrightarrow> list_all is_digit s \<and> s \<noteq> []"

definition bad_host_byte :: "char \<Rightarrow> bool" where
  "bad_host_byte c \<longleftrightarrow> byte c \<le> 32 \<or> byte c = 127 \<or> c \<in> set ''/?#@'' \<or> byte c = 92"

definition validateHostRewrite :: "string \<Rightarrow> goerr option" where
  "validateHostRewrite h =
     (if h = [] then None
      else case List.find bad_host_byte h of
        Some c \<Rightarrow> Some (Errorf ''host rewrite %q contains invalid host byte %q'' [h, [c]] [])
      | None \<Rightarrow>
          if CHR '':'' \<in> set h \<and> \<not> ParseIP_ok h
          then Some (Errorf ''host rewrite %q must be a bare host without a port'' [h] [])
          else None)"

lemma validateHostRewrite_ok_iff:
  "validateHostRewrite h = None \<longleftrightarrow>
     h = [] \<or> (list_all (\<lambda>c. \<not> bad_host_byte c) h \<and> (CHR '':'' \<in> set h \<longrightarrow> ParseIP_ok h))"
  by (auto simp: validateHostRewrite_def find_None_iff list_all_iff split: option.splits)
     (metis find_Some_iff nth_mem)+

definition buildURL :: "string \<Rightarrow> string \<Rightarrow> int \<Rightarrow> int \<Rightarrow> string \<Rightarrow> string" where
  "buildURL scheme name port defaultPort pathAndQuery =
     (let hostport = (if port \<noteq> 0 \<and> port \<noteq> defaultPort then JoinHostPort name (itoa port) else name);
          path = (if pathAndQuery \<noteq> [] \<and> \<not> has_prefix pathAndQuery ''/''
                  then ''/'' @ pathAndQuery else pathAndQuery)
      in scheme @ ''://'' @ hostport @ path)"

definition URL :: "string \<Rightarrow> int \<Rightarrow> string \<Rightarrow> string" where
  "URL name port pathAndQuery = buildURL ''http'' name port 80 pathAndQuery"

definition WSURL :: "string \<Rightarrow> int \<Rightarrow> string \<Rightarrow> string" where
  "WSURL name port pathAndQuery = buildURL ''ws'' name port 80 pathAndQuery"

text \<open>The bytes a rewrite accepted by \<open>validateHostRewrite\<close> can bring into a Host header.\<close>

lemma digit_not_bad: "is_digit c \<Longrightarrow> \<not> bad_host_byte c"
  by (auto simp: is_digit_def bad_host_byte_def byte_def)

lemma bracket_not_bad [simp]:
  "\<not> bad_host_byte (CHR '':'')" "\<not> bad_host_byte (CHR ''['')" "\<not> bad_host_byte (CHR '']'')"
  by (auto simp: bad_host_byte_def byte_def)

lemma JoinHostPort_safe:
  assumes "list_all (\<lambda>c. \<not> bad_host_byte c) h" and "allDigits p"
  shows "list_all (\<lambda>c. \<not> bad_host_byte c) (JoinHostPort h p)"
  using assms by (auto simp: JoinHostPort_def allDigits_def list_all_iff digit_not_bad)

end
