(* ===== verification/Route.thy ===== *)
theory Route
  imports Options Http_Names
begin

text \<open>
  \<open>route.go\<close> and the composition part of \<open>middleware.go\<close>: how a route's dial function is compiled
  from its backend, its port map and two lists of middleware, and the small accessors on routes.
\<close>

named_theorems go_route "rules of compiled dial chains"

section \<open>middleware.go\<close>

definition hostOf :: "string \<Rightarrow> string" where
  "hostOf address = (case SplitHostPort address of Some (host, _) \<Rightarrow> host | None \<Rightarrow> address)"

definition ConnWrapper :: "(string \<Rightarrow> conn \<Rightarrow> conn) \<Rightarrow> 'x middleware" where
  "ConnWrapper wrap next ctx network address w =
     (case next ctx network address w of
        (Inl err, w') \<Rightarrow> (Inl err, w')
      | (Inr conn, w') \<Rightarrow> (Inr (wrap (hostOf address) conn), w'))"

text \<open>The loop from the last middleware to the first: \<open>mws[0]\<close> ends up outermost.\<close>

fun chain_rev :: "'x dialfn \<Rightarrow> 'x middleware list \<Rightarrow> 'x dialfn" where
  "chain_rev base [] = base"
| "chain_rev base (m # ms) = chain_rev (m base) ms"

definition chain :: "'x dialfn \<Rightarrow> 'x middleware list \<Rightarrow> 'x dialfn" where
  "chain base mws = chain_rev base (rev mws)"

lemma chain_rev_append: "chain_rev base (xs @ ys) = chain_rev (chain_rev base xs) ys"
  by (induction xs arbitrary: base) auto

lemma chain_Nil [simp, go_route]: "chain base [] = base"
  by (simp add: chain_def)

lemma chain_Cons [simp, go_route]: "chain base (m # ms) = m (chain base ms)"
  by (simp add: chain_def chain_rev_append)

lemma chain_append: "chain base (xs @ ys) = chain (chain base ys) xs"
  by (induction xs) auto

section \<open>The port map\<close>

text \<open>
  The dial function \<open>buildDial\<close> puts in front of the backend when the port map is not empty. The
  map is an association list in the order Go's \<open>range\<close> happens to visit it.
\<close>

definition port_mapped :: "string \<Rightarrow> (int \<times> int) list \<Rightarrow> 'x dialfn \<Rightarrow> 'x dialfn" where
  "port_mapped name portMap backendDial ctx network address w =
     (case SplitHostPort address of
        None \<Rightarrow> (Inl (Errorf ''portless: route %q: address %q has no port to map'' [name, address] []), w)
      | Some (host, portStr) \<Rightarrow>
          (case atoi portStr of
             None \<Rightarrow> (Inl (Errorf ''portless: route %q: bad port in %q: %w'' [name, address]
                            [ErrNew ''strconv.Atoi: parsing error'']), w)
           | Some port \<Rightarrow>
               (case map_of portMap port of
                  None \<Rightarrow> (Inl (Errorf ''portless: route %q: port %d not in port map''
                                [name, itoa port] []), w)
                | Some mapped \<Rightarrow> backendDial ctx network (JoinHostPort host (itoa mapped)) w)))"

record 'x Route =
  rt_name :: string
  rt_backend :: "'x Backend"
  rt_cfg :: "'x routeConfig"
  rt_dial :: "'x dialfn"

definition buildDial :: "string \<Rightarrow> 'x Backend \<Rightarrow> 'x routeConfig \<Rightarrow> 'x middleware list \<Rightarrow> 'x dialfn" where
  "buildDial name b rcfg registryMW =
     (let base = (if rc_portMap rcfg \<noteq> [] then port_mapped name (rc_portMap rcfg) (bk_dial b)
                  else bk_dial b)
      in chain base (registryMW @ rc_middleware rcfg))"

definition make_route :: "string \<Rightarrow> 'x Backend \<Rightarrow> 'x routeConfig \<Rightarrow> 'x middleware list \<Rightarrow> 'x Route" where
  "make_route name b rcfg registryMW =
     \<lparr>rt_name = name, rt_backend = b, rt_cfg = rcfg, rt_dial = buildDial name b rcfg registryMW\<rparr>"

lemma make_route_simps [simp, go_route]:
  "rt_name (make_route name b rcfg mw) = name"
  "rt_backend (make_route name b rcfg mw) = b"
  "rt_cfg (make_route name b rcfg mw) = rcfg"
  "rt_dial (make_route name b rcfg mw) = buildDial name b rcfg mw"
  by (simp_all add: make_route_def)

lemma buildDial_layers:
  "buildDial name b rcfg mw =
     chain (chain (if rc_portMap rcfg \<noteq> [] then port_mapped name (rc_portMap rcfg) (bk_dial b)
                   else bk_dial b) (rc_middleware rcfg)) mw"
  by (simp add: buildDial_def Let_def chain_append)

lemma port_mapped_hit:
  assumes "map_of pm port = Some mapped" and "- (2 ^ 63) \<le> port" "port < 2 ^ 63"
    and "CHR ''['' \<notin> set host" "CHR '']'' \<notin> set host"
  shows "port_mapped name pm d ctx nw (JoinHostPort host (itoa port)) w =
         d ctx nw (JoinHostPort host (itoa mapped)) w"
  using assms by (simp add: port_mapped_def SplitHostPort_JoinHostPort_itoa atoi_itoa)

lemma port_mapped_miss:
  assumes "\<nexists>host portStr port. SplitHostPort address = Some (host, portStr) \<and>
      atoi portStr = Some port \<and> map_of pm port \<noteq> None"
  shows "\<exists>err. port_mapped name pm d ctx nw address w = (Inl err, w) \<and> \<not> IsRetryable (Some err)"
  using assms by (auto simp: port_mapped_def split: option.splits)

section \<open>Accessors\<close>

definition Route_HostRewrite :: "'x Route \<Rightarrow> string \<times> bool" where
  "Route_HostRewrite rt = (rc_hostRewrite (rt_cfg rt), rc_hostRewrite (rt_cfg rt) \<noteq> [])"

definition isTypedNil :: "goaddr \<Rightarrow> bool" where
  "isTypedNil a = (case a of TypedNil \<Rightarrow> True | NetAddr n s \<Rightarrow> False)"

definition Route_Addr :: "'x Route \<Rightarrow> 'x world \<Rightarrow> goaddr option \<times> bool" where
  "Route_Addr rt w = (case bk_addr (rt_backend rt) of
      None \<Rightarrow> (None, False)
    | Some addr_of \<Rightarrow> (case addr_of w of
          None \<Rightarrow> (None, False)
        | Some a \<Rightarrow> if isTypedNil a then (None, False) else (Some a, True)))"

lemma Route_Addr_ok: "Route_Addr rt w = (a, True) \<Longrightarrow> \<exists>n s. a = Some (NetAddr n s)"
  by (auto simp: Route_Addr_def isTypedNil_def dest: sym split: option.splits goaddr.splits if_splits)

text \<open>\<open>bridgeDialPort\<close> and the port \<open>Ready\<close> dials.\<close>

definition bridgeDialPort :: "'x Route \<Rightarrow> goerr + int" where
  "bridgeDialPort rt = (case rc_portMap (rt_cfg rt) of
      [] \<Rightarrow> Inr 0
    | [(p, _)] \<Rightarrow> Inr p
    | pm \<Rightarrow> Inl (Errorf ''route has %d mapped ports; bridge one route per port''
                 [itoa (int (length pm))] []))"

definition ready_port :: "'x Route \<Rightarrow> int" where
  "ready_port rt = (case rc_portMap (rt_cfg rt) of [] \<Rightarrow> 0 | (reqPort, _) # _ \<Rightarrow> reqPort)"

lemma ready_port_mapped:
  "rc_portMap (rt_cfg rt) \<noteq> [] \<Longrightarrow> map_of (rc_portMap (rt_cfg rt)) (ready_port rt) \<noteq> None"
  by (auto simp: ready_port_def split: list.splits)

lemma bridgeDialPort_mapped:
  "bridgeDialPort rt = Inr p \<Longrightarrow>
   (rc_portMap (rt_cfg rt) = [] \<and> p = 0) \<or> map_of (rc_portMap (rt_cfg rt)) p \<noteq> None"
  by (auto simp: bridgeDialPort_def split: list.splits prod.splits)

section \<open>Properties\<close>

text \<open>The middleware order of a compiled route: the first registry middleware is outermost, the route's
  own follow, and the port map sits innermost, right in front of the backend.\<close>

theorem middleware_order:
  "buildDial name b rcfg (m # ms) = m (buildDial name b rcfg ms) \<and>
   buildDial name b (rcfg\<lparr>rc_middleware := m # rs\<rparr>) [] = m (buildDial name b (rcfg\<lparr>rc_middleware := rs\<rparr>) []) \<and>
   buildDial name b (rcfg\<lparr>rc_middleware := []\<rparr>) [] =
     (if rc_portMap rcfg = [] then bk_dial b else port_mapped name (rc_portMap rcfg) (bk_dial b))"
  by (simp add: buildDial_def Let_def)

text \<open>The port map: a dial of \<open>host:p\<close> with \<open>p\<close> in the map reaches the backend at the mapped port of the
  same host; any other address fails without touching the backend, with an error the dial loop does not
  retry.\<close>

theorem port_map_routes_dials:
  assumes "- (2 ^ 63) \<le> port" "port < 2 ^ 63" and "CHR ''['' \<notin> set host" "CHR '']'' \<notin> set host"
  shows "case map_of pm port of
      Some mapped \<Rightarrow> port_mapped name pm d ctx nw (JoinHostPort host (itoa port)) w =
        d ctx nw (JoinHostPort host (itoa mapped)) w
    | None \<Rightarrow> \<exists>err. port_mapped name pm d ctx nw (JoinHostPort host (itoa port)) w = (Inl err, w) \<and>
        \<not> IsRetryable (Some err)"
proof (cases "map_of pm port")
  case None
  have "\<exists>err. port_mapped name pm d ctx nw (JoinHostPort host (itoa port)) w = (Inl err, w) \<and>
      \<not> IsRetryable (Some err)"
    using None assms
    by (intro port_mapped_miss) (auto simp: SplitHostPort_JoinHostPort_itoa atoi_itoa)
  then show ?thesis by (simp add: None)
qed (use assms in \<open>simp add: port_mapped_hit\<close>)

theorem port_map_routes_dials_witness:
  "port_mapped ''api'' [(80, 8080)] (\<lambda>ctx nw a w. (Inl (ErrNew a), w)) Background ''tcp''
     (JoinHostPort ''api'' (itoa 80)) \<lparr>now = 0, rnd = [], closed_conns = [], closed_listeners = [], done_at = None, ext = ()\<rparr> =
   (Inl (ErrNew (JoinHostPort ''api'' (itoa 8080))),
    \<lparr>now = 0, rnd = [], closed_conns = [], closed_listeners = [], done_at = None, ext = ()\<rparr>)"
  using port_map_routes_dials [where port = 80 and host = "''api''" and pm = "[(80, 8080)]"] by simp

text \<open>The ports the library picks by itself are ports the route can be dialed at: for a route with a port
  map, the address \<open>Ready\<close> dials and the port a bridge forwards to are both in the map.\<close>

theorem picked_ports_are_mapped:
  "(rc_portMap (rt_cfg rt) \<noteq> [] \<longrightarrow> map_of (rc_portMap (rt_cfg rt)) (ready_port rt) \<noteq> None) \<and>
   (case bridgeDialPort rt of
      Inr p \<Rightarrow> (rc_portMap (rt_cfg rt) = [] \<and> p = 0) \<or> map_of (rc_portMap (rt_cfg rt)) p \<noteq> None
    | Inl e \<Rightarrow> 2 \<le> length (rc_portMap (rt_cfg rt)))"
  using ready_port_mapped [of rt] bridgeDialPort_mapped [of rt]
  by (auto simp: bridgeDialPort_def split: list.splits)

theorem picked_ports_are_mapped_witness:
  "ready_port (make_route ''api'' (simple_backend 1 (\<lambda>ctx nw a w. (Inl (ErrNew a), w)))
      ((route_config (New_config []) [])\<lparr>rc_portMap := [(80, 8080)]\<rparr>) []) \<in> {80}"
proof -
  let ?rt = "make_route ''api'' (simple_backend 1 (\<lambda>ctx nw a w. (Inl (ErrNew a), w)))
      ((route_config (New_config []) [])\<lparr>rc_portMap := [(80, 8080)]\<rparr>) []"
  have "rc_portMap (rt_cfg ?rt) = [(80, 8080)]" by simp
  with picked_ports_are_mapped [of ?rt] show ?thesis by (simp split: if_splits)
qed

end
