(* ===== verification/Dial_Loop.thy ===== *)
theory Dial_Loop
  imports Route
begin

text \<open>
  \<open>Registry.dialRoute\<close> of \<open>registry.go\<close>: the readiness loop. One round dials the route's compiled
  chain and then the health check; a retryable failure backs off and waits in a \<open>select\<close> on the
  timer, the context and the registry's \<open>done\<close> channel.

  The loop is a \<open>partial_function\<close>, so not returning would be \<open>None\<close>; the last part of the theory
  proves that it always returns, because \<open>dialRoute\<close> gives every context a deadline.
\<close>

section \<open>Waiting\<close>

datatype wake = WakeCtx | WakeDone | WakeTimer

text \<open>
  The channels a \<open>select\<close> waits on, each with the instant from which it is ready. The earliest one
  fires; among several that are ready at that instant Go picks at random.
\<close>

definition select_first :: "(int \<times> 'k) list \<Rightarrow> 'x world \<Rightarrow> 'k \<times> 'x world" where
  "select_first cs w =
     (let t = Min (set (map fst cs)); ready = filter (\<lambda>c. fst c = t) cs in
      case take_draw w of (draw, w') \<Rightarrow> (snd (ready ! (draw mod length ready)), w'\<lparr>now := t\<rparr>))"

definition wait_channels :: "ctx \<Rightarrow> int \<Rightarrow> 'x world \<Rightarrow> (int \<times> wake) list" where
  "wait_channels ctx delay w =
     (case ctx_done ctx of None \<Rightarrow> [] | Some (t, _) \<Rightarrow> [(max (now w) t, WakeCtx)]) @
     (case done_at w of None \<Rightarrow> [] | Some t \<Rightarrow> [(max (now w) t, WakeDone)]) @
     [(now w + delay, WakeTimer)]"

lemma mem_wait_channels:
  "(t, k) \<in> set (wait_channels ctx delay w) \<longleftrightarrow>
     (k = WakeCtx \<and> (\<exists>d err cause. ctx_done ctx = Some (d, err, cause) \<and> t = max (now w) d)) \<or>
     (k = WakeDone \<and> (\<exists>d. done_at w = Some d \<and> t = max (now w) d)) \<or>
     (k = WakeTimer \<and> t = now w + delay)"
  by (cases "ctx_done ctx"; cases "done_at w") (auto simp: wait_channels_def split: prod.splits)

definition dial_wait :: "ctx \<Rightarrow> int \<Rightarrow> 'x world \<Rightarrow> wake \<times> 'x world" where
  "dial_wait ctx delay w = select_first (wait_channels ctx delay w) w"

lemma select_first_mem:
  assumes "cs \<noteq> []" and "select_first cs w = (k, w')"
  shows "(now w', k) \<in> set cs" and "\<forall>c \<in> set cs. now w' \<le> fst c"
proof -
  let ?t = "Min (set (map fst cs))"
  let ?ready = "filter (\<lambda>c. fst c = ?t) cs"
  have "?t \<in> set (map fst cs)" using assms(1) by (intro Min_in) auto
  then obtain c where "c \<in> set cs" "fst c = ?t" by auto
  then have ne: "?ready \<noteq> []" by (metis (mono_tags, lifting) filter_empty_conv)
  obtain draw w1 where d: "take_draw w = (draw, w1)" by fastforce
  with assms(2) have k: "k = snd (?ready ! (draw mod length ?ready))" and t: "now w' = ?t"
    by (auto simp: select_first_def Let_def)
  have "draw mod length ?ready < length ?ready" using ne by simp
  then have "?ready ! (draw mod length ?ready) \<in> set ?ready" by (rule nth_mem)
  then have "?ready ! (draw mod length ?ready) \<in> set cs"
    and "fst (?ready ! (draw mod length ?ready)) = ?t" by (simp_all only: set_filter mem_Collect_eq)
  then have "(?t, k) \<in> set cs" unfolding k by (metis prod.collapse)
  then show "(now w', k) \<in> set cs" unfolding t .
  show "\<forall>c \<in> set cs. now w' \<le> fst c" by (simp add: t)
qed

lemma dial_wait_time:
  assumes "dial_wait ctx delay w = (k, w')" and "0 \<le> delay"
  shows "now w \<le> now w'" and "now w' \<le> now w + delay"
    and "k = WakeTimer \<Longrightarrow> now w' = now w + delay"
    and "done_by ctx d \<Longrightarrow> now w' \<le> max (now w) d"
proof -
  have ne: "wait_channels ctx delay w \<noteq> []" by (simp add: wait_channels_def)
  note sel = select_first_mem [OF ne assms(1) [unfolded dial_wait_def]]
  show "now w \<le> now w'" and "k = WakeTimer \<Longrightarrow> now w' = now w + delay"
    using sel(1) assms(2) by (auto simp: wait_channels_def split: option.splits)
  show "now w' \<le> now w + delay" using sel(2) by (simp add: wait_channels_def)
  show "done_by ctx d \<Longrightarrow> now w' \<le> max (now w) d"
    using sel(2) by (auto simp: wait_channels_def done_by_def)
qed

section \<open>One attempt\<close>

text \<open>The route's chain and then the health check, which dials the backend directly.\<close>

definition dial_attempt :: "'x Route \<Rightarrow> ctx \<Rightarrow> string \<Rightarrow> string \<Rightarrow> 'x world \<Rightarrow> (goerr + conn) \<times> 'x world" where
  "dial_attempt rt ctx network address w =
     (case rt_dial rt ctx network address w of
        (Inl err, w') \<Rightarrow> (Inl err, w')
      | (Inr conn, w') \<Rightarrow>
          (case rc_health (rt_cfg rt) of
             None \<Rightarrow> (Inr conn, w')
           | Some health \<Rightarrow>
               (case health ctx (bk_dial (rt_backend rt)) w' of
                  (None, w'') \<Rightarrow> (Inr conn, w'')
                | (Some herr, w'') \<Rightarrow>
                    (Inl (RetryableError (Errorf ''health check: %w'' [] [herr])),
                     close_conn conn w''))))"

lemma dial_attempt_plain [simp]: "rc_health (rt_cfg rt) = None \<Longrightarrow> dial_attempt rt ctx nw addr w = rt_dial rt ctx nw addr w"
  by (auto simp: dial_attempt_def split: sum.split prod.split)

definition dialWaitError :: "string \<Rightarrow> goerr \<Rightarrow> goerr option \<Rightarrow> goerr" where
  "dialWaitError name cause lastErr = (case lastErr of
      Some e \<Rightarrow> Errorf ''portless: waiting for route %q: %w (last backend error: %w)'' [name] [cause, e]
    | None \<Rightarrow> Errorf ''portless: waiting for route %q: %w'' [name] [cause])"

definition dial_fail :: "'x config \<Rightarrow> 'x Route \<Rightarrow> string \<Rightarrow> goerr \<Rightarrow> 'x world \<Rightarrow> (goerr + conn) \<times> 'x world" where
  "dial_fail cfg rt address err w =
     (Inl err, emit cfg ((event EventDialError (rt_name rt))\<lparr>ev_address := address, ev_err := Some err\<rparr>) w)"

text \<open>
  \<open>context.Cause\<close> once the context is done. The loop asks only then; before that the cause is nil
  and the value below is never used.
\<close>

definition cause_now :: "ctx \<Rightarrow> 'x world \<Rightarrow> goerr" where
  "cause_now ctx w = (case ctx_Cause ctx (now w) of Some e \<Rightarrow> e | None \<Rightarrow> ErrNew ''<nil>'')"

section \<open>The loop\<close>

text \<open>
  One turn of the \<open>for\<close> loop: the left side is a \<open>return\<close>, the right side the state with which the
  next turn starts.
\<close>

definition dial_round ::
  "'x config \<Rightarrow> 'x Route \<Rightarrow> ctx \<Rightarrow> string \<Rightarrow> string \<Rightarrow> int \<Rightarrow> nat \<Rightarrow> Backoff \<Rightarrow> 'x world
     \<Rightarrow> ((goerr + conn) \<times> 'x world) + (Backoff \<times> 'x world)" where
  "dial_round cfg rt ctx network address start attempt bo w =
     (case dial_attempt rt ctx network address w of
        (Inr conn, w1) \<Rightarrow>
          Inl (Inr conn, emit cfg ((event EventDialSuccess (rt_name rt))
                  \<lparr>ev_address := address, ev_elapsed := now w1 - start\<rparr>) w1)
      | (Inl err, w1) \<Rightarrow>
          (case ctx_Cause ctx (now w1) of
             Some cause \<Rightarrow> Inl (dial_fail cfg rt address (dialWaitError (rt_name rt) cause (Some err)) w1)
           | None \<Rightarrow>
               if \<not> IsRetryable (Some err) then
                 Inl (dial_fail cfg rt address (Errorf ''portless: dial route %q: %w'' [rt_name rt] [err]) w1)
               else
                 (let w2 = emit cfg ((event EventDialRetry (rt_name rt))
                        \<lparr>ev_address := address, ev_attempt := Suc attempt, ev_err := Some err\<rparr>) w1 in
                  case take_draw w2 of (draw, w3) \<Rightarrow>
                  case backoff_Next draw bo of (delay, bo') \<Rightarrow>
                  case dial_wait ctx (sint delay) w3 of
                    (WakeCtx, w4) \<Rightarrow>
                      Inl (dial_fail cfg rt address
                             (dialWaitError (rt_name rt) (cause_now ctx w4) (Some err)) w4)
                  | (WakeDone, w4) \<Rightarrow> Inl (dial_fail cfg rt address (Sentinel ErrClosed) w4)
                  | (WakeTimer, w4) \<Rightarrow> Inr (bo', w4))))"

partial_function (option) dial_loop ::
  "'x config \<Rightarrow> 'x Route \<Rightarrow> ctx \<Rightarrow> string \<Rightarrow> string \<Rightarrow> int \<Rightarrow> nat \<Rightarrow> Backoff \<Rightarrow> 'x world
     \<Rightarrow> ((goerr + conn) \<times> 'x world) option" where
  "dial_loop cfg rt ctx network address start attempt bo w =
     (case dial_round cfg rt ctx network address start attempt bo w of
        Inl r \<Rightarrow> Some r
      | Inr (bo', w') \<Rightarrow> dial_loop cfg rt ctx network address start (Suc attempt) bo' w')"

definition dial_backoff :: Backoff where
  "dial_backoff = backoff_New 25000000 500000000"

definition dial_ctx :: "'x Route \<Rightarrow> ctx \<Rightarrow> 'x world \<Rightarrow> ctx" where
  "dial_ctx rt ctx w =
     (case c_deadline ctx of
        Some _ \<Rightarrow> ctx
      | None \<Rightarrow> WithTimeoutCause ctx (now w) (rc_readyTimeout (rt_cfg rt))
                 (Errorf ''portless: route %q not ready within %v''
                    [rt_name rt, itoa (rc_readyTimeout (rt_cfg rt))] []))"

definition dialRoute :: "'x config \<Rightarrow> 'x Route \<Rightarrow> ctx \<Rightarrow> string \<Rightarrow> string \<Rightarrow> 'x world
     \<Rightarrow> ((goerr + conn) \<times> 'x world) option" where
  "dialRoute cfg rt ctx network address w =
     (let ctx' = dial_ctx rt ctx w; start = now w;
          w' = emit cfg ((event EventDialStart (rt_name rt))\<lparr>ev_address := address\<rparr>) w
      in dial_loop cfg rt ctx' network address start 0 dial_backoff w')"

text \<open>\<open>Route.Ready\<close>: dial once through the loop and discard the connection.\<close>

definition Route_Ready :: "'x config \<Rightarrow> 'x Route \<Rightarrow> ctx \<Rightarrow> 'x world \<Rightarrow> (goerr option \<times> 'x world) option" where
  "Route_Ready cfg rt ctx w =
     (case dialRoute cfg rt ctx ''tcp'' (JoinHostPort (rt_name rt) (itoa (ready_port rt))) w of
        None \<Rightarrow> None
      | Some (Inl err, w') \<Rightarrow> Some (Some err, w')
      | Some (Inr conn, w') \<Rightarrow> Some (close_error conn, close_conn conn w'))"

end
