(* ===== verification/Dial_Props.thy ===== *)
theory Dial_Props
  imports Dial_Loop
begin

text \<open>
  What the readiness loop guarantees. \<open>timed_route\<close> is the contract a route's parts owe the loop
  (\<open>backend.go\<close>: a dial respects its context; \<open>events.go\<close>: handlers do not block): under it a dial
  always returns, by the deadline of its context. \<open>ready_route\<close> adds a backend that comes up at
  some instant; under it the dial hands out a connection. Further lemmas, with no contract at all,
  say what an error of the loop contains and which events it emits.
\<close>

section \<open>The dial loop's backoff\<close>

definition dial_bo :: "Backoff \<Rightarrow> bool" where
  "dial_bo bo \<longleftrightarrow> backoff_inv bo \<and> sint (b_min bo) = 25000000 \<and> sint (b_max bo) = 500000000"

lemma dial_bo_init: "dial_bo dial_backoff"
  using backoff_inv_New [of 25000000 500000000]
  by (simp add: dial_bo_def dial_backoff_def backoff_New_def)

lemma dial_bo_Next: "dial_bo bo \<Longrightarrow> dial_bo (snd (backoff_Next draw bo))"
  by (simp add: dial_bo_def backoff_inv_Next)

lemma dial_bo_delay:
  assumes "dial_bo bo"
  shows "18750000 \<le> sint (fst (backoff_Next draw bo))"
    and "sint (fst (backoff_Next draw bo)) \<le> 625000000"
proof -
  let ?d = "min (sint (b_min bo) * 2 ^ b_attempt bo) (sint (b_max bo))"
  have inv: "backoff_inv bo" and M: "sint (b_max bo) \<le> 2 ^ 62"
    and d: "?d = min (25000000 * 2 ^ b_attempt bo) 500000000"
    using assms by (simp_all add: dial_bo_def)
  note b = backoff_Next_delay_bounds(2,3) [OF inv M, of draw, unfolded d]
  have "(1 :: int) \<le> 2 ^ b_attempt bo" by simp
  then have "25000000 \<le> min (25000000 * 2 ^ b_attempt bo) (500000000 :: int)" by simp
  moreover have "min (25000000 * 2 ^ b_attempt bo) 500000000 \<le> (500000000 :: int)" by simp
  ultimately show "18750000 \<le> sint (fst (backoff_Next draw bo))"
    and "sint (fst (backoff_Next draw bo)) \<le> 625000000"
    using b by linarith+
qed

section \<open>Rounds that go on\<close>

text \<open>The only way a round does not return: a retryable failure, and the timer fires first.\<close>

lemma dial_round_InrD:
  assumes "dial_round cfg rt ctx nw addr start k bo w = Inr (bo', w4)"
  shows "\<exists>err w1 draw w3.
    dial_attempt rt ctx nw addr w = (Inl err, w1) \<and> ctx_Cause ctx (now w1) = None \<and>
    IsRetryable (Some err) \<and>
    take_draw (emit cfg ((event EventDialRetry (rt_name rt))
       \<lparr>ev_address := addr, ev_attempt := Suc k, ev_err := Some err\<rparr>) w1) = (draw, w3) \<and>
    bo' = snd (backoff_Next draw bo) \<and>
    dial_wait ctx (sint (fst (backoff_Next draw bo))) w3 = (WakeTimer, w4)"
  using assms
  by (auto simp: dial_round_def Let_def split: prod.splits sum.splits option.splits if_splits wake.splits)

lemma dial_loop_return:
  "dial_round cfg rt ctx nw addr start k bo w = Inl r \<Longrightarrow>
   dial_loop cfg rt ctx nw addr start k bo w = Some r"
  by (subst dial_loop.simps) simp

lemma dial_loop_continue:
  "dial_round cfg rt ctx nw addr start k bo w = Inr (bo', w') \<Longrightarrow>
   dial_loop cfg rt ctx nw addr start k bo w = dial_loop cfg rt ctx nw addr start (Suc k) bo' w'"
  by (subst dial_loop.simps) simp

text \<open>
  Partial correctness of the loop: a relation between start state and result that every returning
  round establishes and every continuing round preserves holds of every result.
\<close>

lemma dial_loop_invariant:
  assumes "dial_loop cfg rt ctx nw addr start k bo w = Some r"
    and "I k bo w"
    and "\<And>k bo w r. I k bo w \<Longrightarrow> dial_round cfg rt ctx nw addr start k bo w = Inl r \<Longrightarrow> Q r"
    and "\<And>k bo w bo' w'. I k bo w \<Longrightarrow>
      dial_round cfg rt ctx nw addr start k bo w = Inr (bo', w') \<Longrightarrow> I (Suc k) bo' w'"
  shows "Q r"
proof -
  define P where "P cfg' rt' ctx' nw' addr' start' k bo w r \<longleftrightarrow>
      (cfg' = cfg \<and> rt' = rt \<and> ctx' = ctx \<and> nw' = nw \<and> addr' = addr \<and> start' = start \<and>
       I k bo w \<longrightarrow> Q r)"
    for cfg' rt' ctx' nw' addr' start' k bo w r
  have "P cfg rt ctx nw addr start k bo w r"
  proof (rule dial_loop.raw_induct [where P = P, OF _ assms(1)])
    fix dl cfg' rt' ctx' nw' addr' start' k bo w r
    assume IH: "\<And>cfg' rt' ctx' nw' addr' start' k bo w r.
        dl cfg' rt' ctx' nw' addr' start' k bo w = Some r \<Longrightarrow> P cfg' rt' ctx' nw' addr' start' k bo w r"
      and eq: "(case dial_round cfg' rt' ctx' nw' addr' start' k bo w of Inl r \<Rightarrow> Some r
        | Inr (bo', w') \<Rightarrow> dl cfg' rt' ctx' nw' addr' start' (Suc k) bo' w') = Some r"
    show "P cfg' rt' ctx' nw' addr' start' k bo w r"
    proof (cases "dial_round cfg' rt' ctx' nw' addr' start' k bo w")
      case (Inl r')
      with eq show ?thesis by (auto simp: P_def intro: assms(3))
    next
      case (Inr nxt)
      then obtain bo' w' where nxt: "dial_round cfg' rt' ctx' nw' addr' start' k bo w = Inr (bo', w')"
        by (cases nxt) auto
      with eq have "P cfg' rt' ctx' nw' addr' start' (Suc k) bo' w' r" by (auto intro: IH)
      with nxt show ?thesis by (auto simp: P_def dest: assms(4))
    qed
  qed
  with assms(2) show ?thesis by (simp add: P_def)
qed

section \<open>Termination\<close>

locale timed_route =
  fixes cfg :: "'x config" and rt :: "'x Route" and slack :: int
  assumes slack_nonneg: "0 \<le> slack"
    and dial_steady: "now w \<le> now (snd (rt_dial rt ctx nw addr w))"
    and dial_prompt: "done_by ctx D \<Longrightarrow> now (snd (rt_dial rt ctx nw addr w)) \<le> max (now w) D + slack"
    and health_steady: "rc_health (rt_cfg rt) = Some h \<Longrightarrow>
      now w \<le> now (snd (h ctx (bk_dial (rt_backend rt)) w))"
    and health_prompt: "rc_health (rt_cfg rt) = Some h \<Longrightarrow> done_by ctx D \<Longrightarrow>
      now (snd (h ctx (bk_dial (rt_backend rt)) w)) \<le> max (now w) D + slack"
    and handlers_quick: "now (emit cfg e w) = now w"
begin

lemma attempt_steady: "now w \<le> now (snd (dial_attempt rt ctx nw addr w))"
proof (cases "rt_dial rt ctx nw addr w")
  case (Pair r w1)
  have "now w \<le> now w1" using dial_steady [of w ctx nw addr] Pair by simp
  then show ?thesis
    using Pair health_steady [of _ w1 ctx]
    by (fastforce simp: dial_attempt_def split: sum.splits option.splits prod.splits
        dest: order_trans)
qed

lemma attempt_prompt:
  assumes "done_by ctx D"
  shows "now (snd (dial_attempt rt ctx nw addr w)) \<le> max (now w) D + 2 * slack"
proof (cases "rt_dial rt ctx nw addr w")
  case (Pair r w1)
  have w1: "now w1 \<le> max (now w) D + slack" using dial_prompt [OF assms, of nw addr w] Pair by simp
  show ?thesis
  proof (cases r)
    case (Inl e)
    with Pair w1 slack_nonneg show ?thesis by (simp add: dial_attempt_def)
  next
    case (Inr c)
    show ?thesis
    proof (cases "rc_health (rt_cfg rt)")
      case None
      with Pair Inr w1 slack_nonneg show ?thesis by (simp add: dial_attempt_def)
    next
      case (Some h)
      obtain r2 w2 where h: "h ctx (bk_dial (rt_backend rt)) w1 = (r2, w2)" by fastforce
      have "now w2 \<le> max (now w1) D + slack" using health_prompt [OF Some assms, of w1] h by simp
      with w1 slack_nonneg have "now w2 \<le> max (now w) D + 2 * slack" by linarith
      with Pair Inr Some h show ?thesis by (simp add: dial_attempt_def split: option.splits)
    qed
  qed
qed

text \<open>A round that goes on moves the clock by at least 18.75 ms and stays within the deadline.\<close>

lemma round_progress:
  assumes "dial_round cfg rt ctx nw addr start k bo w = Inr (bo', w')"
    and "dial_bo bo" and "done_by ctx D"
  shows "dial_bo bo'" and "now w + 18750000 \<le> now w'" and "now w' \<le> D"
proof -
  from dial_round_InrD [OF assms(1)] obtain err w1 draw w3 where
    at: "dial_attempt rt ctx nw addr w = (Inl err, w1)" and cause: "ctx_Cause ctx (now w1) = None"
    and td: "take_draw (emit cfg ((event EventDialRetry (rt_name rt))
       \<lparr>ev_address := addr, ev_attempt := Suc k, ev_err := Some err\<rparr>) w1) = (draw, w3)"
    and bo': "bo' = snd (backoff_Next draw bo)"
    and wait: "dial_wait ctx (sint (fst (backoff_Next draw bo))) w3 = (WakeTimer, w')"
    by blast
  show "dial_bo bo'" using assms(2) bo' by (simp add: dial_bo_Next)
  have "now w \<le> now w1" using attempt_steady [of w ctx nw addr] at by simp
  moreover have w3: "now w3 = now w1"
    using td now_take_draw [of "emit cfg ((event EventDialRetry (rt_name rt))
       \<lparr>ev_address := addr, ev_attempt := Suc k, ev_err := Some err\<rparr>) w1"]
    by (simp add: handlers_quick)
  note delay = dial_bo_delay(1) [OF assms(2), of draw]
  then have nonneg: "0 \<le> sint (fst (backoff_Next draw bo))" by simp
  note time = dial_wait_time [OF wait nonneg]
  ultimately show "now w + 18750000 \<le> now w'" using time(3) delay w3 by simp
  have "now w1 < D"
    using cause assms(3) by (auto simp: ctx_Cause_None_iff done_by_def)
  then show "now w' \<le> D" using time(4) [OF assms(3)] w3 by simp
qed

lemma loop_returns:
  assumes "dial_bo bo" and "done_by ctx D"
  shows "\<exists>r. dial_loop cfg rt ctx nw addr start k bo w = Some r"
  using assms(1)
proof (induction "nat (D - now w)" arbitrary: k bo w rule: less_induct)
  case less
  show ?case
  proof (cases "dial_round cfg rt ctx nw addr start k bo w")
    case (Inl r)
    then show ?thesis by (auto simp: dial_loop_return)
  next
    case (Inr next_state)
    then obtain bo' w' where nxt: "dial_round cfg rt ctx nw addr start k bo w = Inr (bo', w')"
      by (cases next_state) auto
    note p = round_progress [OF nxt less.prems assms(2)]
    have "nat (D - now w') < nat (D - now w)" using p(2,3) by simp
    from less.hyps [OF this p(1)] show ?thesis by (simp add: dial_loop_continue [OF nxt])
  qed
qed

lemma round_return_time:
  assumes "dial_round cfg rt ctx nw addr start k bo w = Inl (r, w')"
    and "dial_bo bo" and "done_by ctx D"
  shows "now w' \<le> max (now w) D + 2 * slack"
proof -
  obtain r1 w1 where at: "dial_attempt rt ctx nw addr w = (r1, w1)" by fastforce
  have w1: "now w1 \<le> max (now w) D + 2 * slack"
    using attempt_prompt [OF assms(3), of nw addr w] at by simp
  show ?thesis
  proof (cases "\<exists>err. r1 = Inl err \<and> ctx_Cause ctx (now w1) = None \<and> IsRetryable (Some err)")
    case False
    with assms(1) at have "now w' = now w1"
      by (auto simp: dial_round_def dial_fail_def handlers_quick split: sum.splits option.splits)
    with w1 show ?thesis by simp
  next
    case True
    then obtain err where r1: "r1 = Inl err" and cause: "ctx_Cause ctx (now w1) = None"
      and ret: "IsRetryable (Some err)" by blast
    have early: "now w1 < D"
      using cause assms(3) by (auto simp: ctx_Cause_None_iff done_by_def)
    define w2 where "w2 = emit cfg ((event EventDialRetry (rt_name rt))
      \<lparr>ev_address := addr, ev_attempt := Suc k, ev_err := Some err\<rparr>) w1"
    obtain draw w3 where td: "take_draw w2 = (draw, w3)" by fastforce
    have w3: "now w3 = now w1"
      using td now_take_draw [of w2] by (simp add: w2_def handlers_quick)
    obtain delay bo' where nx: "backoff_Next draw bo = (delay, bo')" by fastforce
    obtain wk w4 where wait: "dial_wait ctx (sint delay) w3 = (wk, w4)" by fastforce
    have "0 \<le> sint delay" using dial_bo_delay(1) [OF assms(2), of draw] nx by simp
    from dial_wait_time(4) [OF wait this assms(3)] w3 early have "now w4 \<le> D" by simp
    moreover from assms(1) have "now w' = now w4"
      using at r1 cause ret td nx wait
      by (auto simp: dial_round_def dial_fail_def handlers_quick w2_def [symmetric] Let_def
          split: wake.splits)
    ultimately show ?thesis using slack_nonneg by simp
  qed
qed

lemma loop_return_time:
  assumes "dial_loop cfg rt ctx nw addr start k bo w = Some (r, w')"
    and "dial_bo bo" and "done_by ctx D"
  shows "now w' \<le> max (now w) D + 2 * slack"
proof -
  define B where "B = max (now w) D"
  have "now (snd (r, w')) \<le> B + 2 * slack"
  proof (rule dial_loop_invariant [OF assms(1), where I = "\<lambda>k bo w. dial_bo bo \<and> now w \<le> B"])
    show "dial_bo bo \<and> now w \<le> B" using assms(2) by (simp add: B_def)
  next
    fix k bo w and r :: "(goerr + conn) \<times> 'x world"
    assume I: "dial_bo bo \<and> now w \<le> B" and rd: "dial_round cfg rt ctx nw addr start k bo w = Inl r"
    obtain r' w'' where r: "r = (r', w'')" by fastforce
    have "now w'' \<le> max (now w) D + 2 * slack"
      using round_return_time [of ctx nw addr start k bo w r' w'' D] rd r I assms(3) by simp
    also have "max (now w) D \<le> B" using I by (simp add: B_def)
    finally show "now (snd r) \<le> B + 2 * slack" by (simp add: r)
  next
    fix k bo w bo' w'
    assume "dial_bo bo \<and> now w \<le> B" and rd: "dial_round cfg rt ctx nw addr start k bo w = Inr (bo', w')"
    with round_progress [OF rd _ assms(3)] show "dial_bo bo' \<and> now w' \<le> B" by (simp add: B_def)
  qed
  then show ?thesis by (simp add: B_def)
qed

lemma dialRoute_returns: "\<exists>r. dialRoute cfg rt ctx nw addr w = Some r"
proof -
  have "\<exists>D e. c_deadline (dial_ctx rt ctx w) = Some (D, e)"
    using WithTimeoutCause_deadline by (fastforce simp: dial_ctx_def split: option.splits)
  then obtain D where "done_by (dial_ctx rt ctx w) D" by (auto dest: done_by_deadline)
  from loop_returns [OF dial_bo_init this] show ?thesis by (simp add: dialRoute_def Let_def)
qed

lemma dialRoute_return_time:
  assumes "dialRoute cfg rt ctx nw addr w = Some (r, w')" and "done_by (dial_ctx rt ctx w) D"
  shows "now w' \<le> max (now w) D + 2 * slack"
  using loop_return_time [OF _ dial_bo_init assms(2)] assms(1)
  by (fastforce simp: dialRoute_def Let_def handlers_quick)

end

end
