(* ===== verification/Dial_Live.thy ===== *)
theory Dial_Live
  imports Dial_Props
begin

text \<open>
  Two further views of the readiness loop: liveness (a backend that comes up in time is reached)
  and the contents of what the loop reports, its errors and its event sequence.
\<close>

section \<open>A wait that the timer wins\<close>

definition alive :: "ctx \<Rightarrow> int \<Rightarrow> bool" where
  "alive ctx t \<longleftrightarrow> ctx_Cause ctx t = None"

definition open_until :: "int \<Rightarrow> 'x world \<Rightarrow> bool" where
  "open_until t w \<longleftrightarrow> (case done_at w of None \<Rightarrow> True | Some d \<Rightarrow> t < d)"

lemma alive_mono: "alive ctx t \<Longrightarrow> s \<le> t \<Longrightarrow> alive ctx s"
  by (auto simp: alive_def ctx_Cause_None_iff)

lemma dial_wait_done_at: "dial_wait ctx delay w = (k, w') \<Longrightarrow> done_at w' = done_at w"
  by (auto simp: dial_wait_def select_first_def Let_def dest: take_draw_eqD split: prod.splits)

lemma dial_wait_timer:
  assumes wait: "dial_wait ctx delay w = (k, w')" and nonneg: "0 \<le> delay"
    and "alive ctx (now w + delay)" and "open_until (now w + delay) w"
  shows "k = WakeTimer"
proof -
  have ne: "wait_channels ctx delay w \<noteq> []" by (simp add: wait_channels_def)
  from select_first_mem(1) [OF ne wait [unfolded dial_wait_def]]
  have mem: "(now w', k) \<in> set (wait_channels ctx delay w)" .
  have le: "now w' \<le> now w + delay" by (rule dial_wait_time(2) [OF wait nonneg])
  from mem le assms(3,4) show ?thesis
    by (auto simp: mem_wait_channels alive_def ctx_Cause_None_iff open_until_def)
qed

section \<open>Liveness\<close>

lemma ext_dial_wait: "dial_wait ctx delay w = (k, w') \<Longrightarrow> ext w' = ext w"
  by (auto simp: dial_wait_def select_first_def Let_def dest: take_draw_eqD split: prod.splits)

text \<open>
  A route that is ready from instant \<open>R\<close> on: while the context is alive, an attempt (the dial and, where the route has
  one, the health check) that starts at \<open>R\<close> or later succeeds, an earlier one that fails does so with a
  retryable error, and every attempt takes at most \<open>A\<close>. \<open>good\<close> is what this needs of the state that the backend
  keeps, and every attempt keeps it.
\<close>

locale ready_route = timed_route +
  fixes R :: int and A :: int and good :: "'a \<Rightarrow> bool"
  assumes A_nonneg: "0 \<le> A"
    and quick: "now (snd (dial_attempt rt ctx nw addr w)) \<le> now w + A"
    and serves: "good (ext w) \<Longrightarrow> R \<le> now w \<Longrightarrow> alive ctx (now w + A) \<Longrightarrow> is_ok (fst (dial_attempt rt ctx nw addr w))"
    and warming: "good (ext w) \<Longrightarrow> alive ctx (now w + A) \<Longrightarrow> fst (dial_attempt rt ctx nw addr w) = Inl e \<Longrightarrow> IsRetryable (Some e)"
    and keeps_done: "done_at (snd (dial_attempt rt ctx nw addr w)) = done_at w"
    and handlers_keep_done: "done_at (emit cfg ev w) = done_at w"
    and keeps_good: "good (ext w) \<Longrightarrow> good (ext (snd (dial_attempt rt ctx nw addr w)))"
    and handlers_keep_good: "good (ext w) \<Longrightarrow> good (ext (emit cfg ev w))"
begin

lemma ready_round:
  assumes bo: "dial_bo bo" and g: "good (ext w)" and L: "now w \<le> L" "R + A + 625000000 \<le> L"
    and al: "alive ctx (L + A)" and op: "open_until L w"
  shows "(\<exists>c w'. dial_round cfg rt ctx nw addr start k bo w = Inl (Inr c, w')) \<or>
    (\<exists>bo' w'. dial_round cfg rt ctx nw addr start k bo w = Inr (bo', w') \<and>
      dial_bo bo' \<and> good (ext w') \<and> now w + 18750000 \<le> now w' \<and> now w' \<le> L \<and> open_until L w')"
proof -
  obtain r w1 where at: "dial_attempt rt ctx nw addr w = (r, w1)" by fastforce
  note d = at
  have al1: "alive ctx (now w + A)" using alive_mono [OF al, of "now w + A"] L(1) by simp
  show ?thesis
  proof (cases r)
    case (Inr c)
    with at show ?thesis by (simp add: dial_round_def)
  next
    case (Inl err)
    then have ret: "IsRetryable (Some err)" using warming [OF g al1, of nw addr err] d by simp
    have early: "now w < R"
      using serves [OF g _ al1] d Inl by (metis fst_conv isl_def linorder_not_le)
    have w1: "now w \<le> now w1" "now w1 \<le> now w + A"
      using attempt_steady [of w ctx nw addr] quick [of ctx nw addr w] d by simp_all
    have cause: "ctx_Cause ctx (now w1) = None"
      using alive_mono [OF al1 w1(2)] by (simp add: alive_def)
    define w2 where "w2 = emit cfg ((event EventDialRetry (rt_name rt))
      \<lparr>ev_address := addr, ev_attempt := Suc k, ev_err := Some err\<rparr>) w1"
    obtain draw w3 where td: "take_draw w2 = (draw, w3)" by fastforce
    have w3: "now w3 = now w1" "done_at w3 = done_at w"
      using take_draw_eqD [OF td] keeps_done [of ctx nw addr w] d
      by (simp_all add: w2_def handlers_quick handlers_keep_done)
    have "good (ext w1)" using keeps_good [OF g, of ctx nw addr] d by simp
    then have "good (ext w2)" unfolding w2_def by (rule handlers_keep_good)
    with td have g3: "good (ext w3)" using ext_take_draw [of w2] by simp
    obtain delay bo' where nx: "backoff_Next draw bo = (delay, bo')" by fastforce
    have dl: "18750000 \<le> sint delay" "sint delay \<le> 625000000"
      using dial_bo_delay [OF bo, of draw] nx by simp_all
    have fin: "now w3 + sint delay \<le> L" using w3 w1 early dl L by simp
    obtain wk w4 where wait: "dial_wait ctx (sint delay) w3 = (wk, w4)" by fastforce
    have nonneg: "0 \<le> sint delay" using dl by simp
    have "alive ctx (now w3 + sint delay)" using alive_mono [OF al, of "now w3 + sint delay"] fin A_nonneg by simp
    moreover have "open_until (now w3 + sint delay) w3"
      using op fin w3 by (auto simp: open_until_def split: option.splits)
    ultimately have timer: "wk = WakeTimer" by (rule dial_wait_timer [OF wait nonneg])
    have "dial_round cfg rt ctx nw addr start k bo w = Inr (bo', w4)"
      using at Inl cause ret td nx wait timer by (simp add: dial_round_def Let_def w2_def)
    moreover have "dial_bo bo'" using dial_bo_Next [OF bo, of draw] nx by simp
    moreover have "good (ext w4)" using ext_dial_wait [OF wait] g3 by simp
    moreover have "now w4 = now w3 + sint delay" using dial_wait_time(3) [OF wait nonneg] timer by simp
    moreover have "open_until L w4"
      using dial_wait_done_at [OF wait] w3 op by (simp add: open_until_def)
    ultimately show ?thesis using w3 w1 dl fin by simp
  qed
qed

lemma ready_loop:
  assumes "dial_bo bo" and "good (ext w)" and "now w \<le> L" and "R + A + 625000000 \<le> L"
    and "alive ctx (L + A)" and "open_until L w"
  shows "\<exists>c w'. dial_loop cfg rt ctx nw addr start k bo w = Some (Inr c, w')"
  using assms(1-3,6)
proof (induction "nat (L - now w)" arbitrary: k bo w rule: less_induct)
  case less
  from ready_round [OF less.prems(1-3) assms(4,5) less.prems(4)]
  consider (ok) c w' where "dial_round cfg rt ctx nw addr start k bo w = Inl (Inr c, w')"
    | (again) bo' w' where "dial_round cfg rt ctx nw addr start k bo w = Inr (bo', w')"
        "dial_bo bo'" "good (ext w')" "now w + 18750000 \<le> now w'" "now w' \<le> L" "open_until L w'"
    by blast
  then show ?case
  proof cases
    case ok
    then show ?thesis by (auto simp: dial_loop_return)
  next
    case again
    then have "nat (L - now w') < nat (L - now w)" by simp
    from less.hyps [OF this again(2,3,5,6)] show ?thesis by (simp add: dial_loop_continue [OF again(1)])
  qed
qed

lemma dialRoute_ready:
  assumes "good (ext w)" and "L = max (now w) (R + A + 625000000)"
    and "alive (dial_ctx rt ctx w) (L + A)" and "open_until L w"
  shows "\<exists>c w'. dialRoute cfg rt ctx nw addr w = Some (Inr c, w')"
  using ready_loop [OF dial_bo_init, of "emit cfg ((event EventDialStart (rt_name rt))\<lparr>ev_address := addr\<rparr>) w"
      L "dial_ctx rt ctx w"] assms
  by (simp add: dialRoute_def Let_def handlers_quick handlers_keep_done handlers_keep_good open_until_def)

end

section \<open>What an error of the loop contains\<close>

inductive dial_error :: "'x Route \<Rightarrow> ctx \<Rightarrow> goerr \<Rightarrow> bool" for rt ctx where
  waited: "ctx_Cause ctx t = Some cause \<Longrightarrow>
    dial_error rt ctx (dialWaitError (rt_name rt) cause (Some lastErr))"
| terminal: "\<not> IsRetryable (Some err) \<Longrightarrow>
    dial_error rt ctx (Errorf ''portless: dial route %q: %w'' [rt_name rt] [err])"
| closed: "dial_error rt ctx (Sentinel ErrClosed)"

lemma dial_wait_ctx_cause:
  assumes "dial_wait ctx delay w = (WakeCtx, w')"
  shows "ctx_Cause ctx (now w') = Some (cause_now ctx w')"
proof -
  have ne: "wait_channels ctx delay w \<noteq> []" by (simp add: wait_channels_def)
  from select_first_mem(1) [OF ne assms [unfolded dial_wait_def]]
  show ?thesis
    by (auto simp: mem_wait_channels cause_now_def ctx_Cause_def)
qed

lemma dial_round_error:
  "dial_round cfg rt ctx nw addr start k bo w = Inl (Inl e, w') \<Longrightarrow> dial_error rt ctx e"
  by (auto simp: dial_round_def dial_fail_def Let_def intro: dial_error.intros dest: dial_wait_ctx_cause
      split: sum.splits prod.splits option.splits if_splits wake.splits)

lemma dial_loop_error:
  fixes cfg :: "'x config"
  assumes "dial_loop cfg rt ctx nw addr start k bo w = Some (Inl e, w')"
  shows "dial_error rt ctx e"
proof -
  let ?Q = "\<lambda>r :: (goerr + conn) \<times> 'x world. isl (fst r) \<longrightarrow> dial_error rt ctx (projl (fst r))"
  have "?Q (Inl e, w')"
  proof (rule dial_loop_invariant [where Q = ?Q and I = "\<lambda>_ _ _. True", OF assms])
    fix k bo w and r :: "(goerr + conn) \<times> 'x world"
    assume "dial_round cfg rt ctx nw addr start k bo w = Inl r"
    then show "?Q r" by (cases r; cases "fst r") (auto dest: dial_round_error)
  qed simp_all
  then show ?thesis by simp
qed

lemma dialRoute_error:
  "dialRoute cfg rt ctx nw addr w = Some (Inl e, w') \<Longrightarrow> dial_error rt (dial_ctx rt ctx w) e"
  by (auto simp: dialRoute_def Let_def dest: dial_loop_error)

lemma err_is_dialWaitError [simp, go_error]:
  "err_is s (dialWaitError name cause (Some e)) \<longleftrightarrow> err_is s cause \<or> err_is s e"
  "err_is s (dialWaitError name cause None) \<longleftrightarrow> err_is s cause"
  by (simp_all add: dialWaitError_def)

section \<open>Events of one dial\<close>

text \<open>
  To say which event belongs to which attempt, the world's \<open>ext\<close> is a log of both: a handler appends every event it
  sees, and the route appends the result of each of its attempts. A log line shows of an event its type, route, address,
  attempt number and error.
\<close>

datatype dial_log = LogEvent Event | LogAttempt "goerr + conn"

datatype log_entry = EventLine EventType string string nat "goerr option" | AttemptLine "goerr + conn"

fun log_line :: "dial_log \<Rightarrow> log_entry" where
  "log_line (LogEvent e) = EventLine (ev_type e) (ev_route e) (ev_address e) (ev_attempt e) (ev_err e)"
| "log_line (LogAttempt r) = AttemptLine r"

definition dial_logger :: "dial_log list handler" where
  "dial_logger e w = w\<lparr>ext := ext w @ [LogEvent e]\<rparr>"

definition logs_attempts :: "dial_log list Route \<Rightarrow> bool" where
  "logs_attempts rt \<longleftrightarrow> (\<forall>ctx nw addr w. ext (snd (dial_attempt rt ctx nw addr w)) =
     ext w @ [LogAttempt (fst (dial_attempt rt ctx nw addr w))])"

text \<open>The log of failed attempts that the loop retries, from attempt \<open>k\<close> on.\<close>

fun retry_log :: "string \<Rightarrow> string \<Rightarrow> nat \<Rightarrow> goerr list \<Rightarrow> log_entry list" where
  "retry_log name addr k [] = []"
| "retry_log name addr k (e # es) =
     AttemptLine (Inl e) # EventLine EventDialRetry name addr (Suc k) (Some e) # retry_log name addr (Suc k) es"

lemma retry_log_append:
  "retry_log name addr k (es @ es') = retry_log name addr k es @ retry_log name addr (k + length es) es'"
  by (induction es arbitrary: k) auto

lemma length_retry_log: "length (retry_log name addr k es) = 2 * length es"
  by (induction es arbitrary: k) auto

text \<open>
  How a dial ends: an attempt succeeds; it fails for good, or when the context is over; or the wait after the last retry
  is cut short.
\<close>

inductive dial_tail :: "'x Route \<Rightarrow> ctx \<Rightarrow> string \<Rightarrow> goerr list \<Rightarrow> goerr + conn \<Rightarrow> log_entry list \<Rightarrow> bool" for rt ctx addr where
  success: "dial_tail rt ctx addr errs (Inr c)
     [AttemptLine (Inr c), EventLine EventDialSuccess (rt_name rt) addr 0 None]"
| final: "\<not> IsRetryable (Some e) \<Longrightarrow> err = Errorf ''portless: dial route %q: %w'' [rt_name rt] [e] \<Longrightarrow>
     dial_tail rt ctx addr errs (Inl err)
     [AttemptLine (Inl e), EventLine EventDialError (rt_name rt) addr 0 (Some err)]"
| too_late: "ctx_Cause ctx t = Some cause \<Longrightarrow> err = dialWaitError (rt_name rt) cause (Some e) \<Longrightarrow>
     dial_tail rt ctx addr errs (Inl err)
     [AttemptLine (Inl e), EventLine EventDialError (rt_name rt) addr 0 (Some err)]"
| cut_short: "errs \<noteq> [] \<Longrightarrow> err = Sentinel ErrClosed \<or>
       (\<exists>t cause. ctx_Cause ctx t = Some cause \<and> err = dialWaitError (rt_name rt) cause (Some (last errs))) \<Longrightarrow>
     dial_tail rt ctx addr errs (Inl err) [EventLine EventDialError (rt_name rt) addr 0 (Some err)]"

lemma emit_logged:
  "c_handlers cfg = [dial_logger] \<Longrightarrow>
   \<exists>x. ext (emit cfg e w) = ext w @ [x] \<and>
     log_line x = EventLine (ev_type e) (ev_route e) (ev_address e) (ev_attempt e) (ev_err e)"
  by (auto simp: emit_def dial_logger_def Let_def)

lemma dial_fail_logged:
  assumes "c_handlers cfg = [dial_logger]" and "dial_fail cfg rt addr err w = (r, w')"
  shows "r = Inl err \<and> (\<exists>x. ext w' = ext w @ [x] \<and> log_line x = EventLine EventDialError (rt_name rt) addr 0 (Some err))"
  using emit_logged [OF assms(1), of "(event EventDialError (rt_name rt))\<lparr>ev_address := addr, ev_err := Some err\<rparr>" w] assms(2)
  by (auto simp: dial_fail_def event_def)

lemma retry_logged:
  assumes "c_handlers cfg = [dial_logger]"
    and "take_draw (emit cfg ((event EventDialRetry (rt_name rt))
      \<lparr>ev_address := addr, ev_attempt := Suc k, ev_err := Some err\<rparr>) w1) = (draw, w3)"
    and "dial_wait ctx delay w3 = (wk, w4)"
  shows "\<exists>x. ext w4 = ext w1 @ [x] \<and> log_line x = EventLine EventDialRetry (rt_name rt) addr (Suc k) (Some err)"
  using emit_logged [OF assms(1), of "(event EventDialRetry (rt_name rt))
      \<lparr>ev_address := addr, ev_attempt := Suc k, ev_err := Some err\<rparr>" w1]
    take_draw_eqD [OF assms(2)] ext_dial_wait [OF assms(3)]
  by (auto simp: event_def)

lemma round_retries:
  assumes "c_handlers cfg = [dial_logger]" and "logs_attempts rt"
    and "dial_round cfg rt ctx nw addr start k bo w = Inr (bo', w')"
  shows "\<exists>log e. ext w' = ext w @ log \<and> IsRetryable (Some e) \<and> map log_line log = retry_log (rt_name rt) addr k [e]"
proof -
  from dial_round_InrD [OF assms(3)] obtain e w1 draw w3 where
    at: "dial_attempt rt ctx nw addr w = (Inl e, w1)" and ret: "IsRetryable (Some e)"
    and td: "take_draw (emit cfg ((event EventDialRetry (rt_name rt))
       \<lparr>ev_address := addr, ev_attempt := Suc k, ev_err := Some e\<rparr>) w1) = (draw, w3)"
    and wt: "dial_wait ctx (sint (fst (backoff_Next draw bo))) w3 = (WakeTimer, w')" by blast
  have "ext w1 = ext w @ [LogAttempt (Inl e)]" using assms(2) at unfolding logs_attempts_def by (metis fst_conv snd_conv)
  moreover obtain x where "ext w' = ext w1 @ [x]" "log_line x = EventLine EventDialRetry (rt_name rt) addr (Suc k) (Some e)"
    using retry_logged [OF assms(1) td wt] by blast
  ultimately show ?thesis using ret by (intro exI [of _ "[LogAttempt (Inl e), x]"] exI [of _ e]) simp
qed

lemma round_returns:
  assumes cfg: "c_handlers cfg = [dial_logger]" and "logs_attempts rt"
    and rd: "dial_round cfg rt ctx nw addr start k bo w = Inl (r, w')" and k: "length errs = k"
  shows "\<exists>log es tail. ext w' = ext w @ log \<and> map log_line log = retry_log (rt_name rt) addr k es @ tail \<and>
    (\<forall>e \<in> set es. IsRetryable (Some e)) \<and> dial_tail rt ctx addr (errs @ es) r tail"
proof -
  obtain r1 w1 where at: "dial_attempt rt ctx nw addr w = (r1, w1)" by fastforce
  have w1: "ext w1 = ext w @ [LogAttempt r1]" using assms(2) at unfolding logs_attempts_def by (metis fst_conv snd_conv)
  have last: ?thesis if "ext w' = ext w1 @ [x]" "dial_tail rt ctx addr errs r [AttemptLine r1, log_line x]" for x
    using that w1 by (intro exI [of _ "[LogAttempt r1, x]"] exI [of _ "[]"] exI [of _ "[AttemptLine r1, log_line x]"]) simp
  have failed: ?thesis if f: "dial_fail cfg rt addr err w1 = (r, w')"
    and t: "dial_tail rt ctx addr errs (Inl err) [AttemptLine r1, EventLine EventDialError (rt_name rt) addr 0 (Some err)]" for err
  proof -
    from dial_fail_logged [OF cfg f] obtain x where "r = Inl err" "ext w' = ext w1 @ [x]"
      "log_line x = EventLine EventDialError (rt_name rt) addr 0 (Some err)" by blast
    with t show ?thesis by (intro last [of x]) simp_all
  qed
  show ?thesis
  proof (cases r1)
    case (Inr c)
    let ?e = "(event EventDialSuccess (rt_name rt))\<lparr>ev_address := addr, ev_elapsed := now w1 - start\<rparr>"
    have r: "r = Inr c" "w' = emit cfg ?e w1" using rd at Inr by (simp_all add: dial_round_def)
    obtain x where "ext w' = ext w1 @ [x]" "log_line x = EventLine EventDialSuccess (rt_name rt) addr 0 None"
      using emit_logged [OF cfg, of ?e w1] by (auto simp: r event_def)
    with dial_tail.success [of rt ctx addr errs c] show ?thesis by (intro last [of x]) (simp_all add: r Inr)
  next
    case (Inl e)
    show ?thesis
    proof (cases "ctx_Cause ctx (now w1)")
      case (Some cause)
      then have "dial_fail cfg rt addr (dialWaitError (rt_name rt) cause (Some e)) w1 = (r, w')"
        using rd at Inl by (simp add: dial_round_def)
      from failed [OF this, unfolded Inl, OF dial_tail.too_late [OF Some refl]] show ?thesis .
    next
      case None
      show ?thesis
      proof (cases "IsRetryable (Some e)")
        case False
        then have "dial_fail cfg rt addr (Errorf ''portless: dial route %q: %w'' [rt_name rt] [e]) w1 = (r, w')"
          using rd at Inl None by (simp add: dial_round_def)
        from failed [OF this, unfolded Inl, OF dial_tail.final [OF False refl]] show ?thesis .
      next
        case True
        obtain draw w3 where td: "take_draw (emit cfg ((event EventDialRetry (rt_name rt))
          \<lparr>ev_address := addr, ev_attempt := Suc k, ev_err := Some e\<rparr>) w1) = (draw, w3)" by fastforce
        obtain delay bo' where nx: "backoff_Next draw bo = (delay, bo')" by fastforce
        obtain wk w4 where wt: "dial_wait ctx (sint delay) w3 = (wk, w4)" by fastforce
        obtain x where x: "ext w4 = ext w1 @ [x]" "log_line x = EventLine EventDialRetry (rt_name rt) addr (Suc k) (Some e)"
          using retry_logged [OF cfg td wt] by blast
        from rd at Inl None True td nx wt obtain err where f: "dial_fail cfg rt addr err w4 = (r, w')"
          and err: "err = Sentinel ErrClosed \<or>
            (\<exists>t cause. ctx_Cause ctx t = Some cause \<and> err = dialWaitError (rt_name rt) cause (Some (last (errs @ [e]))))"
          using dial_wait_ctx_cause [of ctx "sint delay" w3 w4]
          by (cases wk) (auto simp: dial_round_def Let_def)
        from dial_fail_logged [OF cfg f] obtain y where
          y: "r = Inl err" "ext w' = ext w4 @ [y]" "log_line y = EventLine EventDialError (rt_name rt) addr 0 (Some err)" by blast
        have "dial_tail rt ctx addr (errs @ [e]) r [log_line y]"
          unfolding y by (rule dial_tail.cut_short) (simp, rule err)
        with x y w1 True show ?thesis
          by (intro exI [of _ "[LogAttempt (Inl e), x, y]"] exI [of _ "[e]"] exI [of _ "[log_line y]"]) (simp add: Inl)
      qed
    qed
  qed
qed

lemma dial_loop_logged:
  assumes "c_handlers cfg = [dial_logger]" and "logs_attempts rt"
    and "dial_loop cfg rt ctx nw addr start 0 bo w = Some (r, w')"
  shows "\<exists>log errs tail. ext w' = ext w @ log \<and> map log_line log = retry_log (rt_name rt) addr 0 errs @ tail \<and>
    (\<forall>e \<in> set errs. IsRetryable (Some e)) \<and> dial_tail rt ctx addr errs r tail"
proof -
  let ?Q = "\<lambda>(r, w'). \<exists>log errs tail. ext w' = ext w @ log \<and> map log_line log = retry_log (rt_name rt) addr 0 errs @ tail \<and>
    (\<forall>e \<in> set errs. IsRetryable (Some e)) \<and> dial_tail rt ctx addr errs r tail"
  let ?I = "\<lambda>k bo w'. \<exists>log errs. ext w' = ext w @ log \<and> map log_line log = retry_log (rt_name rt) addr 0 errs \<and>
    length errs = k \<and> (\<forall>e \<in> set errs. IsRetryable (Some e))"
  have "?Q (r, w')"
  proof (rule dial_loop_invariant [where Q = ?Q and I = ?I, OF assms(3)])
    fix k bo w1 and res :: "(goerr + conn) \<times> dial_log list world"
    assume "?I k bo w1" and rd: "dial_round cfg rt ctx nw addr start k bo w1 = Inl res"
    then obtain log errs where l: "ext w1 = ext w @ log" "map log_line log = retry_log (rt_name rt) addr 0 errs"
      "length errs = k" "\<forall>e \<in> set errs. IsRetryable (Some e)" by blast
    obtain r' w2 where res: "res = (r', w2)" by fastforce
    from round_returns [OF assms(1,2) rd [unfolded res] l(3)] obtain log' es tail where
      "ext w2 = ext w1 @ log'" "map log_line log' = retry_log (rt_name rt) addr k es @ tail"
      "\<forall>e \<in> set es. IsRetryable (Some e)" "dial_tail rt ctx addr (errs @ es) r' tail" by blast
    with l show "?Q res" unfolding res prod.case
      by (intro exI [of _ "log @ log'"] exI [of _ "errs @ es"] exI [of _ tail]) (auto simp: retry_log_append)
  next
    fix k bo w1 bo' w2
    assume "?I k bo w1" and rd: "dial_round cfg rt ctx nw addr start k bo w1 = Inr (bo', w2)"
    then obtain log errs where l: "ext w1 = ext w @ log" "map log_line log = retry_log (rt_name rt) addr 0 errs"
      "length errs = k" "\<forall>e \<in> set errs. IsRetryable (Some e)" by blast
    from round_retries [OF assms(1,2) rd] obtain log' e where
      "ext w2 = ext w1 @ log'" "IsRetryable (Some e)" "map log_line log' = retry_log (rt_name rt) addr k [e]" by blast
    with l show "?I (Suc k) bo' w2"
      by (intro exI [of _ "log @ log'"] exI [of _ "errs @ [e]"]) (auto simp: retry_log_append)
  qed (use exI [of _ "[]"] in simp)
  then show ?thesis by simp
qed

section \<open>A dial that fails at once\<close>

definition demo_cfg :: "Event list config" where
  "demo_cfg = New_config [WithEventHandler log_handler]"

definition demo_route :: "Event list Route" where
  "demo_route = make_route ''a'' (simple_backend 1 (\<lambda>ctx nw addr w. (Inl (ErrNew ''boom''), w)))
     (route_config demo_cfg []) []"

definition demo_world :: "Event list world" where
  "demo_world = \<lparr>now = 5, rnd = [], closed_conns = [], closed_listeners = [], done_at = None, ext = []\<rparr>"

lemma demo_simps:
  "c_handlers demo_cfg = [log_handler]" "rt_name demo_route = ''a''"
  "rt_dial demo_route ctx nw addr w = (Inl (ErrNew ''boom''), w)" "rc_health (rt_cfg demo_route) = None"
  "rc_readyTimeout (rt_cfg demo_route) = defaultReadyTimeout"
  by (simp_all add: demo_cfg_def demo_route_def New_config_def WithEventHandler_def Let_def make_route_def
      buildDial_def route_config_def simple_backend_def)

lemma demo_dial:
  "\<exists>w'. dialRoute demo_cfg demo_route Background nw addr w =
     Some (Inl (Errorf ''portless: dial route %q: %w'' [''a''] [ErrNew ''boom'']), w')"
proof -
  have "ctx_Cause (dial_ctx demo_route Background w) (now w) = None"
    by (simp add: dial_ctx_def demo_simps Background_def WithTimeoutCause_def ctx_Cause_def ctx_done_def
        defaultReadyTimeout_def)
  moreover have "now (emit demo_cfg ev w) = now w" for ev
    by (simp add: emit_def demo_simps log_handler_def Let_def)
  ultimately show ?thesis
    by (auto simp: dialRoute_def dial_loop.simps dial_round_def dial_attempt_def demo_simps dial_fail_def Let_def)
qed

section \<open>Properties\<close>

text \<open>Every error a dial reports is one of three: the wait ended (it names the route and wraps both the
  cause of the context's end and the last backend error, so \<open>errors.Is\<close> sees through to either), the
  backend failed with an error that is not retryable (which it wraps), or the registry was closed.\<close>

theorem dial_error_shape:
  assumes "dialRoute cfg rt ctx nw addr w = Some (Inl e, w')"
  shows "(\<exists>t cause lastErr. ctx_Cause (dial_ctx rt ctx w) t = Some cause \<and>
            e = dialWaitError (rt_name rt) cause (Some lastErr) \<and>
            (\<forall>s. err_is s e \<longleftrightarrow> err_is s cause \<or> err_is s lastErr)) \<or>
         (\<exists>err. \<not> IsRetryable (Some err) \<and> \<not> IsRetryable (Some e) \<and>
            e = Errorf ''portless: dial route %q: %w'' [rt_name rt] [err]) \<or>
         e = Sentinel ErrClosed"
  using dialRoute_error [OF assms] by (cases rule: dial_error.cases) auto

theorem dial_error_shape_witness:
  "\<exists>e w' err. dialRoute demo_cfg demo_route Background ''tcp'' ''a:1'' demo_world = Some (Inl e, w') \<and>
     e = Errorf ''portless: dial route %q: %w'' [rt_name demo_route] [err] \<and> \<not> IsRetryable (Some e)"
proof -
  obtain w' where d: "dialRoute demo_cfg demo_route Background ''tcp'' ''a:1'' demo_world =
      Some (Inl (Errorf ''portless: dial route %q: %w'' [''a''] [ErrNew ''boom'']), w')"
    using demo_dial by blast
  with dial_error_shape [OF d] show ?thesis by (auto simp: dialWaitError_def demo_simps)
qed


text \<open>A backend that refuses connections, dialed with a deadline shorter than the first wait: one retry is reported.\<close>

definition refusing_route :: "dial_log list Route" where
  "refusing_route = make_route ''a'' (simple_backend 1 (\<lambda>ctx nw addr w. (Inl (Sentinel ECONNREFUSED),
       w\<lparr>ext := ext w @ [LogAttempt (Inl (Sentinel ECONNREFUSED))]\<rparr>))) (route_config (New_config []) []) []"

definition logging_cfg :: "dial_log list config" where
  "logging_cfg = New_config [WithEventHandler dial_logger]"

definition short_ctx :: ctx where
  "short_ctx = \<lparr>c_deadline = Some (1000, Sentinel CtxDeadlineExceeded), c_cancel = None\<rparr>"

definition log_world :: "dial_log list world" where
  "log_world = \<lparr>now = 5, rnd = [], closed_conns = [], closed_listeners = [], done_at = None, ext = []\<rparr>"

lemma refusing_simps:
  "c_handlers logging_cfg = [dial_logger]" "rt_name refusing_route = ''a''"
  "dial_attempt refusing_route ctx nw addr w =
     (Inl (Sentinel ECONNREFUSED), w\<lparr>ext := ext w @ [LogAttempt (Inl (Sentinel ECONNREFUSED))]\<rparr>)"
  by (simp_all add: logging_cfg_def refusing_route_def New_config_def WithEventHandler_def Let_def make_route_def
      buildDial_def route_config_def simple_backend_def dial_attempt_def)

lemma refusing_dial:
  "\<exists>r w'. dialRoute logging_cfg refusing_route short_ctx nw addr log_world = Some (r, w') \<and> length (ext w') = 4"
proof -
  have emit: "emit logging_cfg e v = v\<lparr>ext := ext v @ [LogEvent (if ev_time e = None then e\<lparr>ev_time := Some (now v)\<rparr> else e)]\<rparr>" for e v
    by (simp add: emit_def refusing_simps dial_logger_def Let_def)
  have ctx: "dial_ctx refusing_route short_ctx log_world = short_ctx" by (simp add: dial_ctx_def short_ctx_def)
  let ?w0 = "emit logging_cfg ((event EventDialStart ''a'')\<lparr>ev_address := addr\<rparr>) log_world"
  let ?w1 = "?w0\<lparr>ext := ext ?w0 @ [LogAttempt (Inl (Sentinel ECONNREFUSED))]\<rparr>"
  let ?w2 = "emit logging_cfg ((event EventDialRetry ''a'')
      \<lparr>ev_address := addr, ev_attempt := Suc 0, ev_err := Some (Sentinel ECONNREFUSED)\<rparr>) ?w1"
  have td: "take_draw ?w2 = (0, ?w2)" by (simp add: emit take_draw_def log_world_def)
  obtain delay bo' where nx: "backoff_Next 0 dial_backoff = (delay, bo')" by fastforce
  have dl: "18750000 \<le> sint delay" using dial_bo_delay(1) [OF dial_bo_init, of 0] nx by simp
  obtain wk w4 where wt: "dial_wait short_ctx (sint delay) ?w2 = (wk, w4)" by fastforce
  have "(now w4, wk) \<in> set (wait_channels short_ctx (sint delay) ?w2)" "now w4 \<le> max (now ?w2) 1000"
    using select_first_mem [OF _ wt [unfolded dial_wait_def]] dial_wait_time(4) [OF wt _ done_by_deadline] dl
    by (auto simp: wait_channels_def short_ctx_def)
  then have wk: "wk = WakeCtx" using dl by (auto simp: mem_wait_channels emit log_world_def)
  have "ctx_Cause short_ctx 5 = None" by (simp add: ctx_Cause_def ctx_done_def short_ctx_def)
  moreover have "now ?w1 = 5" by (simp add: emit log_world_def)
  moreover have "IsRetryable (Some (Sentinel ECONNREFUSED))" by (simp add: IsRetryable_def)
  ultimately have "dial_round logging_cfg refusing_route short_ctx nw addr 5 0 dial_backoff ?w0 =
      Inl (dial_fail logging_cfg refusing_route addr
             (dialWaitError ''a'' (cause_now short_ctx w4) (Some (Sentinel ECONNREFUSED))) w4)"
    using td nx wt wk by (simp add: dial_round_def refusing_simps Let_def)
  from dial_loop_return [OF this] have "dialRoute logging_cfg refusing_route short_ctx nw addr log_world =
      Some (dial_fail logging_cfg refusing_route addr
             (dialWaitError ''a'' (cause_now short_ctx w4) (Some (Sentinel ECONNREFUSED))) w4)"
    by (simp add: dialRoute_def ctx refusing_simps Let_def) (simp add: log_world_def)
  moreover have "length (ext w4) = 3" using ext_dial_wait [OF wt] by (simp add: emit log_world_def)
  ultimately show ?thesis by (simp add: dial_fail_def emit)
qed


end
