(* ===== verification/Backends.thy ===== *)
theory Backends
  imports Dial_Live
begin

text \<open>
  The package \<open>backend\<close>: \<open>TCP\<close>, \<open>Listener\<close>, \<open>Future\<close> and \<open>ParseTCP\<close>, with the two interfaces of the
  dial loop interpreted on them.

  What the network does is a parameter \<open>net\<close>: the time a dial of an address takes when it starts at
  a given instant, and its outcome. \<open>net.Dialer.DialContext\<close> respects its context. The state of a
  future at each instant comes from the list of its \<open>Set\<close> calls. \<open>url.Parse\<close> and the service names
  known to \<open>net.LookupPort\<close> are parameters of \<open>ParseTCP\<close>.
\<close>

section \<open>net.Dialer\<close>

type_synonym network = "int \<Rightarrow> string \<Rightarrow> string \<Rightarrow> nat \<times> (goerr + conn)"

text \<open>The error a dial reports when its context is done (\<open>mapErr\<close> of package \<open>net\<close>).\<close>

definition dialer_ctx_error :: "goerr \<Rightarrow> goerr" where
  "dialer_ctx_error err =
     (if err = Sentinel CtxDeadlineExceeded then NetErr True [CtxDeadlineExceeded] []
      else NetErr False [CtxCanceled] [])"

definition Dialer_DialContext :: "network \<Rightarrow> 'x dialfn" where
  "Dialer_DialContext net ctx network address w =
     (case net (now w) network address of (dur, res) \<Rightarrow>
        let fin = now w + int dur in
        case ctx_done ctx of
          Some (t, err, cause) \<Rightarrow>
            if t \<le> fin then (Inl (dialer_ctx_error err), w\<lparr>now := max (now w) t\<rparr>)
            else (res, w\<lparr>now := fin\<rparr>)
        | None \<Rightarrow> (res, w\<lparr>now := fin\<rparr>))"

lemma Dialer_frame:
  "done_at (snd (Dialer_DialContext net ctx nw addr w)) = done_at w"
  "ext (snd (Dialer_DialContext net ctx nw addr w)) = ext w"
  by (auto simp: Dialer_DialContext_def Let_def split: prod.splits option.splits)

lemma Dialer_steady: "now w \<le> now (snd (Dialer_DialContext net ctx nw addr w))"
  by (auto simp: Dialer_DialContext_def Let_def split: prod.splits option.splits)

lemma Dialer_prompt:
  "done_by ctx D \<Longrightarrow> now (snd (Dialer_DialContext net ctx nw addr w)) \<le> max (now w) D"
  by (auto simp: Dialer_DialContext_def Let_def done_by_def split: prod.splits option.splits)

section \<open>backend/tcp.go\<close>

definition tcpAddr :: "string \<Rightarrow> goaddr" where
  "tcpAddr a = NetAddr ''tcp'' a"

text \<open>The requested address is ignored: every dial goes to the configured one.\<close>

definition tcp_DialContext :: "network \<Rightarrow> string \<Rightarrow> 'x dialfn" where
  "tcp_DialContext net addr ctx network address w = Dialer_DialContext net ctx network addr w"

definition TCP :: "network \<Rightarrow> nat \<Rightarrow> string \<Rightarrow> 'x Backend" where
  "TCP net i addr = (simple_backend i (tcp_DialContext net addr))
     \<lparr>bk_addr := Some (\<lambda>w. Some (tcpAddr addr))\<rparr>"

text \<open>\<open>backend/listener.go\<close>: a listener is named by the text of its address.\<close>

definition Listener :: "network \<Rightarrow> nat \<Rightarrow> string \<Rightarrow> 'x Backend" where
  "Listener net i laddr = TCP net i laddr"

section \<open>backend/future.go\<close>

record FutureBackend =
  fb_addr :: string

definition Future :: FutureBackend where
  "Future = \<lparr>fb_addr = []\<rparr>"

definition future_Set :: "string \<Rightarrow> FutureBackend \<Rightarrow> FutureBackend" where
  "future_Set addr f = f\<lparr>fb_addr := addr\<rparr>"

definition future_SetListener :: "string \<Rightarrow> FutureBackend \<Rightarrow> FutureBackend" where
  "future_SetListener laddr f = future_Set laddr f"

definition future_Addr :: "FutureBackend \<Rightarrow> goaddr option" where
  "future_Addr f = (if fb_addr f = [] then None else Some (tcpAddr (fb_addr f)))"

definition future_DialContext :: "network \<Rightarrow> FutureBackend \<Rightarrow> 'x dialfn" where
  "future_DialContext net f ctx network address w =
     (let addr = fb_addr f in
      if addr = [] then (Inl (RetryableError (ErrNew ''portless: future backend address not set yet'')), w)
      else Dialer_DialContext net ctx network addr w)"

text \<open>The future after the \<open>Set\<close> calls made up to instant \<open>t\<close>, and the backend they drive.\<close>

definition future_at :: "(int \<times> string) list \<Rightarrow> int \<Rightarrow> FutureBackend" where
  "future_at sets t = foldl (\<lambda>f (s, a). if s \<le> t then future_Set a f else f) Future sets"

definition FutureB :: "network \<Rightarrow> nat \<Rightarrow> (int \<times> string) list \<Rightarrow> 'x Backend" where
  "FutureB net i sets =
     (simple_backend i (\<lambda>ctx nw a w. future_DialContext net (future_at sets (now w)) ctx nw a w))
     \<lparr>bk_addr := Some (\<lambda>w. future_Addr (future_at sets (now w)))\<rparr>"

lemma backend_dials [simp, go_route]:
  "bk_dial (TCP net i addr) = tcp_DialContext net addr"
  "bk_dial (FutureB net i sets) =
     (\<lambda>ctx nw a w. future_DialContext net (future_at sets (now w)) ctx nw a w)"
  by (simp_all add: TCP_def FutureB_def simple_backend_def)

lemma future_at_single: "future_at [(s, a)] t = (if s \<le> t then \<lparr>fb_addr = a\<rparr> else Future)"
  by (simp add: future_at_def future_Set_def Future_def)

section \<open>The loop's contracts on these backends\<close>

text \<open>
  A route as the daemon registers it: the default configuration, no route options, no middleware.
\<close>

definition plain_route :: "string \<Rightarrow> 'x Backend \<Rightarrow> 'x Route" where
  "plain_route name b = make_route name b (route_config (New_config []) []) []"

lemma plain_route_simps [simp, go_route]:
  "rt_dial (plain_route name b) = bk_dial b"
  "rc_health (rt_cfg (plain_route name b)) = None"
  "rt_backend (plain_route name b) = b"
  "rt_name (plain_route name b) = name"
  "rc_readyTimeout (rt_cfg (plain_route name b)) = defaultReadyTimeout"
  "rc_portMap (rt_cfg (plain_route name b)) = []"
  by (simp_all add: plain_route_def make_route_def buildDial_def route_config_def New_config_def Let_def)

lemma New_config_Nil [simp, go_config]:
  "c_handlers (New_config []) = []" "c_middleware (New_config []) = []"
  "c_fallback (New_config []) = None" "c_readyTimeout (New_config []) = defaultReadyTimeout"
  by (simp_all add: New_config_def Let_def)

interpretation tcp_route: timed_route "New_config []" "plain_route name (TCP net i addr)" 0
  for name net i addr
  by unfold_locales (auto simp: tcp_DialContext_def Dialer_steady Dialer_prompt)

lemma future_dial_time:
  "now w \<le> now (snd (future_DialContext net f ctx nw a w))"
  "done_by ctx D \<Longrightarrow> now (snd (future_DialContext net f ctx nw a w)) \<le> max (now w) D"
  by (simp_all add: future_DialContext_def Dialer_steady Dialer_prompt Let_def)

interpretation future_route: timed_route "New_config []" "plain_route name (FutureB net i sets)" 0
  for name net i sets
  by unfold_locales (auto simp: future_dial_time)

text \<open>
  A server on \<open>addr\<close> that starts to accept at instant \<open>R\<close>: connections are refused before that. The
  time a dial takes is bounded by \<open>A\<close>.
\<close>

definition booting_net :: "int \<Rightarrow> nat \<Rightarrow> string \<Rightarrow> conn \<Rightarrow> network" where
  "booting_net R dur addr c t nw a =
     (if a \<noteq> addr then (dur, Inl (ErrNew ''no such host''))
      else if R \<le> t then (dur, Inr c)
      else (dur, Inl (NetErr False [] [Sentinel ECONNREFUSED])))"

lemma booting_dial:
  assumes "alive ctx (now w + int dur)"
  shows "Dialer_DialContext (booting_net R dur addr c) ctx nw addr w =
    (if R \<le> now w then Inr c else Inl (NetErr False [] [Sentinel ECONNREFUSED]),
     w\<lparr>now := now w + int dur\<rparr>)"
  using assms
  by (auto simp: Dialer_DialContext_def booting_net_def alive_def ctx_Cause_None_iff Let_def
      split: option.splits)

lemma Dialer_quick:
  "now (snd (Dialer_DialContext (booting_net R dur addr c) ctx nw a w)) \<le> now w + int dur"
  by (auto simp: Dialer_DialContext_def booting_net_def Let_def split: option.splits)

lemma refused_retryable [simp]: "IsRetryable (Some (NetErr t al [Sentinel ECONNREFUSED]))"
  by (simp add: IsRetryable_def)

interpretation booting_tcp: ready_route "New_config []"
    "plain_route name (TCP (booting_net R dur addr c) i addr)" 0 R "int dur" "\<lambda>_. True"
  for name R dur addr c i
  by unfold_locales
     (auto simp: tcp_DialContext_def Dialer_quick Dialer_frame booting_dial split: if_splits)

text \<open>
  A future whose address arrives at instant \<open>R\<close>, with a listener already bound there.
\<close>

interpretation booting_future: ready_route "New_config []"
    "plain_route name (FutureB (booting_net 0 dur (a0 # as) c) i [(R, a0 # as)])" 0 "max R 0" "int dur" "\<lambda>_. True"
  for name R dur a0 as c i
proof (unfold_locales, goal_cases)
  case (2 ctx nw a w)
  then show ?case
    by (simp add: future_DialContext_def future_at_single Let_def Dialer_quick Future_def)
next
  case (3 w ctx nw a)
  then show ?case
    by (auto simp: future_DialContext_def future_at_single Let_def booting_dial)
next
  case (4 ctx w nw a e)
  then show ?case
    by (auto simp: future_DialContext_def future_at_single Let_def booting_dial Future_def split: if_splits)
qed (auto simp: future_DialContext_def Let_def Dialer_frame)

text \<open>
  A caller of a route with ready timeout \<open>timeout\<close> whose context outlives \<open>T\<close>: it is not cancelled before, and its
  deadline, or the end of the ready timeout when it has none, is later.
\<close>

definition patient :: "int \<Rightarrow> ctx \<Rightarrow> 'x world \<Rightarrow> int \<Rightarrow> bool" where
  "patient timeout ctx w T \<longleftrightarrow> (case c_cancel ctx of Some (t, _) \<Rightarrow> T < t | None \<Rightarrow> True) \<and>
     (case c_deadline ctx of Some (t, _) \<Rightarrow> T < t | None \<Rightarrow> T < now w + timeout)"

lemma patient_dial: "patient (rc_readyTimeout (rt_cfg rt)) ctx w T \<Longrightarrow> alive (dial_ctx rt ctx w) T"
  by (auto simp: patient_def alive_def ctx_Cause_None_iff dial_ctx_def WithTimeoutCause_def ctx_done_def
      split: option.splits if_splits)

lemma patient_alive: "patient defaultReadyTimeout ctx w T \<Longrightarrow> alive (dial_ctx (plain_route name b) ctx w) T"
  using patient_dial [of "plain_route name b" ctx w T] by simp

section \<open>Parts of a route that respect their context\<close>

text \<open>
  What \<open>backend.go\<close>, \<open>middleware.go\<close> and \<open>options.go\<close> ask of a dial function, a middleware and a health check, as far
  as time goes: they end when the context does.
\<close>

definition prompt_dial :: "'x dialfn \<Rightarrow> bool" where
  "prompt_dial d \<longleftrightarrow> (\<forall>ctx nw a w. now w \<le> now (snd (d ctx nw a w)) \<and>
     (\<forall>D. done_by ctx D \<longrightarrow> now (snd (d ctx nw a w)) \<le> max (now w) D))"

definition prompt_middleware :: "'x middleware \<Rightarrow> bool" where
  "prompt_middleware m \<longleftrightarrow> (\<forall>d. prompt_dial d \<longrightarrow> prompt_dial (m d))"

definition prompt_check :: "'x healthcheck \<Rightarrow> bool" where
  "prompt_check h \<longleftrightarrow> (\<forall>d ctx w. prompt_dial d \<longrightarrow> now w \<le> now (snd (h ctx d w)) \<and>
     (\<forall>D. done_by ctx D \<longrightarrow> now (snd (h ctx d w)) \<le> max (now w) D))"

definition prompt_config :: "'x config \<Rightarrow> 'x routeConfig \<Rightarrow> bool" where
  "prompt_config cfg rcfg \<longleftrightarrow> (\<forall>e w. now (emit cfg e w) = now w) \<and>
     (\<forall>m \<in> set (c_middleware cfg @ rc_middleware rcfg). prompt_middleware m) \<and>
     (\<forall>h. rc_health rcfg = Some h \<longrightarrow> prompt_check h)"

lemma prompt_backends:
  "prompt_dial (bk_dial (TCP net i addr))" "prompt_dial (bk_dial (Listener net i addr))"
  "prompt_dial (bk_dial (FutureB net i sets))"
  by (simp_all add: prompt_dial_def Listener_def tcp_DialContext_def Dialer_steady Dialer_prompt future_dial_time)

lemma prompt_port_mapped: "prompt_dial d \<Longrightarrow> prompt_dial (port_mapped name pm d)"
  by (simp add: prompt_dial_def port_mapped_def split: option.split prod.split)

lemma prompt_chain: "prompt_dial d \<Longrightarrow> \<forall>m \<in> set ms. prompt_middleware m \<Longrightarrow> prompt_dial (chain d ms)"
  by (induction ms) (simp_all add: prompt_middleware_def)

lemma prompt_buildDial:
  "prompt_dial (bk_dial b) \<Longrightarrow> \<forall>m \<in> set (mws @ rc_middleware rcfg). prompt_middleware m \<Longrightarrow>
   prompt_dial (buildDial name b rcfg mws)"
  unfolding buildDial_def Let_def by (rule prompt_chain) (simp_all add: prompt_port_mapped)

lemma prompt_timed:
  assumes "prompt_dial (bk_dial b)" and "prompt_config cfg rcfg"
  shows "timed_route cfg (make_route name b rcfg (c_middleware cfg)) 0"
proof -
  have "prompt_dial (buildDial name b rcfg (c_middleware cfg))"
    using assms by (intro prompt_buildDial) (simp_all add: prompt_config_def)
  with assms show ?thesis
    by unfold_locales (simp_all add: prompt_dial_def prompt_config_def prompt_check_def)
qed

lemma dial_ctx_done_by:
  "done_by (dial_ctx rt ctx w)
     (case c_deadline ctx of Some (d, _) \<Rightarrow> d | None \<Rightarrow> now w + rc_readyTimeout (rt_cfg rt))"
  by (auto simp: dial_ctx_def WithTimeoutCause_def split: option.split intro: done_by_deadline)

section \<open>Properties\<close>

text \<open>C1: A dial through the readiness loop always returns, and by the deadline of the caller's context or, if there is
  none, within the ready timeout of the route: for every route on a TCP, listener or future backend, whatever the
  registry's and the route's options, the port map included, whatever the network does, whatever the caller's context,
  and however the random draws and the close of the registry fall. It needs that the middleware and the health check,
  if there are any, end when their context does, and that event handlers take no time, as \<open>WithEventHandler\<close> asks.\<close>

theorem dial_returns_in_time:
  assumes "b \<in> {TCP net i addr, Listener net i addr, FutureB net i sets}" and "prompt_config cfg rcfg"
  shows "\<exists>res w'. dialRoute cfg (make_route name b rcfg (c_middleware cfg)) ctx nw a w = Some (res, w') \<and>
    now w' \<le> max (now w) (case c_deadline ctx of Some (d, _) \<Rightarrow> d | None \<Rightarrow> now w + rc_readyTimeout rcfg)"
proof -
  let ?rt = "make_route name b rcfg (c_middleware cfg)"
  have "prompt_dial (bk_dial b)" using assms(1) prompt_backends by blast
  from prompt_timed [OF this assms(2)] have t: "timed_route cfg ?rt 0" .
  from timed_route.dialRoute_returns [OF t] obtain res w' where
    d: "dialRoute cfg ?rt ctx nw a w = Some (res, w')" by (metis surj_pair)
  moreover from timed_route.dialRoute_return_time [OF t d dial_ctx_done_by]
  have "now w' \<le> max (now w) (case c_deadline ctx of Some (d, _) \<Rightarrow> d | None \<Rightarrow> now w + rc_readyTimeout rcfg)"
    unfolding make_route_simps by simp
  ultimately show ?thesis by blast
qed

text \<open>A route whose check never passes: a dial without a deadline is over after the route's own five seconds.\<close>

definition nine_config :: "unit config" where
  "nine_config = New_config [WithReadyTimeout (9 * nano_s)]"

definition stuck_config :: "unit routeConfig" where
  "stuck_config = route_config nine_config
     [RouteWithReadyTimeout (5 * nano_s), RouteWithPortMap [(80, 8080)],
      RouteWithHealthCheck (\<lambda>ctx d w. (Some (ErrNew ''warming up''), w))]"

theorem dial_returns_in_time_witness:
  "\<exists>res w'. dialRoute nine_config
      (make_route ''web'' (TCP (\<lambda>t nw a. (10, Inr (Conn 7 True None))) 1 ''h:1'') stuck_config []) Background ''tcp'' ''web:80''
      \<lparr>now = 2, rnd = [], closed_conns = [], closed_listeners = [], done_at = None, ext = ()\<rparr> = Some (res, w') \<and>
    now w' \<le> 5 * nano_s + 2"
proof -
  have c: "c_handlers nine_config = []"
    "c_middleware nine_config = []"
    by (simp_all add: nine_config_def New_config_def WithReadyTimeout_def Let_def)
  have s: "rc_middleware stuck_config = []" "rc_readyTimeout stuck_config = 5 * nano_s"
    "rc_health stuck_config = Some (\<lambda>ctx d w. (Some (ErrNew ''warming up''), w))"
    by (simp_all add: stuck_config_def route_config_def RouteWithReadyTimeout_def RouteWithPortMap_def RouteWithHealthCheck_def)
  have "prompt_config nine_config stuck_config"
    by (simp add: prompt_config_def c s prompt_check_def emit_def)
  from dial_returns_in_time [OF insertI1 this, where net = "\<lambda>t nw a. (10, Inr (Conn 7 True None))" and
      i = 1 and addr = "''h:1''" and name = "''web''" and ctx = Background and nw = "''tcp''" and a = "''web:80''" and w =
      "\<lparr>now = 2, rnd = [], closed_conns = [], closed_listeners = [], done_at = None, ext = ()\<rparr>"]
  show ?thesis by (simp add: c s Background_def)
qed

end
