(* ===== verification/Parse_Tcp.thy ===== *)
theory Parse_Tcp
  imports Backends
begin

text \<open>
  \<open>backend/parse.go\<close>: \<open>ParseTCP\<close>. The result of \<open>url.Parse\<close> is an input of the model, reduced to
  the parts the function reads; so is the table of service names behind \<open>net.LookupPort\<close>. The
  model returns the address of the backend it would build, and \<open>ParseTCP\<close> wraps it with \<open>TCP\<close>.
\<close>

record ParsedURL =
  u_scheme :: string
  u_has_user :: bool
  u_path :: string
  u_rawquery :: string
  u_fragment :: string
  u_host :: string

type_synonym url_parser = "string \<Rightarrow> goerr + ParsedURL"

text \<open>The scheme and the rest of the checks on a string with \<open>://\<close>: the \<open>host[:port]\<close> part.\<close>

definition url_hostport :: "url_parser \<Rightarrow> string \<Rightarrow> string \<Rightarrow> goerr + string" where
  "url_hostport url_Parse s scheme =
     (case url_Parse s of
        Inl err \<Rightarrow> Inl (Errorf ''backend: parse tcp %q: %w'' [s] [err])
      | Inr u \<Rightarrow>
          if u_scheme u = ''https'' then
            Inl (Errorf ''backend: parse tcp %q: a TCP backend cannot terminate TLS'' [s] [])
          else if u_scheme u \<noteq> ''http'' then
            Inl (Errorf ''backend: parse tcp %q: unsupported scheme %q'' [s, scheme] [])
          else if u_has_user u then
            Inl (Errorf ''backend: parse tcp %q: userinfo not allowed in a dial address'' [s] [])
          else if u_path u \<noteq> [] \<or> u_rawquery u \<noteq> [] \<or> u_fragment u \<noteq> [] then
            Inl (Errorf ''backend: parse tcp %q: a dial address cannot carry a path, query, or fragment'' [s] [])
          else Inr (u_host u))"

definition is_bracket :: "char \<Rightarrow> bool" where
  "is_bracket c \<longleftrightarrow> c = CHR ''['' \<or> c = CHR '']''"

text \<open>Host and port of a \<open>host[:port]\<close> string; a missing port is 80.\<close>

definition host_and_port :: "string \<Rightarrow> string \<Rightarrow> goerr + string \<times> string" where
  "host_and_port s hostport =
     (case SplitHostPort hostport of
        Some (host, port) \<Rightarrow> Inr (host, port)
      | None \<Rightarrow>
          if CHR '':'' \<in> set hostport \<and> \<not> has_prefix hostport ''['' then
            Inl (Errorf ''backend: parse tcp %q: IPv6 literals must be bracketed'' [s] [])
          else Inr (trim_by is_bracket hostport, ''80''))"

definition ParseTCP_addr :: "url_parser \<Rightarrow> (string \<Rightarrow> int option) \<Rightarrow> string \<Rightarrow> goerr + string" where
  "ParseTCP_addr url_Parse services s0 =
     (let s = trim_space s0 in
      if s = [] then Inl (ErrNew ''backend: parse tcp: empty address'')
      else
        case (case cut_str s ''://'' of
                None \<Rightarrow> Inr s
              | Some (scheme, _) \<Rightarrow> url_hostport url_Parse s scheme) of
          Inl err \<Rightarrow> Inl err
        | Inr hostport \<Rightarrow>
            (case host_and_port s hostport of
               Inl err \<Rightarrow> Inl err
             | Inr (host, port) \<Rightarrow>
                 if host = [] then
                   Inl (Errorf ''backend: parse tcp %q: empty host (write 127.0.0.1:%s for a local address)'' [s, port] [])
                 else if LookupPort services port = None then
                   Inl (Errorf ''backend: parse tcp %q: invalid port %q'' [s, port] [])
                 else Inr (JoinHostPort host port)))"

definition ParseTCP :: "url_parser \<Rightarrow> (string \<Rightarrow> int option) \<Rightarrow> network \<Rightarrow> nat \<Rightarrow> string \<Rightarrow> goerr + 'x Backend" where
  "ParseTCP url_Parse services net i s =
     (case ParseTCP_addr url_Parse services s of Inl err \<Rightarrow> Inl err | Inr addr \<Rightarrow> Inr (TCP net i addr))"

section \<open>Lemmas\<close>

lemma url_hostport_ok:
  assumes "url_hostport url_Parse s scheme = Inr hp"
  shows "\<exists>u. url_Parse s = Inr u \<and> u_scheme u = ''http'' \<and> \<not> u_has_user u \<and> u_path u = [] \<and>
    u_rawquery u = [] \<and> u_fragment u = [] \<and> hp = u_host u"
  using assms by (auto simp: url_hostport_def split: sum.splits if_splits)

lemma host_and_port_Inr:
  assumes "host_and_port s hp = Inr (h, p)"
  shows "SplitHostPort hp = Some (h, p) \<or>
    (SplitHostPort hp = None \<and> h = trim_by is_bracket hp \<and> p = ''80'' \<and>
     (CHR '':'' \<in> set hp \<longrightarrow> has_prefix hp ''[''))"
  using assms by (auto simp: host_and_port_def split: option.splits if_splits)

text \<open>
  An accepted string: the \<open>host[:port]\<close> text it denotes, the host and port read from it, and the
  facts \<open>ParseTCP\<close> has checked.
\<close>

lemma ParseTCP_addr_Inr:
  assumes "ParseTCP_addr url_Parse services s = Inr addr"
  shows "\<exists>hp h p. (if cut_str (trim_space s) ''://'' = None then hp = trim_space s
      else \<exists>u. url_Parse (trim_space s) = Inr u \<and> u_scheme u = ''http'' \<and> \<not> u_has_user u \<and>
        u_path u = [] \<and> u_rawquery u = [] \<and> u_fragment u = [] \<and> hp = u_host u) \<and>
    host_and_port (trim_space s) hp = Inr (h, p) \<and> h \<noteq> [] \<and> LookupPort services p \<noteq> None \<and>
    addr = JoinHostPort h p"
proof -
  let ?s = "trim_space s"
  from assms obtain hp h p where
    hp: "(case cut_str ?s ''://'' of None \<Rightarrow> Inr ?s
      | Some (scheme, _) \<Rightarrow> url_hostport url_Parse ?s scheme) = Inr hp"
    and rest: "host_and_port ?s hp = Inr (h, p)" "h \<noteq> []" "LookupPort services p \<noteq> None"
      "addr = JoinHostPort h p"
    by (auto simp: ParseTCP_addr_def Let_def split: sum.splits if_splits prod.splits)
  from hp have "if cut_str ?s ''://'' = None then hp = ?s
      else \<exists>u. url_Parse ?s = Inr u \<and> u_scheme u = ''http'' \<and> \<not> u_has_user u \<and>
        u_path u = [] \<and> u_rawquery u = [] \<and> u_fragment u = [] \<and> hp = u_host u"
    by (auto split: option.splits dest: url_hostport_ok)
  with rest show ?thesis by blast
qed

text \<open>Where the \<open>host[:port]\<close> text is well formed, the dialed address reads back as host and port.\<close>

lemma host_and_port_roundtrip:
  assumes "host_and_port s hp = Inr (h, p)"
    and "SplitHostPort hp \<noteq> None \<or> (\<forall>c \<in> set hp. \<not> is_bracket c)"
  shows "SplitHostPort (JoinHostPort h p) = Some (h, p)"
proof -
  from host_and_port_Inr [OF assms(1)] show ?thesis
  proof
    assume "SplitHostPort hp = Some (h, p)"
    from SplitHostPort_SomeD [OF this] show ?thesis by (intro SplitHostPort_JoinHostPort) auto
  next
    assume hp: "SplitHostPort hp = None \<and> h = trim_by is_bracket hp \<and> p = ''80'' \<and>
      (CHR '':'' \<in> set hp \<longrightarrow> has_prefix hp ''['')"
    with assms(2) have nb: "\<forall>c \<in> set hp. \<not> is_bracket c" by simp
    then have "dropWhile is_bracket hp = hp" "dropWhile is_bracket (rev hp) = rev hp"
      by (metis dropWhile_eq_self_iff hd_in_set, metis dropWhile_eq_self_iff hd_in_set set_rev)
    with hp have "h = hp" by (simp add: trim_by_def)
    with nb hp show ?thesis by (intro SplitHostPort_JoinHostPort) (auto simp: is_bracket_def)
  qed
qed

text \<open>The equations that evaluate the helpers of \<open>ParseTCP\<close> on a literal.\<close>

lemmas address_eval = trim_space_def trim_by_def is_space_def byte_def is_bracket_def SplitHostPort_def
  split_checked_def last_index_byte_def LookupPort_def parse_port_def split_sign_def is_digit_def
  digit_val_def JoinHostPort_def

lemma literal_host_port:
  "trim_space '' db.test:5432 '' = ''db.test:5432''"
  "SplitHostPort ''db.test:5432'' = Some (''db.test'', ''5432'')"
  "LookupPort (\<lambda>_. None) ''5432'' = Some 5432"
  "JoinHostPort ''db.test'' ''5432'' = ''db.test:5432''"
  by (simp_all add: address_eval)

lemma literal_malformed:
  "trim_space ''[::1]:80:90'' = ''[::1]:80:90''"
  "SplitHostPort ''[::1]:80:90'' = None"
  "trim_by is_bracket ''[::1]:80:90'' = ''::1]:80:90''"
  "LookupPort (\<lambda>_. None) ''80'' = Some 80"
  "JoinHostPort ''::1]:80:90'' ''80'' = ''[::1]:80:90]:80''"
  "SplitHostPort ''[::1]:80:90]:80'' = None"
  by (simp_all add: address_eval)

section \<open>Properties\<close>

text \<open>C24: What \<open>ParseTCP\<close> accepts: with a scheme, only an http URL without userinfo, path, query or fragment
  (https is never downgraded to a plaintext dial); and if the \<open>host[:port]\<close> text can be split or has no
  brackets, the address to dial reads back as a non-empty host and a port that resolves.\<close>

theorem ParseTCP_accepts:
  assumes "ParseTCP_addr url_Parse services s = Inr addr"
  shows "\<exists>hp h p. (if cut_str (trim_space s) ''://'' = None then hp = trim_space s
      else \<exists>u. url_Parse (trim_space s) = Inr u \<and> u_scheme u = ''http'' \<and> \<not> u_has_user u \<and>
        u_path u = [] \<and> u_rawquery u = [] \<and> u_fragment u = [] \<and> hp = u_host u) \<and>
    h \<noteq> [] \<and> LookupPort services p \<noteq> None \<and> addr = JoinHostPort h p \<and>
    (SplitHostPort hp \<noteq> None \<or> (\<forall>c \<in> set hp. \<not> is_bracket c) \<longrightarrow>
       SplitHostPort addr = Some (h, p) \<and> (SplitHostPort hp = Some (h, p) \<or> p = ''80''))"
proof -
  from ParseTCP_addr_Inr [OF assms] obtain hp h p where hp: "if cut_str (trim_space s) ''://'' = None
      then hp = trim_space s
      else \<exists>u. url_Parse (trim_space s) = Inr u \<and> u_scheme u = ''http'' \<and> \<not> u_has_user u \<and>
        u_path u = [] \<and> u_rawquery u = [] \<and> u_fragment u = [] \<and> hp = u_host u"
    and ok: "host_and_port (trim_space s) hp = Inr (h, p)"
    and rest: "h \<noteq> []" "LookupPort services p \<noteq> None" "addr = JoinHostPort h p" by (elim exE conjE)
  have "SplitHostPort addr = Some (h, p)" if "SplitHostPort hp \<noteq> None \<or> (\<forall>c \<in> set hp. \<not> is_bracket c)"
    using host_and_port_roundtrip [OF ok that] rest(3) by simp
  moreover have "SplitHostPort hp = Some (h, p) \<or> p = ''80''" using host_and_port_Inr [OF ok] by blast
  ultimately show ?thesis using hp rest by blast
qed

theorem ParseTCP_accepts_witness:
  "ParseTCP_addr (\<lambda>_. Inl (ErrNew ''x'')) (\<lambda>_. None) '' db.test:5432 '' = Inr ''db.test:5432'' \<and>
   SplitHostPort ''db.test:5432'' = Some (''db.test'', ''5432'')"
proof -
  have a: "ParseTCP_addr (\<lambda>_. Inl (ErrNew ''x'')) (\<lambda>_. None) '' db.test:5432 '' = Inr ''db.test:5432''"
    by (simp add: ParseTCP_addr_def host_and_port_def literal_host_port)
  from ParseTCP_accepts [OF a] a show ?thesis by (auto simp: literal_host_port)
qed

text \<open>A malformed bracketed address slips through: \<open>ParseTCP\<close> accepts the text below although it is no
  \<open>host:port\<close>, and builds a backend whose address cannot be split, so every dial fails.\<close>

theorem ParseTCP_accepts_malformed:
  "ParseTCP_addr (\<lambda>_. Inl (ErrNew ''x'')) (\<lambda>_. None) ''[::1]:80:90'' = Inr ''[::1]:80:90]:80'' \<and>
   SplitHostPort ''[::1]:80:90'' = None \<and> SplitHostPort ''[::1]:80:90]:80'' = None"
  by (simp add: ParseTCP_addr_def host_and_port_def literal_malformed)

end
