(* ===== verification/Registry.thy ===== *)
theory Registry
  imports Parse_Tcp
begin

text \<open>
  \<open>registry.go\<close>: the registry's state and its operations. An operation that takes the registry's
  lock more than once is split into the sections between lock and unlock (\<open>Add_reserve\<close>,
  \<open>Add_publish\<close>, \<open>Remove_take\<close>, \<open>Close_take\<close>), so that the theory on interleavings can run the same
  definitions as separate steps; the operation itself composes them.

  Logging is left out, and so is the idle-connection pool of the shared HTTP transport.
\<close>

named_theorems go_registry "rules of the registry's operations"

section \<open>State\<close>

text \<open>\<open>bridgeSet\<close> of \<open>listenlocal.go\<close>: the local listeners, by identity, closed with the registry.\<close>

record bridgeSet =
  bs_ls :: "nat list"
  bs_closed :: bool

text \<open>
  A key with value \<open>None\<close> is the nil entry that reserves a name while its backend starts.
  \<open>r_done\<close> says that the \<open>done\<close> channel is closed, that is, that \<open>closeOnce\<close> has run.
\<close>

record 'x Registry =
  r_cfg :: "'x config"
  r_routes :: "(string \<times> 'x Route option) list"
  r_closed :: bool
  r_bridges :: bridgeSet
  r_done :: bool
  r_hasRewrites :: bool

definition registry_New :: "('x config \<Rightarrow> 'x config) list \<Rightarrow> 'x Registry" where
  "registry_New opts = \<lparr>r_cfg = New_config opts, r_routes = [], r_closed = False,
     r_bridges = \<lparr>bs_ls = [], bs_closed = False\<rparr>, r_done = False, r_hasRewrites = False\<rparr>"

definition route_key :: "'x Route \<Rightarrow> string" where
  "route_key rt = to_lower (rt_name rt)"

section \<open>Add\<close>

text \<open>The checks before the lock; the result is the route to register.\<close>

definition Add_check :: "'x config \<Rightarrow> string \<Rightarrow> 'x Backend option
    \<Rightarrow> ('x routeConfig \<Rightarrow> 'x routeConfig) list \<Rightarrow> goerr + 'x Route" where
  "Add_check cfg name b opts =
     (if name = [] then Inl (ErrNew ''portless: route name must not be empty'')
      else case b of
        None \<Rightarrow> Inl (ErrNew ''portless: backend must not be nil'')
      | Some be \<Rightarrow>
          (let rcfg = route_config cfg opts in
           case validateHostRewrite (rc_hostRewrite rcfg) of
             Some err \<Rightarrow> Inl (Errorf ''portless: add %q: %w'' [name] [err])
           | None \<Rightarrow> Inr (make_route name be rcfg (c_middleware cfg))))"

text \<open>The first locked section: reject, or reserve the name. The rewrite flag is set before it.\<close>

definition Add_reserve :: "'x Registry \<Rightarrow> 'x Route \<Rightarrow> goerr option \<times> 'x Registry" where
  "Add_reserve r0 rt =
     (let r = (if rc_hostRewrite (rt_cfg rt) \<noteq> [] then r0\<lparr>r_hasRewrites := True\<rparr> else r0) in
      if r_closed r then (Some (Sentinel ErrClosed), r)
      else if map_of (r_routes r) (route_key rt) \<noteq> None then
        (Some (Errorf ''portless: add %q: %w'' [rt_name rt] [Sentinel ErrRouteExists]), r)
      else (None, r\<lparr>r_routes := AList.update (route_key rt) None (r_routes r)\<rparr>))"

text \<open>Between the locks: install the event sink, then start the backend.\<close>

definition Add_start :: "'x Route \<Rightarrow> ctx \<Rightarrow> 'x world \<Rightarrow> goerr option \<times> 'x world" where
  "Add_start rt ctx w0 =
     (let w = (case bk_sink (rt_backend rt) of None \<Rightarrow> w0 | Some setSink \<Rightarrow> setSink (rt_name rt) w0) in
      case bk_start (rt_backend rt) of
        None \<Rightarrow> (None, w)
      | Some start \<Rightarrow>
          (case start ctx w of
             (None, w') \<Rightarrow> (None, w')
           | (Some err, w') \<Rightarrow>
               (Some (Errorf ''portless: start backend for %q: %w'' [rt_name rt] [err]), w')))"

definition Add_abort :: "'x Registry \<Rightarrow> 'x Route \<Rightarrow> 'x Registry" where
  "Add_abort r rt = r\<lparr>r_routes := AList.delete (route_key rt) (r_routes r)\<rparr>"

text \<open>The second locked section: publish the route, or find the registry closed.\<close>

definition Add_publish :: "'x Registry \<Rightarrow> 'x Route \<Rightarrow> bool \<times> 'x Registry" where
  "Add_publish r rt =
     (if r_closed r then (False, r\<lparr>r_routes := AList.delete (route_key rt) (r_routes r)\<rparr>)
      else (True, r\<lparr>r_routes := AList.update (route_key rt) (Some rt) (r_routes r)\<rparr>))"

definition backend_Stop :: "'x Backend \<Rightarrow> ctx \<Rightarrow> 'x world \<Rightarrow> goerr option \<times> 'x world" where
  "backend_Stop b ctx w = (case bk_stop b of None \<Rightarrow> (None, w) | Some stop \<Rightarrow> stop ctx w)"

definition stopBackend :: "'x Backend \<Rightarrow> 'x world \<Rightarrow> 'x world" where
  "stopBackend b w = snd (backend_Stop b Background w)"

definition Add :: "'x Registry \<Rightarrow> ctx \<Rightarrow> string \<Rightarrow> 'x Backend option
    \<Rightarrow> ('x routeConfig \<Rightarrow> 'x routeConfig) list \<Rightarrow> 'x world \<Rightarrow> (goerr + 'x Route) \<times> 'x Registry \<times> 'x world" where
  "Add r ctx name b opts w =
     (case Add_check (r_cfg r) name b opts of
        Inl err \<Rightarrow> (Inl err, r, w)
      | Inr rt \<Rightarrow>
          (case Add_reserve r rt of
             (Some err, r1) \<Rightarrow> (Inl err, r1, w)
           | (None, r1) \<Rightarrow>
               (case Add_start rt ctx w of
                  (Some err, w1) \<Rightarrow> (Inl err, Add_abort r1 rt, w1)
                | (None, w1) \<Rightarrow>
                    (case Add_publish r1 rt of
                       (False, r2) \<Rightarrow> (Inl (Sentinel ErrClosed), r2, stopBackend (rt_backend rt) w1)
                     | (True, r2) \<Rightarrow> (Inr rt, r2, emit (r_cfg r2) (event EventRouteAdded name) w1)))))"

section \<open>Remove, Lookup, Routes\<close>

definition Remove_take :: "'x Registry \<Rightarrow> string \<Rightarrow> 'x Route option \<times> 'x Registry" where
  "Remove_take r name =
     (case map_of (r_routes r) (to_lower name) of
        Some (Some rt) \<Rightarrow> (Some rt, r\<lparr>r_routes := AList.delete (to_lower name) (r_routes r)\<rparr>)
      | _ \<Rightarrow> (None, r))"

definition Remove :: "'x Registry \<Rightarrow> ctx \<Rightarrow> string \<Rightarrow> 'x world \<Rightarrow> goerr option \<times> 'x Registry \<times> 'x world" where
  "Remove r ctx name w =
     (case Remove_take r name of
        (None, r') \<Rightarrow> (Some (Errorf ''portless: remove %q: %w'' [name] [Sentinel ErrRouteNotFound]), r', w)
      | (Some rt, r') \<Rightarrow>
          (let w1 = emit (r_cfg r') (event EventRouteRemoved (rt_name rt)) w in
           case backend_Stop (rt_backend rt) ctx w1 of (err, w2) \<Rightarrow> (err, r', w2)))"

definition Lookup :: "'x Registry \<Rightarrow> string \<Rightarrow> 'x Route option" where
  "Lookup r name = (case map_of (r_routes r) (to_lower name) of Some (Some rt) \<Rightarrow> Some rt | _ \<Rightarrow> None)"

definition Routes :: "'x Registry \<Rightarrow> 'x Route list" where
  "Routes r = List.map_filter snd (r_routes r)"

text \<open>
  \<open>Registry.Ready\<close>: the routes are dialed by one goroutine each; \<open>outcome\<close> is what \<open>Route.Ready\<close>
  returned in the goroutine of a route.
\<close>

fun lookup_all :: "'x Registry \<Rightarrow> string list \<Rightarrow> goerr + 'x Route list" where
  "lookup_all r [] = Inr []"
| "lookup_all r (n # ns) =
     (case Lookup r n of
        None \<Rightarrow> Inl (Errorf ''portless: ready %q: %w'' [n] [Sentinel ErrRouteNotFound])
      | Some rt \<Rightarrow> (case lookup_all r ns of Inl e \<Rightarrow> Inl e | Inr rts \<Rightarrow> Inr (rt # rts)))"

definition Registry_Ready :: "'x Registry \<Rightarrow> string list \<Rightarrow> ('x Route \<Rightarrow> goerr option) \<Rightarrow> goerr option" where
  "Registry_Ready r names outcome =
     (case (if names = [] then Inr (Routes r) else lookup_all r names) of
        Inl e \<Rightarrow> Some e
      | Inr rts \<Rightarrow> errors_Join (map (\<lambda>rt. map_option (\<lambda>e. Errorf ''route %q: %w'' [rt_name rt] [e]) (outcome rt)) rts))"

section \<open>Close\<close>

definition bridges_closeAll :: "bridgeSet \<Rightarrow> nat list \<times> bridgeSet" where
  "bridges_closeAll s = (bs_ls s, s\<lparr>bs_ls := [], bs_closed := True\<rparr>)"

text \<open>The locked section of \<open>Close\<close>: mark the registry closed and take its route map away.\<close>

definition Close_take :: "'x Registry \<Rightarrow> (string \<times> 'x Route option) list \<times> 'x Registry" where
  "Close_take r = (r_routes r, r\<lparr>r_closed := True, r_routes := [], r_done := True\<rparr>)"

fun stop_routes :: "(string \<times> 'x Route option) list \<Rightarrow> 'x world \<Rightarrow> goerr list \<times> 'x world" where
  "stop_routes [] w = ([], w)"
| "stop_routes ((k, None) # rs) w = stop_routes rs w"
| "stop_routes ((k, Some rt) # rs) w =
     (case backend_Stop (rt_backend rt) Background w of
        (err, w1) \<Rightarrow>
          (case stop_routes rs w1 of
             (errs, w2) \<Rightarrow>
               ((case err of None \<Rightarrow> errs | Some e \<Rightarrow> Errorf ''stop %q: %w'' [rt_name rt] [e] # errs), w2)))"

definition Close :: "'x Registry \<Rightarrow> 'x world \<Rightarrow> goerr option \<times> 'x Registry \<times> 'x world" where
  "Close r w =
     (if r_done r then (errors_Join [], r, w)
      else
        (case Close_take r of
           (routes, r1) \<Rightarrow>
             (case bridges_closeAll (r_bridges r1) of
                (ls, bs) \<Rightarrow>
                  (let r2 = r1\<lparr>r_bridges := bs\<rparr>;
                       w1 = (w\<lparr>done_at := Some (now w)\<rparr>);
                       w2 = foldl (\<lambda>w l. close_listener l w) w1 ls in
                   case stop_routes routes w2 of
                     (errs, w3) \<Rightarrow> (errors_Join (map Some errs), r2, w3)))))"

section \<open>Dialing\<close>

definition DialContext :: "'x Registry \<Rightarrow> ctx \<Rightarrow> string \<Rightarrow> string \<Rightarrow> 'x world \<Rightarrow> ((goerr + conn) \<times> 'x world) option" where
  "DialContext r ctx network address w =
     (if r_closed r then Some (Inl (Sentinel ErrClosed), w)
      else case map_of (r_routes r) (to_lower (hostOf address)) of
        Some (Some rt) \<Rightarrow> dialRoute (r_cfg r) rt ctx network address w
      | _ \<Rightarrow>
          (case c_fallback (r_cfg r) of
             None \<Rightarrow> Some (Inl (Errorf ''portless: dial %q: %w'' [address] [Sentinel ErrRouteNotFound]), w)
           | Some fallback \<Rightarrow> Some (fallback ctx network address w)))"

definition addReadyCleanupTimeout :: int where
  "addReadyCleanupTimeout = 10 * nano_s"

text \<open>\<open>AddReady\<close> when no other goroutine changes the registry meanwhile.\<close>

definition AddReady :: "'x Registry \<Rightarrow> ctx \<Rightarrow> string \<Rightarrow> 'x Backend option
    \<Rightarrow> ('x routeConfig \<Rightarrow> 'x routeConfig) list \<Rightarrow> 'x world
    \<Rightarrow> ((goerr + 'x Route) \<times> 'x Registry \<times> 'x world) option" where
  "AddReady r ctx name b opts w =
     (case Add r ctx name b opts w of
        (Inl err, r1, w1) \<Rightarrow> Some (Inl err, r1, w1)
      | (Inr rt, r1, w1) \<Rightarrow>
          (case Route_Ready (r_cfg r1) rt ctx w1 of
             None \<Rightarrow> None
           | Some (None, w2) \<Rightarrow> Some (Inr rt, r1, w2)
           | Some (Some err, w2) \<Rightarrow>
               (let cleanupCtx = WithTimeout (WithoutCancel ctx) (now w2) addReadyCleanupTimeout in
                case Remove r1 cleanupCtx name w2 of (rerr, r2, w3) \<Rightarrow> Some (Inl err, r2, w3))))"

end
