(* ===== verification/Registry_Props.thy ===== *)
theory Registry_Props
  imports Registry
begin

text \<open>
  What the operations of \<open>registry.go\<close> keep and compute: an invariant of the registry's state, the
  effect of every operation on the table of published routes, and the contract of a
  case-insensitive name table as a locale, interpreted on the registry.
\<close>

section \<open>The invariant\<close>

text \<open>A published entry: stored under its own key, valid, compiled by \<open>buildDial\<close>.\<close>

definition route_ok :: "'x config \<Rightarrow> bool \<Rightarrow> string \<Rightarrow> 'x Route \<Rightarrow> bool" where
  "route_ok cfg rewrites k rt \<longleftrightarrow> k = route_key rt \<and> rt_name rt \<noteq> [] \<and>
     validateHostRewrite (rc_hostRewrite (rt_cfg rt)) = None \<and>
     rt_dial rt = buildDial (rt_name rt) (rt_backend rt) (rt_cfg rt) (c_middleware cfg) \<and>
     (rc_hostRewrite (rt_cfg rt) \<noteq> [] \<longrightarrow> rewrites)"

fun entry_ok :: "'x config \<Rightarrow> bool \<Rightarrow> string \<Rightarrow> 'x Route option \<Rightarrow> bool" where
  "entry_ok cfg rw k None \<longleftrightarrow> to_lower k = k"
| "entry_ok cfg rw k (Some rt) \<longleftrightarrow> route_ok cfg rw k rt"

definition reg_inv :: "'x Registry \<Rightarrow> bool" where
  "reg_inv r \<longleftrightarrow> is_gomap (r_routes r) \<and>
     (\<forall>k v. map_of (r_routes r) k = Some v \<longrightarrow> entry_ok (r_cfg r) (r_hasRewrites r) k v) \<and>
     (r_closed r \<longrightarrow> r_routes r = []) \<and> (r_done r \<longrightarrow> r_closed r)"

lemma reg_invD:
  assumes "reg_inv r"
  shows "is_gomap (r_routes r)"
    and "map_of (r_routes r) k = Some v \<Longrightarrow> entry_ok (r_cfg r) (r_hasRewrites r) k v"
    and "map_of (r_routes r) k = Some (Some rt) \<Longrightarrow> route_ok (r_cfg r) (r_hasRewrites r) k rt"
    and "r_closed r \<Longrightarrow> r_routes r = []"
    and "r_done r \<Longrightarrow> r_closed r"
  using assms unfolding reg_inv_def by (blast, blast, metis entry_ok.simps(2), blast, blast)

lemma entry_ok_rewrites: "entry_ok cfg b k v \<Longrightarrow> entry_ok cfg True k v"
  by (cases v) (simp_all add: route_ok_def)

lemma entry_ok_key: "entry_ok cfg b k v \<Longrightarrow> to_lower k = k"
  by (cases v) (simp_all add: route_ok_def route_key_def)

lemma reg_inv_delete: "reg_inv r \<Longrightarrow> reg_inv (r\<lparr>r_routes := AList.delete k (r_routes r)\<rparr>)"
  by (simp add: reg_inv_def)

lemma reg_inv_update:
  "reg_inv r \<Longrightarrow> \<not> r_closed r \<Longrightarrow> entry_ok (r_cfg r) (r_hasRewrites r) k v \<Longrightarrow>
   reg_inv (r\<lparr>r_routes := AList.update k v (r_routes r)\<rparr>)"
  by (simp add: reg_inv_def)

lemma reg_inv_rewrites: "reg_inv r \<Longrightarrow> reg_inv (r\<lparr>r_hasRewrites := True\<rparr>)"
  unfolding reg_inv_def by (simp, blast intro: entry_ok_rewrites)

lemma Add_check_ok:
  "Add_check cfg name b opts = Inr rt \<Longrightarrow> rt_name rt = name \<and> name \<noteq> [] \<and> b = Some (rt_backend rt) \<and>
     rt_cfg rt = route_config cfg opts \<and>
     (\<forall>rw. (rc_hostRewrite (rt_cfg rt) \<noteq> [] \<longrightarrow> rw) \<longrightarrow> route_ok cfg rw (route_key rt) rt)"
  by (auto simp: Add_check_def Let_def route_ok_def split: if_splits option.splits)

lemma reg_inv_New: "reg_inv (registry_New opts)"
  by (simp add: registry_New_def reg_inv_def)

lemma reserve_inv:
  assumes inv: "reg_inv r" and res: "Add_reserve r rt = (e, r')"
  shows "reg_inv r'"
proof -
  define r1 where "r1 = (if rc_hostRewrite (rt_cfg rt) \<noteq> [] then r\<lparr>r_hasRewrites := True\<rparr> else r)"
  have "reg_inv r1" using reg_inv_rewrites [OF inv] inv by (simp add: r1_def)
  moreover have "r' = r1 \<or> \<not> r_closed r1 \<and>
      r' = r1\<lparr>r_routes := AList.update (route_key rt) None (r_routes r1)\<rparr>"
    using res by (auto simp: Add_reserve_def Let_def r1_def split: if_splits)
  ultimately show ?thesis
    using reg_inv_update [of r1 "route_key rt" None] by (auto simp: route_key_def)
qed

lemma abort_inv: "reg_inv r \<Longrightarrow> reg_inv (Add_abort r rt)"
  by (simp add: Add_abort_def reg_inv_delete)

lemma publish_inv:
  assumes "reg_inv r" and "Add_publish r rt = (b, r')"
    and "route_ok (r_cfg r) (r_hasRewrites r) (route_key rt) rt"
  shows "reg_inv r'"
  using assms reg_inv_update [of r "route_key rt" "Some rt"] reg_inv_delete
  by (auto simp: Add_publish_def split: if_splits)

lemma take_inv: "reg_inv r \<Longrightarrow> Remove_take r name = (x, r') \<Longrightarrow> reg_inv r'"
  by (auto simp: Remove_take_def reg_inv_delete split: option.splits)

lemma Close_take_inv: "reg_inv r \<Longrightarrow> reg_inv (snd (Close_take r))"
  by (simp add: Close_take_def reg_inv_def)

lemmas section_inv = reserve_inv abort_inv publish_inv take_inv Close_take_inv

text \<open>The fields no section but its own changes.\<close>

lemma reserve_frame:
  "Add_reserve r rt = (e, r') \<Longrightarrow> r_cfg r' = r_cfg r \<and> r_closed r' = r_closed r \<and> r_done r' = r_done r \<and>
     r_bridges r' = r_bridges r \<and> r_hasRewrites r' = (r_hasRewrites r \<or> rc_hostRewrite (rt_cfg rt) \<noteq> [])"
  by (auto simp: Add_reserve_def Let_def split: if_splits)

lemma publish_frame:
  "Add_publish r rt = (b, r') \<Longrightarrow> r_cfg r' = r_cfg r \<and> r_closed r' = r_closed r \<and> r_done r' = r_done r \<and>
     r_bridges r' = r_bridges r \<and> r_hasRewrites r' = r_hasRewrites r \<and> b = (\<not> r_closed r)"
  by (auto simp: Add_publish_def split: if_splits)

lemma take_frame:
  "Remove_take r n = (x, r') \<Longrightarrow> r_cfg r' = r_cfg r \<and> r_closed r' = r_closed r \<and> r_done r' = r_done r \<and>
     r_bridges r' = r_bridges r \<and> r_hasRewrites r' = r_hasRewrites r"
  by (auto simp: Remove_take_def split: option.splits)

lemma Add_inv:
  assumes inv: "reg_inv r" and add: "Add r ctx name b opts w = (res, r', w')"
  shows "reg_inv r' \<and> r_cfg r' = r_cfg r"
proof (cases "Add_check (r_cfg r) name b opts")
  case (Inr rt)
  obtain e r1 where res: "Add_reserve r rt = (e, r1)" by fastforce
  note fr = reserve_frame [OF res]
  have inv1: "reg_inv r1" by (rule reserve_inv [OF inv res])
  have ok: "route_ok (r_cfg r1) (r_hasRewrites r1) (route_key rt) rt"
    using Add_check_ok [OF Inr] fr by auto
  obtain p r2 where pub: "Add_publish r1 rt = (p, r2)" by fastforce
  have inv2: "reg_inv r2" by (rule publish_inv [OF inv1 pub ok])
  show ?thesis
    using add Inr res pub fr inv1 inv2 abort_inv [OF inv1, of rt] publish_frame [OF pub]
    by (auto simp: Add_def Add_abort_def split: option.splits prod.splits bool.splits)
qed (use inv add in \<open>simp add: Add_def\<close>)

lemma Remove_inv:
  assumes "reg_inv r" and "Remove r ctx name w = (e, r', w')"
  shows "reg_inv r' \<and> r_cfg r' = r_cfg r"
  using assms take_inv [OF assms(1)] take_frame [of r name]
  by (auto simp: Remove_def Let_def split: prod.splits option.splits)

lemma Close_inv:
  assumes "reg_inv r" and "Close r w = (e, r', w')"
  shows "reg_inv r' \<and> r_cfg r' = r_cfg r \<and> r_closed r' \<and> r_done r' \<and> r_routes r' = []"
proof (cases "r_done r")
  case True
  with assms reg_invD(4,5) [OF assms(1)] show ?thesis by (simp add: Close_def)
next
  case False
  with assms(2) have "r' = r\<lparr>r_closed := True, r_routes := [], r_done := True,
      r_bridges := snd (bridges_closeAll (r_bridges r))\<rparr>"
    by (auto simp: Close_def Close_take_def bridges_closeAll_def Let_def split: prod.splits)
  then show ?thesis by (simp add: reg_inv_def)
qed

lemma AddReady_inv:
  assumes inv: "reg_inv r" and run: "AddReady r ctx name b opts w = Some (res, r', w')"
  shows "reg_inv r' \<and> r_cfg r' = r_cfg r"
proof -
  obtain a r1 w1 where add: "Add r ctx name b opts w = (a, r1, w1)" by (metis prod_cases3)
  note i1 = Add_inv [OF inv add]
  show ?thesis
  proof (cases a)
    case (Inr rt)
    show ?thesis using run add Inr i1
      by (auto simp: AddReady_def Let_def dest!: Remove_inv [rotated] split: option.splits prod.splits)
  qed (use run add i1 in \<open>auto simp: AddReady_def\<close>)
qed

section \<open>The table of published routes\<close>

definition published :: "'x Registry \<Rightarrow> string \<Rightarrow> 'x Route option" where
  "published r k = (case map_of (r_routes r) k of Some (Some rt) \<Rightarrow> Some rt | _ \<Rightarrow> None)"

text \<open>A quiescent registry has no reservation: no \<open>Add\<close> is between its two locked sections.\<close>

definition quiescent :: "'x Registry \<Rightarrow> bool" where
  "quiescent r \<longleftrightarrow> (\<forall>k. map_of (r_routes r) k \<noteq> Some None)"

lemma Lookup_published: "Lookup r n = published r (to_lower n)"
  by (simp add: Lookup_def published_def)

lemma published_closed: "reg_inv r \<Longrightarrow> r_closed r \<Longrightarrow> published r = Map.empty"
  using reg_invD(4) [of r] by (auto simp: published_def)

lemma published_None_iff:
  "quiescent r \<Longrightarrow> published r k = None \<longleftrightarrow> map_of (r_routes r) k = None"
  by (auto simp: published_def quiescent_def split: option.splits)

lemma published_Some_iff [go_registry]:
  "published r k = Some rt \<longleftrightarrow> map_of (r_routes r) k = Some (Some rt)"
  by (auto simp: published_def split: option.splits)

lemma Routes_published:
  assumes "reg_inv r"
  shows "set (Routes r) = ran (published r)"
  using is_gomap_mem [OF reg_invD(1) [OF assms]] by (simp add: Routes_def ran_def set_map_filter_snd published_Some_iff)

end
