(* ===== verification/Registry_Spec.thy ===== *)
theory Registry_Spec
  imports Registry_Props
begin

text \<open>
  What the registry promises to a client that uses it from one goroutine: a case-insensitive table
  of routes. The abstract state is a partial map (or nothing, once closed), the open bridge
  listeners and the world; reservations, the two lock sections and the representation of the map
  are gone. The registry refines it for every sequence of operations.
\<close>

type_synonym 'x table = "(string \<Rightarrow> 'x Route option) option \<times> nat list \<times> 'x world"

datatype 'x reg_op =
    OpAdd ctx string "'x Backend option" "('x routeConfig \<Rightarrow> 'x routeConfig) list"
  | OpRemove ctx string
  | OpLookup string
  | OpDial ctx string string
  | OpClose

datatype 'x reg_out =
    OutAdd "goerr + 'x Route"
  | OutErr "goerr option"
  | OutLookup "'x Route option"
  | OutDial "goerr + conn"
  | OutHang

fun reg_exec :: "'x Registry \<times> 'x world \<Rightarrow> 'x reg_op \<Rightarrow> 'x reg_out \<times> 'x Registry \<times> 'x world" where
  "reg_exec (r, w) (OpAdd ctx name b opts) =
     (case Add r ctx name b opts w of (res, r', w') \<Rightarrow> (OutAdd res, r', w'))"
| "reg_exec (r, w) (OpRemove ctx name) =
     (case Remove r ctx name w of (e, r', w') \<Rightarrow> (OutErr e, r', w'))"
| "reg_exec (r, w) (OpLookup name) = (OutLookup (Lookup r name), r, w)"
| "reg_exec (r, w) (OpDial ctx network address) =
     (case DialContext r ctx network address w of
        None \<Rightarrow> (OutHang, r, w) | Some (res, w') \<Rightarrow> (OutDial res, r, w'))"
| "reg_exec (r, w) OpClose = (case Close r w of (e, r', w') \<Rightarrow> (OutErr e, r', w'))"

text \<open>Stopping a set of routes in some order, as Go's \<open>range\<close> over a map does.\<close>

definition stop_in_order :: "'x Route list \<Rightarrow> 'x world \<Rightarrow> goerr list \<times> 'x world" where
  "stop_in_order rts = stop_routes (map (\<lambda>rt. (route_key rt, Some rt)) rts)"

inductive table_step :: "'x config \<Rightarrow> 'x table \<Rightarrow> 'x reg_op \<Rightarrow> 'x reg_out \<Rightarrow> 'x table \<Rightarrow> bool"
  for cfg where
  add_invalid: "Add_check cfg name b opts = Inl e \<Longrightarrow>
    table_step cfg (t, bs, w) (OpAdd ctx name b opts) (OutAdd (Inl e)) (t, bs, w)"
| add_closed: "Add_check cfg name b opts = Inr rt \<Longrightarrow>
    table_step cfg (None, bs, w) (OpAdd ctx name b opts) (OutAdd (Inl (Sentinel ErrClosed))) (None, bs, w)"
| add_exists: "Add_check cfg name b opts = Inr rt \<Longrightarrow> m (to_lower name) = Some old \<Longrightarrow>
    table_step cfg (Some m, bs, w) (OpAdd ctx name b opts)
      (OutAdd (Inl (Errorf ''portless: add %q: %w'' [name] [Sentinel ErrRouteExists]))) (Some m, bs, w)"
| add_fails: "Add_check cfg name b opts = Inr rt \<Longrightarrow> m (to_lower name) = None \<Longrightarrow>
    Add_start rt ctx w = (Some e, w1) \<Longrightarrow>
    table_step cfg (Some m, bs, w) (OpAdd ctx name b opts) (OutAdd (Inl e)) (Some m, bs, w1)"
| add_ok: "Add_check cfg name b opts = Inr rt \<Longrightarrow> m (to_lower name) = None \<Longrightarrow>
    Add_start rt ctx w = (None, w1) \<Longrightarrow>
    table_step cfg (Some m, bs, w) (OpAdd ctx name b opts) (OutAdd (Inr rt))
      (Some (m(to_lower name \<mapsto> rt)), bs, emit cfg (event EventRouteAdded name) w1)"
| remove_missing: "(case t of None \<Rightarrow> None | Some m \<Rightarrow> m (to_lower name)) = None \<Longrightarrow>
    table_step cfg (t, bs, w) (OpRemove ctx name)
      (OutErr (Some (Errorf ''portless: remove %q: %w'' [name] [Sentinel ErrRouteNotFound]))) (t, bs, w)"
| remove_ok: "m (to_lower name) = Some rt \<Longrightarrow>
    backend_Stop (rt_backend rt) ctx (emit cfg (event EventRouteRemoved (rt_name rt)) w) = (e, w1) \<Longrightarrow>
    table_step cfg (Some m, bs, w) (OpRemove ctx name) (OutErr e) (Some (m(to_lower name := None)), bs, w1)"
| lookup: "table_step cfg (t, bs, w) (OpLookup name)
      (OutLookup (case t of None \<Rightarrow> None | Some m \<Rightarrow> m (to_lower name))) (t, bs, w)"
| dial_closed: "table_step cfg (None, bs, w) (OpDial ctx nw addr) (OutDial (Inl (Sentinel ErrClosed))) (None, bs, w)"
| dial_unknown: "m (to_lower (hostOf addr)) = None \<Longrightarrow> c_fallback cfg = None \<Longrightarrow>
    table_step cfg (Some m, bs, w) (OpDial ctx nw addr)
      (OutDial (Inl (Errorf ''portless: dial %q: %w'' [addr] [Sentinel ErrRouteNotFound]))) (Some m, bs, w)"
| dial_fallback: "m (to_lower (hostOf addr)) = None \<Longrightarrow> c_fallback cfg = Some d \<Longrightarrow> d ctx nw addr w = (res, w1) \<Longrightarrow>
    table_step cfg (Some m, bs, w) (OpDial ctx nw addr) (OutDial res) (Some m, bs, w1)"
| dial_route: "m (to_lower (hostOf addr)) = Some rt \<Longrightarrow> dialRoute cfg rt ctx nw addr w = Some (res, w1) \<Longrightarrow>
    table_step cfg (Some m, bs, w) (OpDial ctx nw addr) (OutDial res) (Some m, bs, w1)"
| dial_hangs: "m (to_lower (hostOf addr)) = Some rt \<Longrightarrow> dialRoute cfg rt ctx nw addr w = None \<Longrightarrow>
    table_step cfg (Some m, bs, w) (OpDial ctx nw addr) OutHang (Some m, bs, w)"
| close_again: "table_step cfg (None, bs, w) OpClose (OutErr None) (None, bs, w)"
| close: "distinct (map route_key rts) \<Longrightarrow> set rts = ran m \<Longrightarrow>
    stop_in_order rts (foldl (\<lambda>w l. close_listener l w) (w\<lparr>done_at := Some (now w)\<rparr>) bs) = (errs, w1) \<Longrightarrow>
    table_step cfg (Some m, bs, w) OpClose (OutErr (errors_Join (map Some errs))) (None, [], w1)"

definition table_abs :: "'x Registry \<times> 'x world \<Rightarrow> 'x table" where
  "table_abs = (\<lambda>(r, w). (if r_closed r then None else Some (published r), bs_ls (r_bridges r), w))"

text \<open>
  Between two operations of one goroutine no name is reserved, and the registry is closed exactly
  when \<open>Close\<close> has run.
\<close>

definition table_ok :: "'x config \<Rightarrow> 'x Registry \<times> 'x world \<Rightarrow> bool" where
  "table_ok cfg = (\<lambda>(r, w). reg_inv r \<and> r_cfg r = cfg \<and> quiescent r \<and> (r_closed r \<longrightarrow> r_done r))"

lemma published_delete: "published (r\<lparr>r_routes := AList.delete k (r_routes r)\<rparr>) = (published r)(k := None)"
  by (rule ext) (simp add: published_def)

lemma published_update:
  "published (r\<lparr>r_routes := AList.update k (Some rt) (r_routes r)\<rparr>) = (published r)(k \<mapsto> rt)"
  by (rule ext) (simp add: published_def)

lemma published_reserve:
  "map_of (r_routes r) k = None \<Longrightarrow>
   published (r\<lparr>r_routes := AList.update k None (r_routes r)\<rparr>) = published r"
  by (rule ext) (simp add: published_def)

lemma quiescent_delete: "quiescent r \<Longrightarrow> quiescent (r\<lparr>r_routes := AList.delete k (r_routes r)\<rparr>)"
  by (simp add: quiescent_def)

lemma quiescent_update:
  "quiescent r \<Longrightarrow> quiescent (r\<lparr>r_routes := AList.update k (Some rt) (r_routes r)\<rparr>)"
  by (simp add: quiescent_def)

text \<open>
  What \<open>Add\<close> as a whole does to the table: nothing but the rewrite flag when it fails, one new entry
  when it succeeds.
\<close>

definition with_flag :: "'x Route \<Rightarrow> 'x Registry \<Rightarrow> 'x Registry" where
  "with_flag rt r = (if rc_hostRewrite (rt_cfg rt) \<noteq> [] then r\<lparr>r_hasRewrites := True\<rparr> else r)"

lemma with_flag_simps [simp]:
  "r_routes (with_flag rt r) = r_routes r" "r_closed (with_flag rt r) = r_closed r"
  "r_cfg (with_flag rt r) = r_cfg r" "r_bridges (with_flag rt r) = r_bridges r"
  "r_done (with_flag rt r) = r_done r"
  by (simp_all add: with_flag_def)

lemma AList_delete_fresh: "map_of m k = None \<Longrightarrow> AList.delete k m = m"
  by (induction m) (auto split: if_splits)

lemma AList_delete_update_fresh: "map_of m k = None \<Longrightarrow> AList.delete k (AList.update k v m) = m"
  by (induction m) (auto split: if_splits)

lemma AList_update_twice: "AList.update k v (AList.update k u m) = AList.update k v m"
  by (induction m) auto

lemma Add_value:
  "Add r ctx name b opts w =
     (case Add_check (r_cfg r) name b opts of
        Inl e \<Rightarrow> (Inl e, r, w)
      | Inr rt \<Rightarrow>
          if r_closed r then (Inl (Sentinel ErrClosed), with_flag rt r, w)
          else if map_of (r_routes r) (to_lower name) \<noteq> None then
            (Inl (Errorf ''portless: add %q: %w'' [name] [Sentinel ErrRouteExists]), with_flag rt r, w)
          else (case Add_start rt ctx w of
              (Some e, w1) \<Rightarrow> (Inl e, with_flag rt r, w1)
            | (None, w1) \<Rightarrow>
                (Inr rt, (with_flag rt r)\<lparr>r_routes := AList.update (to_lower name) (Some rt) (r_routes r)\<rparr>,
                 emit (r_cfg r) (event EventRouteAdded name) w1)))"
proof (cases "Add_check (r_cfg r) name b opts")
  case (Inr rt)
  have name: "rt_name rt = name" using Add_check_ok [OF Inr] by simp
  consider "r_closed r" | y where "\<not> r_closed r" "map_of (r_routes r) (to_lower name) = Some y"
    | "\<not> r_closed r" "map_of (r_routes r) (to_lower name) = None" by fastforce
  then show ?thesis
  proof cases
    case 3
    obtain e w1 where "Add_start rt ctx w = (e, w1)" by fastforce
    with 3 Inr name show ?thesis
      by (cases e) (auto simp: Add_def Add_reserve_def Add_publish_def Add_abort_def with_flag_def
          route_key_def AList_delete_update_fresh AList_update_twice Let_def)
  qed (use Inr name in \<open>auto simp: Add_def Add_reserve_def with_flag_def route_key_def Let_def\<close>)
qed (simp add: Add_def)

lemma quiescent_with_flag [simp]: "quiescent (with_flag rt r) = quiescent r"
  by (simp add: quiescent_def)

lemma published_with_flag [simp]: "published (with_flag rt r) = published r"
  by (rule ext) (simp add: published_def)

lemma published_add:
  "published ((with_flag rt r)\<lparr>r_routes := AList.update k (Some rt) (r_routes r)\<rparr>) = (published r)(k \<mapsto> rt)"
  by (rule ext) (simp add: published_def)

lemma Add_quiescent:
  assumes "quiescent r" and "Add r ctx name b opts w = (res, r', w')"
  shows "quiescent r' \<and> r_closed r' = r_closed r \<and> r_done r' = r_done r"
  using assms
  by (auto simp: Add_value quiescent_def split: sum.splits option.splits if_splits prod.splits)

lemma Add_simulates:
  assumes ok: "table_ok cfg (r, w)" and add: "Add r ctx name b opts w = (res, r', w')"
  shows "table_step cfg (table_abs (r, w)) (OpAdd ctx name b opts) (OutAdd res) (table_abs (r', w'))"
proof -
  from ok have cfg: "r_cfg r = cfg" and q: "quiescent r" by (simp_all add: table_ok_def)
  show ?thesis
  proof (cases "Add_check cfg name b opts")
    case (Inl e)
    then have "res = Inl e" "r' = r" "w' = w" using add cfg by (auto simp: Add_value)
    with table_step.add_invalid [OF Inl] show ?thesis by (auto simp: table_abs_def)
  next
    case (Inr rt)
    consider "r_closed r" | old where "\<not> r_closed r" "published r (to_lower name) = Some old"
      | "\<not> r_closed r" "published r (to_lower name) = None" by fastforce
    then show ?thesis
    proof cases
      case 1
      with add cfg Inr show ?thesis
        by (auto simp: Add_value table_abs_def intro: table_step.add_closed)
    next
      case 2
      with add cfg Inr show ?thesis
        by (auto simp: Add_value table_abs_def published_Some_iff intro!: table_step.add_exists)
    next
      case 3
      then have free: "map_of (r_routes r) (to_lower name) = None" by (simp add: published_None_iff [OF q])
      obtain e w1 where st: "Add_start rt ctx w = (e, w1)" by fastforce
      show ?thesis
      proof (cases e)
        case None
        have "res = Inr rt"
          and "r' = (with_flag rt r)\<lparr>r_routes := AList.update (to_lower name) (Some rt) (r_routes r)\<rparr>"
          and "w' = emit cfg (event EventRouteAdded name) w1"
          using add cfg Inr 3(1) free st None by (simp_all add: Add_value)
        with table_step.add_ok [where m = "published r", OF Inr 3(2) st [unfolded None]] 3(1) show ?thesis
          by (simp add: table_abs_def published_add)
      next
        case (Some err)
        have "res = Inl err" and "r' = with_flag rt r" and "w' = w1"
          using add cfg Inr 3(1) free st Some by (simp_all add: Add_value)
        with table_step.add_fails [where m = "published r", OF Inr 3(2) st [unfolded Some]] 3(1) show ?thesis
          by (simp add: table_abs_def)
      qed
    qed
  qed
qed

lemma Remove_value:
  "Remove r ctx name w =
     (case published r (to_lower name) of
        None \<Rightarrow> (Some (Errorf ''portless: remove %q: %w'' [name] [Sentinel ErrRouteNotFound]), r, w)
      | Some rt \<Rightarrow>
          (case backend_Stop (rt_backend rt) ctx (emit (r_cfg r) (event EventRouteRemoved (rt_name rt)) w) of
             (e, w1) \<Rightarrow> (e, r\<lparr>r_routes := AList.delete (to_lower name) (r_routes r)\<rparr>, w1)))"
  by (simp add: Remove_def Remove_take_def published_def Let_def split: option.split)

lemma Remove_simulates:
  assumes ok: "table_ok cfg (r, w)" and rm: "Remove r ctx name w = (e, r', w')"
  shows "table_step cfg (table_abs (r, w)) (OpRemove ctx name) (OutErr e) (table_abs (r', w'))"
proof (cases "published r (to_lower name)")
  case None
  with rm show ?thesis by (auto simp: Remove_value table_abs_def intro!: table_step.remove_missing)
next
  case (Some rt)
  from ok have inv: "reg_inv r" and cfg: "r_cfg r = cfg" by (simp_all add: table_ok_def)
  have op: "\<not> r_closed r" using Some published_closed [OF inv] by auto
  from rm Some cfg obtain "r' = r\<lparr>r_routes := AList.delete (to_lower name) (r_routes r)\<rparr>"
    and "backend_Stop (rt_backend rt) ctx (emit cfg (event EventRouteRemoved (rt_name rt)) w) = (e, w')"
    by (simp add: Remove_value split: prod.splits)
  with op Some show ?thesis
    by (simp add: table_abs_def published_delete table_step.remove_ok)
qed

lemma Lookup_value:
  "reg_inv r \<Longrightarrow> Lookup r name = (if r_closed r then None else published r (to_lower name))"
  by (auto simp: Lookup_published published_closed)

lemma Dial_value:
  "DialContext r ctx nw addr w =
     (if r_closed r then Some (Inl (Sentinel ErrClosed), w)
      else case published r (to_lower (hostOf addr)) of
        Some rt \<Rightarrow> dialRoute (r_cfg r) rt ctx nw addr w
      | None \<Rightarrow>
          (case c_fallback (r_cfg r) of
             None \<Rightarrow> Some (Inl (Errorf ''portless: dial %q: %w'' [addr] [Sentinel ErrRouteNotFound]), w)
           | Some d \<Rightarrow> Some (d ctx nw addr w)))"
  by (simp add: DialContext_def published_def split: option.split)

lemma dial_simulates:
  assumes ok: "table_ok cfg (r, w)" and ex: "reg_exec (r, w) (OpDial ctx nw addr) = (out, s')"
  shows "table_step cfg (table_abs (r, w)) (OpDial ctx nw addr) out (table_abs s') \<and> fst s' = r"
proof -
  from ok have cfg: "r_cfg r = cfg" by (simp add: table_ok_def)
  consider "r_closed r"
    | "\<not> r_closed r" "published r (to_lower (hostOf addr)) = None" "c_fallback cfg = None"
    | d where "\<not> r_closed r" "published r (to_lower (hostOf addr)) = None" "c_fallback cfg = Some d"
    | rt where "\<not> r_closed r" "published r (to_lower (hostOf addr)) = Some rt" by fastforce
  then show ?thesis
    by cases (use ex cfg in \<open>auto simp: Dial_value table_abs_def intro: table_step.intros
        split: option.splits prod.splits\<close>)
qed

lemma stop_routes_values: "stop_routes rs w = stop_in_order (List.map_filter snd rs) w"
proof (induction rs w rule: stop_routes.induct)
  case (3 k rt rs w)
  then show ?case by (auto simp: stop_in_order_def map_filter_def split: prod.splits)
qed (auto simp: stop_in_order_def map_filter_def)

lemma distinct_route_keys:
  assumes "is_gomap m" and "\<And>k rt. (k, Some rt) \<in> set m \<Longrightarrow> k = route_key rt"
  shows "distinct (map route_key (List.map_filter snd m))"
  using assms
proof (induction m)
  case (Cons x m)
  obtain k v where x: "x = (k, v)" by fastforce
  have IH: "distinct (map route_key (List.map_filter snd m))"
    using Cons by (auto simp: is_gomap_def)
  have "k \<notin> route_key ` set (List.map_filter snd m)"
  proof
    assume "k \<in> route_key ` set (List.map_filter snd m)"
    then obtain rt k' where "(k', Some rt) \<in> set m" "route_key rt = k"
      by (auto simp: set_map_filter_snd)
    moreover from this(1) have "k' = route_key rt" using Cons.prems(2) by simp
    ultimately show False using Cons.prems(1) x by (force simp: is_gomap_def)
  qed
  then show ?case using IH Cons.prems(2) [of k] x
    by (cases v) (auto simp: map_filter_def)
qed (simp add: map_filter_def)

lemma Close_value:
  "Close r w =
     (if r_done r then (None, r, w)
      else case stop_in_order (Routes r)
          (foldl (\<lambda>w l. close_listener l w) (w\<lparr>done_at := Some (now w)\<rparr>) (bs_ls (r_bridges r))) of
        (errs, w1) \<Rightarrow> (errors_Join (map Some errs),
          r\<lparr>r_closed := True, r_routes := [], r_done := True,
            r_bridges := \<lparr>bs_ls = [], bs_closed = True\<rparr>\<rparr>, w1))"
  by (simp add: Close_def Close_take_def bridges_closeAll_def Routes_def stop_routes_values Let_def
      errors_Join_def map_filter_def split: prod.split)

lemma Close_simulates:
  assumes ok: "table_ok cfg (r, w)" and cl: "Close r w = (e, r', w')"
  shows "table_step cfg (table_abs (r, w)) OpClose (OutErr e) (table_abs (r', w'))"
proof -
  from ok have inv: "reg_inv r" by (simp add: table_ok_def)
  show ?thesis
  proof (cases "r_done r")
    case True
    with cl reg_invD(5) [OF inv] show ?thesis
      by (auto simp: Close_value table_abs_def intro: table_step.close_again)
  next
    case False
    with ok have op: "\<not> r_closed r" by (auto simp: table_ok_def)
    let ?w = "foldl (\<lambda>w l. close_listener l w) (w\<lparr>done_at := Some (now w)\<rparr>) (bs_ls (r_bridges r))"
    obtain errs w1 where st: "stop_in_order (Routes r) ?w = (errs, w1)" by fastforce
    have "distinct (map route_key (Routes r))"
      using distinct_route_keys [OF reg_invD(1) [OF inv]] reg_invD(3) [OF inv]
      by (simp add: Routes_def is_gomap_mem [OF reg_invD(1) [OF inv]] route_ok_def)
    from table_step.close [OF this Routes_published [OF inv] st] show ?thesis
      using cl False op st by (auto simp: Close_value table_abs_def)
  qed
qed

lemma reg_exec_ok:
  assumes "table_ok cfg s" and "reg_exec s p = (out, s')"
  shows "table_ok cfg s'"
proof -
  obtain r w r' w' where s: "s = (r, w)" "s' = (r', w')" by (metis surj_pair)
  from assms(1) s have ok: "reg_inv r" "r_cfg r = cfg" "quiescent r" "r_closed r \<longrightarrow> r_done r"
    by (simp_all add: table_ok_def)
  show ?thesis
  proof (cases p)
    case (OpAdd ctx name b opts)
    with assms(2) s obtain res where "Add r ctx name b opts w = (res, r', w')" by (auto split: prod.splits)
    with Add_inv [OF ok(1) this] Add_quiescent [OF ok(3) this] ok s show ?thesis by (simp add: table_ok_def)
  next
    case (OpRemove ctx name)
    with assms(2) s obtain e where rm: "Remove r ctx name w = (e, r', w')" by (auto split: prod.splits)
    then have "r' = r \<or> r' = r\<lparr>r_routes := AList.delete (to_lower name) (r_routes r)\<rparr>"
      by (auto simp: Remove_value split: option.splits prod.splits)
    with Remove_inv [OF ok(1) rm] ok s quiescent_delete show ?thesis by (auto simp: table_ok_def)
  next
    case OpClose
    with assms(2) s obtain e where "Close r w = (e, r', w')" by (auto split: prod.splits)
    with Close_inv [OF ok(1) this] ok s show ?thesis by (simp add: table_ok_def quiescent_def)
  qed (use assms s in \<open>auto simp: table_ok_def split: option.splits prod.splits\<close>)
qed

interpretation registry_table: data_refinement "table_ok cfg" table_abs reg_exec "table_step cfg"
  for cfg
proof (unfold_locales, goal_cases)
  case (2 s p out s')
  obtain r w r' w' where s: "s = (r, w)" "s' = (r', w')" by (metis surj_pair)
  show ?case
  proof (cases p)
    case (OpDial ctx nw addr)
    with 2 s show ?thesis using dial_simulates [of cfg r w ctx nw addr out s'] by blast
  next
    case (OpLookup name)
    from 2 s have "reg_inv r" by (simp add: table_ok_def)
    note lk = Lookup_value [OF this, of name]
    have "table_step cfg (table_abs (r, w)) (OpLookup name)
      (OutLookup (case fst (table_abs (r, w)) of None \<Rightarrow> None | Some m \<Rightarrow> m (to_lower name))) (table_abs (r, w))"
      by (simp add: table_abs_def table_step.lookup)
    with 2 s OpLookup lk show ?thesis by (auto simp: table_abs_def split: if_splits)
  qed (use 2 s in \<open>auto split: prod.splits intro: Add_simulates Remove_simulates Close_simulates\<close>)
qed (rule reg_exec_ok)

lemma table_ok_New: "table_ok (New_config opts) (registry_New opts, w)"
  using reg_inv_New [of opts] by (simp add: table_ok_def quiescent_def) (simp add: registry_New_def)

lemma table_abs_New: "table_abs (registry_New opts, w) = (Some Map.empty, [], w)"
  by (auto simp: table_abs_def registry_New_def published_def)

section \<open>AddReady\<close>

lemma AddReady_value:
  assumes ok: "table_ok cfg (r, w)" and run: "AddReady r ctx name b opts w = Some (res, r', w')"
  shows "quiescent r' \<and> r_closed r' = r_closed r \<and>
    (case res of Inl e \<Rightarrow> published r' = published r
     | Inr rt \<Rightarrow> published r (to_lower name) = None \<and> published r' = (published r)(to_lower name \<mapsto> rt))"
proof -
  from ok have q: "quiescent r" and inv: "reg_inv r" by (simp_all add: table_ok_def)
  obtain a r1 w1 where add: "Add r ctx name b opts w = (a, r1, w1)" by (metis prod_cases3)
  have q1: "quiescent r1" "r_closed r1 = r_closed r" using Add_quiescent [OF q add] by simp_all
  show ?thesis
  proof (cases a)
    case (Inl e)
    have "published r1 = published r"
      using add Inl by (auto simp: Add_value split: sum.splits option.splits if_splits prod.splits)
    with run add Inl q1 show ?thesis by (auto simp: AddReady_def)
  next
    case (Inr rt)
    have free: "published r (to_lower name) = None"
      and p1: "published r1 = (published r)(to_lower name \<mapsto> rt)"
      using add Inr by (auto simp: Add_value published_None_iff [OF q] published_add
          split: sum.splits option.splits if_splits prod.splits)
    from run add Inr obtain e w2 where rd: "Route_Ready (r_cfg r1) rt ctx w1 = Some (e, w2)"
      by (auto simp: AddReady_def split: option.splits)
    show ?thesis
    proof (cases e)
      case None
      with run add Inr rd q1 free p1 show ?thesis by (auto simp: AddReady_def)
    next
      case (Some err)
      obtain re r2 w3 where rm: "Remove r1 (WithTimeout (WithoutCancel ctx) (now w2) addReadyCleanupTimeout) name w2
          = (re, r2, w3)" by (metis prod_cases3)
      have r2: "r2 = r1\<lparr>r_routes := AList.delete (to_lower name) (r_routes r1)\<rparr>"
        using rm p1 by (auto simp: Remove_value split: prod.splits)
      have "(published r)(to_lower name := None) = published r" using free by auto
      moreover have "res = Inl err" "r' = r2" using run add Inr rd Some rm by (auto simp: AddReady_def Let_def)
      ultimately show ?thesis using q1 quiescent_delete [OF q1(1)] by (simp add: r2 published_delete p1)
    qed
  qed
qed

text \<open>Without reservations the whole route map is known from the published routes.\<close>

lemma quiescent_map_of: "quiescent r \<Longrightarrow> map_of (r_routes r) k = map_option Some (published r k)"
  using published_None_iff [of r k] by (auto simp: published_def split: option.splits)

section \<open>What the published routes become\<close>

lemma Add_published:
  assumes "quiescent r" and "Add r ctx name b opts w = (res, r', w')"
  shows "case res of
      Inl e \<Rightarrow> published r' = published r
    | Inr rt \<Rightarrow> published r (to_lower name) = None \<and> published r' = (published r)(to_lower name \<mapsto> rt) \<and>
        rt_name rt = name \<and> b = Some (rt_backend rt)"
proof (cases "Add_check (r_cfg r) name b opts")
  case (Inr rt)
  have chk: "rt_name rt = name" "b = Some (rt_backend rt)" using Add_check_ok [OF Inr] by simp_all
  show ?thesis
  proof (cases "\<not> r_closed r \<and> map_of (r_routes r) (to_lower name) = None")
    case True
    obtain e w1 where "Add_start rt ctx w = (e, w1)" by fastforce
    with assms(2) Inr True have "(res, r') = (case e of Some err \<Rightarrow> (Inl err, with_flag rt r)
        | None \<Rightarrow> (Inr rt, (with_flag rt r)\<lparr>r_routes := AList.update (to_lower name) (Some rt) (r_routes r)\<rparr>))"
      by (cases e) (simp_all add: Add_value)
    with True chk show ?thesis
      by (cases e) (simp_all add: published_None_iff [OF assms(1)] published_add)
  next
    case False
    with assms(2) Inr show ?thesis by (auto simp: Add_value split: if_splits)
  qed
next
  case (Inl e)
  with assms(2) have "res = Inl e" "r' = r" by (simp_all add: Add_value)
  then show ?thesis by simp
qed

lemma Remove_published:
  assumes "Remove r ctx name w = (e, r', w')"
  shows "published r' = (published r)(to_lower name := None) \<and>
    (published r (to_lower name) = None \<longrightarrow>
       r' = r \<and> w' = w \<and> (\<exists>m. e = Some (Errorf m [name] [Sentinel ErrRouteNotFound])))"
proof (cases "published r (to_lower name)")
  case None
  then have "(published r)(to_lower name := None) = published r" by auto
  with assms None show ?thesis by (auto simp: Remove_value)
next
  case (Some rt)
  with assms show ?thesis by (auto simp: Remove_value published_delete split: prod.splits)
qed

section \<open>Properties\<close>

text \<open>C4: The registry refines a case-insensitive table of routes: for every sequence of \<open>Add\<close>, \<open>Remove\<close>,
  \<open>Lookup\<close>, \<open>DialContext\<close> and \<open>Close\<close> calls on a new registry, what the calls return, what they do to the
  world and the routes they leave are those of the abstract table (duplicate names refused, a failed start
  leaving no trace, nothing dialable after \<open>Close\<close>, every published backend stopped once by it).\<close>

theorem registry_refines_table:
  "spec_run (table_step (New_config opts)) (Some Map.empty, [], w) ops
     (fst (exec_all reg_exec (registry_New opts, w) ops))
     (table_abs (snd (exec_all reg_exec (registry_New opts, w) ops)))"
  using registry_table.run_refines [OF table_ok_New [of opts w], of ops] by (simp add: table_abs_New)

text \<open>C20: \<open>AddReady\<close> is transactional when no other goroutine touches the registry: an error, whether the name
  was taken, the backend did not start or the route never became ready, leaves the whole route map as it
  was, with no reservation left behind, so a name that was free can be reserved by the next \<open>Add\<close>; success adds exactly
  one route, under a name that was free.\<close>

theorem AddReady_transactional:
  assumes "exec_all reg_exec (registry_New ropts, w0) ops = (outs, r, w)"
    and "AddReady r ctx name b opts w = Some (res, r', w')"
  shows "case res of
      Inl e \<Rightarrow> map_of (r_routes r') = map_of (r_routes r) \<and>
        (\<not> r_closed r \<and> map_of (r_routes r) (to_lower name) = None \<longrightarrow>
           (\<forall>rt. rt_name rt = name \<longrightarrow> fst (Add_reserve r' rt) = None))
    | Inr rt \<Rightarrow> map_of (r_routes r) (to_lower name) = None \<and>
        map_of (r_routes r') = (map_of (r_routes r))(to_lower name \<mapsto> Some rt)"
proof -
  have "table_ok (New_config ropts) (r, w)"
    using registry_table.run_refines [OF table_ok_New assms(1)] by simp
  then have q: "quiescent r" by (simp add: table_ok_def)
  note v = AddReady_value [OF \<open>table_ok (New_config ropts) (r, w)\<close> assms(2)]
  then have m: "map_of (r_routes r') = (\<lambda>k. map_option Some (published r' k))" "map_of (r_routes r) = (\<lambda>k. map_option Some (published r k))"
    using q quiescent_map_of by blast+
  show ?thesis
    using v by (cases res) (auto simp: m Add_reserve_def route_key_def Let_def)
qed

theorem AddReady_transactional_witness:
  "\<exists>e r' w'. AddReady (registry_New [WithEventHandler log_handler]) Background ''a'' (Some (rt_backend demo_route)) []
     demo_world = Some (Inl e, r', w') \<and> map_of (r_routes r') ''a'' = None"
proof -
  let ?r = "registry_New [WithEventHandler log_handler]"
  let ?b = "rt_backend demo_route"
  have r: "r_cfg ?r = demo_cfg" "r_closed ?r = False" "r_routes ?r = []" "c_middleware demo_cfg = []"
    by (simp_all add: registry_New_def demo_cfg_def New_config_def WithEventHandler_def Let_def)
  have "Add_check demo_cfg ''a'' (Some ?b) [] = Inr demo_route"
    by (simp add: Add_check_def demo_route_def r route_config_def validateHostRewrite_def Let_def)
  moreover have "Add_start demo_route ctx w = (None, w)" for ctx w
    by (simp add: Add_start_def demo_route_def simple_backend_def)
  ultimately obtain r1 w1 where add: "Add ?r Background ''a'' (Some ?b) [] demo_world = (Inr demo_route, r1, w1)"
    and "r_cfg r1 = demo_cfg" by (simp add: Add_value r)
  then obtain e w2 where "Route_Ready (r_cfg r1) demo_route Background w1 = Some (Some e, w2)"
    using demo_dial [of "''tcp''" "JoinHostPort (rt_name demo_route) (itoa (ready_port demo_route))" w1]
    by (auto simp: Route_Ready_def)
  with add obtain r' w' where run:
    "AddReady ?r Background ''a'' (Some ?b) [] demo_world = Some (Inl e, r', w')"
    by (fastforce simp: AddReady_def Let_def split: prod.splits)
  have "exec_all reg_exec (?r, demo_world) [] = ([], ?r, demo_world)" by simp
  from AddReady_transactional [OF this run] have "map_of (r_routes r') = map_of (r_routes ?r)" by simp
  then have "map_of (r_routes r') ''a'' = None" by (simp add: r)
  with run show ?thesis by blast
qed

text \<open>\<open>Close\<close> makes the registry unusable for good: afterwards nothing can be looked up or dialed, adding a
  valid route fails with \<open>ErrClosed\<close> without starting its backend, and closing again does nothing.\<close>

theorem Close_is_final:
  assumes "exec_all reg_exec (registry_New ropts, w0) ops = (outs, r, w)" and "Close r w = (e, r', w')"
  shows "Lookup r' n = None \<and> Routes r' = [] \<and>
    DialContext r' ctx nw addr v = Some (Inl (Sentinel ErrClosed), v) \<and>
    Close r' v = (None, r', v) \<and>
    (\<forall>rt. Add_check (r_cfg r') n b opts = Inr rt \<longrightarrow>
      (\<exists>r''. Add r' ctx n b opts v = (Inl (Sentinel ErrClosed), r'', v) \<and> r_routes r'' = []))"
proof -
  have "table_ok (New_config ropts) (r, w)"
    using registry_table.run_refines [OF table_ok_New assms(1)] by simp
  then have "reg_inv r" by (simp add: table_ok_def)
  from Close_inv [OF this assms(2)] show ?thesis
    by (auto simp: Lookup_def Routes_def map_filter_def Dial_value Close_value Add_value)
qed

theorem Close_is_final_witness:
  "\<exists>r'. Close (registry_New []) demo_world = (None, r', demo_world\<lparr>done_at := Some 5\<rparr>) \<and>
     DialContext r' Background ''tcp'' ''a:1'' demo_world = Some (Inl (Sentinel ErrClosed), demo_world)"
proof -
  let ?r = "registry_New [] :: Event list Registry"
  have "\<exists>r'. Close ?r demo_world = (None, r', demo_world\<lparr>done_at := Some 5\<rparr>)"
    by (simp add: Close_value registry_New_def Routes_def stop_in_order_def map_filter_def errors_Join_def demo_world_def)
  then obtain r' where cl: "Close ?r demo_world = (None, r', demo_world\<lparr>done_at := Some 5\<rparr>)" by blast
  have "exec_all reg_exec (?r, demo_world) [] = ([], ?r, demo_world)" by simp
  from Close_is_final [OF this cl] cl show ?thesis by blast
qed

end
