(* ===== verification/Registry_Conc.thy ===== *)
theory Registry_Conc
  imports Registry_Spec "HOL-Library.Multiset"
begin

text \<open>
  The registry under concurrent callers. \<open>Add\<close> releases the lock while a backend starts, \<open>Remove\<close> and
  \<open>Close\<close> stop backends after they released it, and \<open>AddReady\<close> waits without it: each of these is a
  task with a program point between two locked sections, and a step of the system is one section
  (the definitions \<open>Add_reserve\<close>, \<open>Add_abort\<close>, \<open>Add_publish\<close>, \<open>Remove_take\<close>, \<open>Close_take\<close> that the
  operations of \<open>registry.go\<close> are composed of) or the return of a \<open>Start\<close>, \<open>Stop\<close> or \<open>Ready\<close> call.
  Tasks take steps in any order, with any outcome of the calls.

  \<open>s_live\<close> is a ghost: the backends that were started (a backend without \<open>Start\<close> counts once its
  \<open>Add\<close> gets that far) and not stopped since, by identity, with multiplicity.
\<close>

datatype 'x task =
    Reserved "'x Route"      \<comment> \<open>\<open>Add\<close>: name reserved, \<open>Start\<close> running\<close>
  | StartFailed "'x Route"   \<comment> \<open>\<open>Add\<close>: \<open>Start\<close> failed, the reservation still stands\<close>
  | Started "'x Route"       \<comment> \<open>\<open>Add\<close>: \<open>Start\<close> succeeded, not yet published\<close>
  | Orphan "'x Route"        \<comment> \<open>\<open>Add\<close>: found the registry closed, \<open>stopBackend\<close> to run\<close>
  | Waiting "'x Route"       \<comment> \<open>\<open>AddReady\<close>: published, \<open>Ready\<close> running\<close>
  | Stopping "'x Route"      \<comment> \<open>\<open>Remove\<close>: route taken, \<open>Stop\<close> to run\<close>
  | Closing "'x Route list"  \<comment> \<open>\<open>Close\<close>: routes still to stop\<close>

record 'x sys =
  s_reg :: "'x Registry"
  s_pend :: "'x task multiset"
  s_live :: "nat multiset"

abbreviation rt_id :: "'x Route \<Rightarrow> nat" where
  "rt_id rt \<equiv> bk_id (rt_backend rt)"

inductive sys_step :: "'x sys \<Rightarrow> 'x sys \<Rightarrow> bool" where
  reject: "Add_check (r_cfg r) name b opts = Inr rt \<Longrightarrow> Add_reserve r rt = (Some e, r') \<Longrightarrow>
    sys_step \<lparr>s_reg = r, s_pend = T, s_live = L\<rparr> \<lparr>s_reg = r', s_pend = T, s_live = L\<rparr>"
| reserve: "Add_check (r_cfg r) name b opts = Inr rt \<Longrightarrow> Add_reserve r rt = (None, r') \<Longrightarrow>
    sys_step \<lparr>s_reg = r, s_pend = T, s_live = L\<rparr> \<lparr>s_reg = r', s_pend = add_mset (Reserved rt) T, s_live = L\<rparr>"
| start_ok: "sys_step \<lparr>s_reg = r, s_pend = add_mset (Reserved rt) T, s_live = L\<rparr>
    \<lparr>s_reg = r, s_pend = add_mset (Started rt) T, s_live = add_mset (rt_id rt) L\<rparr>"
| start_fails: "sys_step \<lparr>s_reg = r, s_pend = add_mset (Reserved rt) T, s_live = L\<rparr>
    \<lparr>s_reg = r, s_pend = add_mset (StartFailed rt) T, s_live = L\<rparr>"
| abort: "sys_step \<lparr>s_reg = r, s_pend = add_mset (StartFailed rt) T, s_live = L\<rparr>
    \<lparr>s_reg = Add_abort r rt, s_pend = T, s_live = L\<rparr>"
| publish: "Add_publish r rt = (True, r') \<Longrightarrow> T' = T \<or> T' = add_mset (Waiting rt) T \<Longrightarrow>
    sys_step \<lparr>s_reg = r, s_pend = add_mset (Started rt) T, s_live = L\<rparr> \<lparr>s_reg = r', s_pend = T', s_live = L\<rparr>"
| publish_closed: "Add_publish r rt = (False, r') \<Longrightarrow>
    sys_step \<lparr>s_reg = r, s_pend = add_mset (Started rt) T, s_live = L\<rparr>
      \<lparr>s_reg = r', s_pend = add_mset (Orphan rt) T, s_live = L\<rparr>"
| orphan_stop: "sys_step \<lparr>s_reg = r, s_pend = add_mset (Orphan rt) T, s_live = L\<rparr>
    \<lparr>s_reg = r, s_pend = T, s_live = L - {#rt_id rt#}\<rparr>"
| ready_ok: "sys_step \<lparr>s_reg = r, s_pend = add_mset (Waiting rt) T, s_live = L\<rparr>
    \<lparr>s_reg = r, s_pend = T, s_live = L\<rparr>"
| ready_fails: "Remove_take r (rt_name rt) = (Some rt', r') \<Longrightarrow>
    sys_step \<lparr>s_reg = r, s_pend = add_mset (Waiting rt) T, s_live = L\<rparr>
      \<lparr>s_reg = r', s_pend = add_mset (Stopping rt') T, s_live = L\<rparr>"
| ready_fails_gone: "Remove_take r (rt_name rt) = (None, r') \<Longrightarrow>
    sys_step \<lparr>s_reg = r, s_pend = add_mset (Waiting rt) T, s_live = L\<rparr> \<lparr>s_reg = r', s_pend = T, s_live = L\<rparr>"
| remove: "Remove_take r name = (Some rt, r') \<Longrightarrow>
    sys_step \<lparr>s_reg = r, s_pend = T, s_live = L\<rparr> \<lparr>s_reg = r', s_pend = add_mset (Stopping rt) T, s_live = L\<rparr>"
| remove_stop: "sys_step \<lparr>s_reg = r, s_pend = add_mset (Stopping rt) T, s_live = L\<rparr>
    \<lparr>s_reg = r, s_pend = T, s_live = L - {#rt_id rt#}\<rparr>"
| close: "\<not> r_done r \<Longrightarrow> Close_take r = (m, r') \<Longrightarrow>
    sys_step \<lparr>s_reg = r, s_pend = T, s_live = L\<rparr>
      \<lparr>s_reg = r', s_pend = add_mset (Closing (List.map_filter snd m)) T, s_live = L\<rparr>"
| close_stop: "sys_step \<lparr>s_reg = r, s_pend = add_mset (Closing (rt # rts)) T, s_live = L\<rparr>
    \<lparr>s_reg = r, s_pend = add_mset (Closing rts) T, s_live = L - {#rt_id rt#}\<rparr>"
| close_end: "sys_step \<lparr>s_reg = r, s_pend = add_mset (Closing []) T, s_live = L\<rparr>
    \<lparr>s_reg = r, s_pend = T, s_live = L\<rparr>"

definition sys_init :: "'x sys \<Rightarrow> bool" where
  "sys_init s \<longleftrightarrow> (\<exists>opts. s = \<lparr>s_reg = registry_New opts, s_pend = {#}, s_live = {#}\<rparr>)"

section \<open>The invariant\<close>

text \<open>The routes whose running backend a task is responsible for.\<close>

fun task_owns :: "'x task \<Rightarrow> 'x Route multiset" where
  "task_owns (Started rt) = {#rt#}"
| "task_owns (Orphan rt) = {#rt#}"
| "task_owns (Stopping rt) = {#rt#}"
| "task_owns (Closing rts) = mset rts"
| "task_owns (Reserved rt) = {#}"
| "task_owns (StartFailed rt) = {#}"
| "task_owns (Waiting rt) = {#}"

text \<open>The route of an \<open>Add\<close> that holds a reservation.\<close>

fun task_reserves :: "'x task \<Rightarrow> 'x Route multiset" where
  "task_reserves (Reserved rt) = {#rt#}"
| "task_reserves (StartFailed rt) = {#rt#}"
| "task_reserves (Started rt) = {#rt#}"
| "task_reserves (Orphan rt) = {#}"
| "task_reserves (Waiting rt) = {#}"
| "task_reserves (Stopping rt) = {#}"
| "task_reserves (Closing rts) = {#}"

definition owned :: "'x task multiset \<Rightarrow> 'x Route multiset" where
  "owned T = \<Sum>\<^sub># (image_mset task_owns T)"

definition reserved :: "'x task multiset \<Rightarrow> 'x Route multiset" where
  "reserved T = \<Sum>\<^sub># (image_mset task_reserves T)"

lemma owned_simps [simp]: "owned {#} = {#}" "owned (add_mset t T) = task_owns t + owned T"
  by (simp_all add: owned_def)

lemma reserved_simps [simp]: "reserved {#} = {#}" "reserved (add_mset t T) = task_reserves t + reserved T"
  by (simp_all add: reserved_def)

text \<open>
  The reservations in the table are exactly those of the tasks that hold one, one task each; every
  running backend belongs to one published route or to one task that will publish or stop it.
\<close>

definition reservations_ok :: "'x Registry \<Rightarrow> 'x Route multiset \<Rightarrow> bool" where
  "reservations_ok r R \<longleftrightarrow>
     (\<forall>rt \<in># R. route_ok (r_cfg r) (r_hasRewrites r) (route_key rt) rt) \<and>
     (\<forall>k. count (image_mset route_key R) k \<le> 1) \<and>
     (\<not> r_closed r \<longrightarrow> (\<forall>k. map_of (r_routes r) k = Some None \<longleftrightarrow> k \<in># image_mset route_key R))"

definition sys_inv :: "'x sys \<Rightarrow> bool" where
  "sys_inv s \<longleftrightarrow> reg_inv (s_reg s) \<and> reservations_ok (s_reg s) (reserved (s_pend s)) \<and>
     s_live s = image_mset rt_id (mset (Routes (s_reg s)) + owned (s_pend s))"

section \<open>What each section does to the published routes\<close>

lemma routes_reserve: "map_of m k = None \<Longrightarrow> List.map_filter snd (AList.update k None m) = List.map_filter snd m"
  by (induction m) (auto simp: map_filter_def split: if_splits)

lemma routes_abort:
  "is_gomap m \<Longrightarrow> map_of m k \<in> {None, Some None} \<Longrightarrow>
   List.map_filter snd (AList.delete k m) = List.map_filter snd m"
proof (induction m)
  case (Cons x m)
  then have "fst x = k \<Longrightarrow> AList.delete k m = m"
    by (intro AList_delete_fresh) (auto simp: is_gomap_def map_of_eq_None_iff)
  with Cons show ?case by (cases x) (auto simp: map_filter_def is_gomap_def split: if_splits)
qed simp

lemma routes_publish:
  "is_gomap m \<Longrightarrow> map_of m k = Some None \<Longrightarrow>
   mset (List.map_filter snd (AList.update k (Some rt) m)) = add_mset rt (mset (List.map_filter snd m))"
  by (induction m) (auto simp: map_filter_def is_gomap_def split: if_splits)

lemma routes_take:
  "is_gomap m \<Longrightarrow> map_of m k = Some (Some rt) \<Longrightarrow>
   mset (List.map_filter snd m) = add_mset rt (mset (List.map_filter snd (AList.delete k m)))"
proof (induction m)
  case (Cons x m)
  then have "fst x = k \<Longrightarrow> AList.delete k m = m"
    by (intro AList_delete_fresh) (auto simp: is_gomap_def map_of_eq_None_iff)
  with Cons show ?case by (cases x) (auto simp: map_filter_def is_gomap_def split: if_splits)
qed simp

lemma reservations_distinct:
  assumes "reservations_ok r (add_mset rt R)"
  shows "route_key rt \<notin># image_mset route_key R"
proof -
  have "count (image_mset route_key (add_mset rt R)) (route_key rt) \<le> 1"
    using assms unfolding reservations_ok_def by blast
  then have "count (image_mset route_key R) (route_key rt) = 0" by simp
  then show ?thesis by (simp only: not_in_iff)
qed

text \<open>A reservation that ends: its entry is deleted or published.\<close>

lemma reservations_end:
  assumes ok: "reservations_ok r (add_mset rt R)"
    and cfg: "r_cfg r' = r_cfg r" "r_hasRewrites r' = r_hasRewrites r" "r_closed r' = r_closed r"
    and routes: "\<not> r_closed r \<Longrightarrow> map_of (r_routes r') = (map_of (r_routes r))(route_key rt := v)"
    and v: "v \<noteq> Some None"
  shows "reservations_ok r' R"
proof -
  from ok have ok': "\<forall>x \<in># add_mset rt R. route_ok (r_cfg r) (r_hasRewrites r) (route_key x) x"
      "\<forall>k. count (image_mset route_key (add_mset rt R)) k \<le> 1"
      "\<not> r_closed r \<longrightarrow> (\<forall>k. map_of (r_routes r) k = Some None \<longleftrightarrow> k \<in># image_mset route_key (add_mset rt R))"
    unfolding reservations_ok_def by (blast, blast, blast)
  have "count (image_mset route_key R) k \<le> 1" for k
    using ok'(2) [rule_format, of k] by (simp split: if_splits)
  moreover have "map_of (r_routes r') k = Some None \<longleftrightarrow> k \<in># image_mset route_key R" if "\<not> r_closed r" for k
    using ok'(3) that v reservations_distinct [OF ok] by (auto simp: routes)
  ultimately show ?thesis using ok'(1) by (simp add: reservations_ok_def cfg)
qed

lemma reservations_same:
  assumes "reservations_ok r R"
    and "r_cfg r' = r_cfg r" and "r_hasRewrites r \<longrightarrow> r_hasRewrites r'"
    and "\<not> r_closed r' \<Longrightarrow> \<not> r_closed r"
    and "\<And>k. \<not> r_closed r' \<Longrightarrow> map_of (r_routes r') k = Some None \<longleftrightarrow> map_of (r_routes r) k = Some None"
  shows "reservations_ok r' R"
proof -
  have "route_ok (r_cfg r) (r_hasRewrites r') k rt" if "route_ok (r_cfg r) (r_hasRewrites r) k rt" for k rt
    using that assms(3) by (auto simp: route_ok_def)
  then show ?thesis using assms unfolding reservations_ok_def by simp
qed

lemma reserve_cases:
  assumes "Add_reserve r rt = (e, r')"
  shows "(e = None \<longleftrightarrow> \<not> r_closed r \<and> map_of (r_routes r) (route_key rt) = None) \<and>
    (case e of Some _ \<Rightarrow> r' = with_flag rt r
     | None \<Rightarrow> r' = (with_flag rt r)\<lparr>r_routes := AList.update (route_key rt) None (r_routes r)\<rparr>)"
  using assms by (auto simp: Add_reserve_def with_flag_def Let_def split: if_splits)

lemma with_flag_hasRewrites: "r_hasRewrites (with_flag rt r) = (r_hasRewrites r \<or> rc_hostRewrite (rt_cfg rt) \<noteq> [])"
  by (simp add: with_flag_def)

lemma reservations_new:
  assumes ok: "reservations_ok r R" and op: "\<not> r_closed r"
    and free: "map_of (r_routes r) (route_key rt) = None"
    and rt: "Add_check (r_cfg r) name b opts = Inr rt"
  shows "reservations_ok ((with_flag rt r)\<lparr>r_routes := AList.update (route_key rt) None (r_routes r)\<rparr>)
    (add_mset rt R)"
proof -
  have "map_of (r_routes r) (route_key rt) = Some None \<longleftrightarrow> route_key rt \<in># image_mset route_key R"
    using ok op unfolding reservations_ok_def by blast
  with free have "route_key rt \<notin># image_mset route_key R" by simp
  note fresh = this
  then have "count (image_mset route_key R) (route_key rt) = 0" by (simp only: not_in_iff)
  then have "count (image_mset route_key (add_mset rt R)) k \<le> 1" for k
    using ok unfolding reservations_ok_def by auto
  moreover have "route_ok (r_cfg r) (r_hasRewrites (with_flag rt r)) (route_key rt) rt"
    using Add_check_ok [OF rt] by (simp add: with_flag_hasRewrites)
  moreover have "route_ok (r_cfg r) (r_hasRewrites (with_flag rt r)) (route_key x) x" if "x \<in># R" for x
    using ok that by (auto simp: reservations_ok_def route_ok_def with_flag_hasRewrites)
  moreover have "map_of (r_routes r) k = Some None \<longleftrightarrow> k \<in># image_mset route_key R" for k
    using ok op unfolding reservations_ok_def by blast
  ultimately show ?thesis unfolding reservations_ok_def by auto
qed

section \<open>Every step keeps the invariant\<close>

lemma sys_invI:
  assumes "reg_inv r" and "reservations_ok r (reserved T)"
    and "L = image_mset rt_id (mset (Routes r) + owned T)"
  shows "sys_inv \<lparr>s_reg = r, s_pend = T, s_live = L\<rparr>"
  using assms by (simp add: sys_inv_def)

lemma sys_inv_reserve:
  assumes inv: "sys_inv \<lparr>s_reg = r, s_pend = T, s_live = L\<rparr>"
    and ck: "Add_check (r_cfg r) name b opts = Inr rt" and res: "Add_reserve r rt = (e, r')"
  shows "sys_inv \<lparr>s_reg = r', s_pend = (case e of Some _ \<Rightarrow> T | None \<Rightarrow> add_mset (Reserved rt) T), s_live = L\<rparr>"
proof -
  from inv have r: "reg_inv r" "reservations_ok r (reserved T)"
    and L: "L = image_mset rt_id (mset (Routes r) + owned T)" by (simp_all add: sys_inv_def)
  have r': "reg_inv r'" by (rule reserve_inv [OF r(1) res])
  show ?thesis
  proof (cases e)
    case (Some err)
    with reserve_cases [OF res] have "r' = with_flag rt r" by simp
    then have "reservations_ok r' (reserved T)" "Routes r' = Routes r"
      using reservations_same [OF r(2), of r'] by (simp_all add: with_flag_hasRewrites Routes_def)
    with Some r' L show ?thesis by (simp add: sys_inv_def)
  next
    case None
    with reserve_cases [OF res] have op: "\<not> r_closed r" "map_of (r_routes r) (route_key rt) = None"
      and r'_eq: "r' = (with_flag rt r)\<lparr>r_routes := AList.update (route_key rt) None (r_routes r)\<rparr>" by simp_all
    have "Routes r' = Routes r" using op by (simp add: r'_eq Routes_def routes_reserve)
    then show ?thesis
      using None r' L reservations_new [OF r(2) op ck] by (simp add: sys_inv_def r'_eq)
  qed
qed

lemma sys_inv_abort:
  assumes "sys_inv \<lparr>s_reg = r, s_pend = add_mset (StartFailed rt) T, s_live = L\<rparr>"
  shows "sys_inv \<lparr>s_reg = Add_abort r rt, s_pend = T, s_live = L\<rparr>"
proof -
  from assms have r: "reg_inv r" "reservations_ok r (add_mset rt (reserved T))"
    and L: "L = image_mset rt_id (mset (Routes r) + owned T)" by (simp_all add: sys_inv_def)
  have "map_of (r_routes r) (route_key rt) \<in> {None, Some None}"
    using r(2) reg_invD(4) [OF r(1)] by (cases "r_closed r") (auto simp: reservations_ok_def)
  then have "Routes (Add_abort r rt) = Routes r"
    by (simp add: Add_abort_def Routes_def routes_abort [OF reg_invD(1) [OF r(1)]])
  moreover have "reservations_ok (Add_abort r rt) (reserved T)"
    by (rule reservations_end [OF r(2), where v = None]) (simp_all add: Add_abort_def)
  ultimately show ?thesis using L abort_inv [OF r(1)] by (simp add: sys_inv_def)
qed

lemma sys_inv_publish:
  assumes inv: "sys_inv \<lparr>s_reg = r, s_pend = add_mset (Started rt) T, s_live = L\<rparr>"
    and pub: "Add_publish r rt = (b, r')"
  shows "reg_inv r' \<and> reservations_ok r' (reserved T) \<and>
    L = image_mset rt_id (mset (Routes r') + owned T + (if b then {#} else {#rt#}))"
proof -
  from inv have r: "reg_inv r" "reservations_ok r (add_mset rt (reserved T))"
    and L: "L = image_mset rt_id (mset (Routes r) + (add_mset rt (owned T)))" by (simp_all add: sys_inv_def)
  have ok: "route_ok (r_cfg r) (r_hasRewrites r) (route_key rt) rt" using r(2) by (simp add: reservations_ok_def)
  have r': "reg_inv r'" by (rule publish_inv [OF r(1) pub ok])
  show ?thesis
  proof (cases "r_closed r")
    case True
    then have e: "r_routes r = []" by (rule reg_invD(4) [OF r(1)])
    with True pub have b: "b = False" "r' = r" by (auto simp: Add_publish_def)
    have "reservations_ok r (reserved T)"
      by (rule reservations_end [OF r(2), where v = None]) (simp_all add: True)
    with b r' L show ?thesis by (simp add: ac_simps)
  next
    case False
    with pub have b: "b = True" "r' = r\<lparr>r_routes := AList.update (route_key rt) (Some rt) (r_routes r)\<rparr>"
      by (auto simp: Add_publish_def)
    have "reservations_ok r' (reserved T)"
      by (rule reservations_end [OF r(2), where v = "Some (Some rt)"]) (simp_all add: b)
    moreover have "map_of (r_routes r) (route_key rt) = Some None"
      using r(2) False by (auto simp: reservations_ok_def)
    then have "mset (Routes r') = add_mset rt (mset (Routes r))"
      using routes_publish [OF reg_invD(1) [OF r(1)]] by (simp add: b Routes_def)
    ultimately show ?thesis using b r' L by simp
  qed
qed

lemma sys_inv_take:
  assumes inv: "reg_inv r" "reservations_ok r R" and tk: "Remove_take r name = (x, r')"
  shows "reg_inv r' \<and> reservations_ok r' R \<and>
    mset (Routes r) = (case x of None \<Rightarrow> {#} | Some rt \<Rightarrow> {#rt#}) + mset (Routes r')"
proof (cases x)
  case None
  with tk have "r' = r" by (auto simp: Remove_take_def split: option.splits)
  with inv None show ?thesis by simp
next
  case (Some rt)
  with tk have m: "map_of (r_routes r) (to_lower name) = Some (Some rt)"
    and r': "r' = r\<lparr>r_routes := AList.delete (to_lower name) (r_routes r)\<rparr>"
    by (auto simp: Remove_take_def split: option.splits)
  have "reservations_ok r' R" by (rule reservations_same [OF inv(2)]) (auto simp: r' m)
  with take_inv [OF inv(1) tk] Some routes_take [OF reg_invD(1) [OF inv(1)] m] show ?thesis
    by (simp add: r' Routes_def)
qed

lemma sys_inv_close:
  assumes "reg_inv r" "reservations_ok r R" and "Close_take r = (m, r')"
  shows "reg_inv r' \<and> reservations_ok r' R \<and> List.map_filter snd m = Routes r \<and> Routes r' = []"
  using Close_take_inv [OF assms(1)] reservations_same [OF assms(2), of r'] assms(3)
  by (auto simp: Close_take_def Routes_def map_filter_def)

lemma sys_inv_unfold:
  "sys_inv \<lparr>s_reg = r, s_pend = T, s_live = L\<rparr> \<longleftrightarrow> reg_inv r \<and> reservations_ok r (reserved T) \<and>
     L = image_mset rt_id (mset (Routes r) + owned T)"
  by (simp add: sys_inv_def)

lemma sys_inv_step: "sys_step s s' \<Longrightarrow> sys_inv s \<Longrightarrow> sys_inv s'"
proof (induction rule: sys_step.induct)
  case (reject r name b opts rt e r' T L)
  from sys_inv_reserve [OF reject(3,1,2)] show ?case by simp
next
  case (reserve r name b opts rt r' T L)
  from sys_inv_reserve [OF reserve(3,1,2)] show ?case by simp
next
  case (abort r rt T L)
  then show ?case by (rule sys_inv_abort)
next
  case (publish r rt r' T' T L)
  from sys_inv_publish [OF publish(3,1)] publish(2) show ?case by (auto simp: sys_inv_unfold)
next
  case (publish_closed r rt r' T L)
  from sys_inv_publish [OF publish_closed(2,1)] show ?case by (simp add: sys_inv_unfold)
next
  case (ready_fails r rt rt' r' T L)
  then have "reg_inv r" "reservations_ok r (reserved T)" by (simp_all add: sys_inv_unfold)
  from sys_inv_take [OF this ready_fails(1)] ready_fails(2) show ?case by (simp add: sys_inv_unfold)
next
  case (ready_fails_gone r rt r' T L)
  then have "reg_inv r" "reservations_ok r (reserved T)" by (simp_all add: sys_inv_unfold)
  from sys_inv_take [OF this ready_fails_gone(1)] ready_fails_gone(2) show ?case by (simp add: sys_inv_unfold)
next
  case (remove r name rt r' T L)
  then have "reg_inv r" "reservations_ok r (reserved T)" by (simp_all add: sys_inv_unfold)
  from sys_inv_take [OF this remove(1)] remove(2) show ?case by (simp add: sys_inv_unfold)
next
  case (close r m r' T L)
  then have "reg_inv r" "reservations_ok r (reserved T)" by (simp_all add: sys_inv_unfold)
  from sys_inv_close [OF this close(2)] close(3) show ?case by (simp add: sys_inv_unfold ac_simps)
qed (auto simp: sys_inv_unfold ac_simps)

lemma sys_inv_init: "sys_init s \<Longrightarrow> sys_inv s"
  using reg_inv_New
  by (auto simp: sys_init_def sys_inv_def reservations_ok_def registry_New_def Routes_def map_filter_def)

interpretation registry_sys: step_system sys_init sys_step sys_inv
  by unfold_locales (auto intro: sys_inv_init sys_inv_step)

abbreviation sys_reachable :: "'x sys \<Rightarrow> bool" where
  "sys_reachable \<equiv> reachable sys_init sys_step"

text \<open>Every task that is about to stop a backend stops one that runs.\<close>

lemma owned_live:
  assumes "sys_inv s" and "t \<in># s_pend s" and "rt \<in># task_owns t"
  shows "rt_id rt \<in># s_live s"
proof -
  from assms(2,3) have "rt \<in># owned (s_pend s)" by (auto simp: owned_def)
  with assms(1) show ?thesis by (simp add: sys_inv_def)
qed

lemma quiet_live:
  "sys_inv s \<Longrightarrow> s_pend s = {#} \<Longrightarrow> s_live s = image_mset rt_id (mset (Routes (s_reg s)))"
  by (simp add: sys_inv_def)

lemma reserved_entry:
  assumes "sys_inv s" and "Started rt \<in># s_pend s" and "\<not> r_closed (s_reg s)"
  shows "map_of (r_routes (s_reg s)) (route_key rt) = Some None"
proof -
  from assms(2) have "rt \<in># reserved (s_pend s)" by (force simp: reserved_def)
  with assms(1,3) show ?thesis by (auto simp: sys_inv_def reservations_ok_def)
qed

section \<open>After Close\<close>

text \<open>
  Once the registry is closed no new task can begin, and every step of a task lowers the work left;
  so the tasks drain whatever the order of their steps.
\<close>

fun task_work :: "'x task \<Rightarrow> nat" where
  "task_work (Reserved rt) = 5"
| "task_work (Started rt) = 4"
| "task_work (Waiting rt) = 2"
| "task_work (StartFailed rt) = 1"
| "task_work (Orphan rt) = 1"
| "task_work (Stopping rt) = 1"
| "task_work (Closing rts) = Suc (length rts)"

definition work :: "'x sys \<Rightarrow> nat" where
  "work s = (\<Sum>t \<in># s_pend s. task_work t)"

lemma closed_sections:
  assumes "r_closed r" and "r_routes r = []"
  shows "Remove_take r n = (None, r)" and "Add_reserve r rt \<noteq> (None, r')" and "Add_publish r rt = (False, r)"
    and "Add_abort r rt = r"
  using assms by (auto simp: Remove_take_def Add_reserve_def Add_publish_def Add_abort_def Let_def)

lemma closed_step:
  assumes "sys_step s s'" and "r_done (s_reg s)" and "sys_inv s"
  shows "r_done (s_reg s') \<and> (work s' < work s \<or> s_pend s' = s_pend s \<and> s_live s' = s_live s)"
proof -
  from assms(3) have inv: "reg_inv (s_reg s)" by (simp add: sys_inv_def)
  have cl: "r_closed (s_reg s)" and rt: "r_routes (s_reg s) = []"
    using reg_invD(4,5) [OF inv] assms(2) by simp_all
  from assms(1,2) cl rt show ?thesis
    by (induction rule: sys_step.induct)
       (auto simp: work_def closed_sections dest: reserve_frame)
qed

text \<open>A call in progress is never blocked: its task can take a step, whatever the other tasks do.\<close>

lemma task_progress:
  assumes inv: "sys_inv s" and dn: "r_done (s_reg s)" and t: "t \<in># s_pend s"
  shows "\<exists>s' N. sys_step s s' \<and> s_pend s' = (s_pend s - {#t#}) + N \<and> (\<Sum>t \<in># N. task_work t) < task_work t"
proof -
  obtain T where T: "s_pend s = add_mset t T" using t by (metis multi_member_split)
  obtain r L where s: "s = \<lparr>s_reg = r, s_pend = add_mset t T, s_live = L\<rparr>" using T by (cases s) simp
  from inv s have rinv: "reg_inv r" by (simp add: sys_inv_def)
  have cl: "r_closed r" and rt: "r_routes r = []" using reg_invD(4,5) [OF rinv] dn s by simp_all
  have pr: ?thesis if "sys_step s \<lparr>s_reg = r, s_pend = T + N, s_live = L'\<rparr>"
      and "(\<Sum>t \<in># N. task_work t) < task_work t" for N L'
    using that by (intro exI [of _ "\<lparr>s_reg = r, s_pend = T + N, s_live = L'\<rparr>"] exI [of _ N]) (simp add: s)
  show ?thesis
  proof (cases t)
    case (Reserved x)
    show ?thesis by (rule pr [of "{#StartFailed x#}" L]) (use sys_step.start_fails [of r x T L] in \<open>simp_all add: s Reserved\<close>)
  next
    case (StartFailed x)
    have "sys_step s \<lparr>s_reg = r, s_pend = T, s_live = L\<rparr>"
      using sys_step.abort [of r x T L] unfolding s StartFailed closed_sections(4) [OF cl rt] .
    then show ?thesis by (intro pr [of "{#}" L]) (simp_all add: StartFailed)
  next
    case (Started x)
    show ?thesis
      by (rule pr [of "{#Orphan x#}" L]) (use sys_step.publish_closed [OF closed_sections(3) [OF cl rt], of x T L] in \<open>simp_all add: s Started\<close>)
  next
    case (Orphan x)
    show ?thesis by (rule pr [of "{#}" "L - {#rt_id x#}"]) (use sys_step.orphan_stop [of r x T L] in \<open>simp_all add: s Orphan\<close>)
  next
    case (Waiting x)
    show ?thesis by (rule pr [of "{#}" L]) (use sys_step.ready_ok [of r x T L] in \<open>simp_all add: s Waiting\<close>)
  next
    case (Stopping x)
    show ?thesis by (rule pr [of "{#}" "L - {#rt_id x#}"]) (use sys_step.remove_stop [of r x T L] in \<open>simp_all add: s Stopping\<close>)
  next
    case (Closing xs)
    show ?thesis
    proof (cases xs)
      case Nil
      show ?thesis by (rule pr [of "{#}" L]) (use sys_step.close_end [of r T L] in \<open>simp_all add: s Closing Nil\<close>)
    next
      case (Cons y ys)
      show ?thesis
        by (rule pr [of "{#Closing ys#}" "L - {#rt_id y#}"]) (use sys_step.close_stop [of r y ys T L] in \<open>simp_all add: s Closing Cons\<close>)
    qed
  qed
qed

section \<open>A run in which AddReady removes a route it did not add\<close>

definition trace_route :: "nat \<Rightarrow> unit Route" where
  "trace_route i = make_route ''a'' (simple_backend i (\<lambda>ctx nw addr w. (Inl (Sentinel ErrClosed), w)))
     (route_config (New_config []) []) []"

definition trace_sys :: "(string \<times> unit Route option) list \<Rightarrow> unit task multiset \<Rightarrow> nat multiset \<Rightarrow> unit sys" where
  "trace_sys m T L = \<lparr>s_reg = (registry_New [])\<lparr>r_routes := m\<rparr>, s_pend = T, s_live = L\<rparr>"

lemma trace_route_simps [simp]:
  "rt_name (trace_route i) = ''a''" "route_key (trace_route i) = ''a''"
  "bk_id (rt_backend (trace_route i)) = i" "rc_hostRewrite (rt_cfg (trace_route i)) = []"
  by (simp_all add: trace_route_def route_key_def to_lower_def lower_char_def byte_def simple_backend_def
      route_config_def)

lemma trace_check:
  "Add_check (New_config []) ''a'' (Some (simple_backend i (\<lambda>ctx nw addr w. (Inl (Sentinel ErrClosed), w)))) []
     = Inr (trace_route i)"
  by (simp add: Add_check_def trace_route_def route_config_def validateHostRewrite_def Let_def)

lemma trace_add:
  "sys_step (trace_sys [] T L) (trace_sys [(''a'', None)] (add_mset (Reserved (trace_route i)) T) L)"
  "sys_step (trace_sys m (add_mset (Reserved (trace_route i)) T) L)
     (trace_sys m (add_mset (Started (trace_route i)) T) (add_mset i L))"
  "T' = T \<or> T' = add_mset (Waiting (trace_route i)) T \<Longrightarrow>
   sys_step (trace_sys [(''a'', None)] (add_mset (Started (trace_route i)) T) L)
     (trace_sys [(''a'', Some (trace_route i))] T' L)"
proof -
  show "sys_step (trace_sys [] T L) (trace_sys [(''a'', None)] (add_mset (Reserved (trace_route i)) T) L)"
    unfolding trace_sys_def
    by (rule sys_step.reserve [where name = "''a''"], simp add: registry_New_def, rule trace_check)
       (simp add: Add_reserve_def registry_New_def)
  show "sys_step (trace_sys m (add_mset (Reserved (trace_route i)) T) L)
     (trace_sys m (add_mset (Started (trace_route i)) T) (add_mset i L))"
    using sys_step.start_ok [of "(registry_New [])\<lparr>r_routes := m\<rparr>" "trace_route i" T L]
    by (simp add: trace_sys_def)
  assume "T' = T \<or> T' = add_mset (Waiting (trace_route i)) T"
  then show "sys_step (trace_sys [(''a'', None)] (add_mset (Started (trace_route i)) T) L)
     (trace_sys [(''a'', Some (trace_route i))] T' L)"
    unfolding trace_sys_def by (rule sys_step.publish [rotated]) (simp add: Add_publish_def registry_New_def)
qed

lemma trace_take:
  "Remove_take ((registry_New [])\<lparr>r_routes := [(''a'', Some rt)]\<rparr>) ''a'' =
     (Some rt, (registry_New [])\<lparr>r_routes := []\<rparr>)"
  by (simp add: Remove_take_def to_lower_def lower_char_def byte_def)

lemma trace_run:
  "sys_reachable (trace_sys [(''a'', Some (trace_route 2))] {#Waiting (trace_route 1)#} {#2#})"
proof -
  have "sys_reachable (trace_sys [] {#} {#})"
    by (rule reachable.start) (auto simp: sys_init_def trace_sys_def registry_New_def intro!: exI [of _ "[]"])
  then have "sys_reachable (trace_sys [(''a'', None)] {#Reserved (trace_route 1)#} {#})"
    by (rule reachable.step) (rule trace_add(1))
  then have "sys_reachable (trace_sys [(''a'', None)] {#Started (trace_route 1)#} {#1#})"
    by (rule reachable.step) (rule trace_add(2))
  then have "sys_reachable (trace_sys [(''a'', Some (trace_route 1))] {#Waiting (trace_route 1)#} {#1#})"
    by (rule reachable.step) (rule trace_add(3), simp)
  then have "sys_reachable (trace_sys [] {#Stopping (trace_route 1), Waiting (trace_route 1)#} {#1#})"
    unfolding trace_sys_def by (rule reachable.step) (rule sys_step.remove [OF trace_take])
  then have "sys_reachable (trace_sys [] {#Waiting (trace_route 1)#} ({#1#} - {#rt_id (trace_route 1)#}))"
    unfolding trace_sys_def by (rule reachable.step) (rule sys_step.remove_stop)
  then have "sys_reachable (trace_sys [] {#Waiting (trace_route 1)#} {#})" by simp
  then have "sys_reachable (trace_sys [(''a'', None)] {#Reserved (trace_route 2), Waiting (trace_route 1)#} {#})"
    by (rule reachable.step) (rule trace_add(1))
  then have "sys_reachable (trace_sys [(''a'', None)] {#Started (trace_route 2), Waiting (trace_route 1)#} {#2#})"
    by (rule reachable.step) (rule trace_add(2))
  then show ?thesis by (rule reachable.step) (rule trace_add(3), simp)
qed

lemma trace_end:
  "sys_step (trace_sys [(''a'', Some (trace_route 2))] {#Waiting (trace_route 1)#} {#2#})
     (trace_sys [] {#Stopping (trace_route 2)#} {#2#})"
  unfolding trace_sys_def by (rule sys_step.ready_fails) (simp add: trace_take)

section \<open>Properties\<close>

text \<open>C5: No backend leaks and none is stopped twice, under every interleaving of \<open>Add\<close>, \<open>AddReady\<close>, \<open>Remove\<close> and
  \<open>Close\<close>: the running backends are, with multiplicity, those of the published routes and of the tasks that
  will publish or stop them; so when no call is in progress they are those of the published routes, and
  after \<open>Close\<close> none.\<close>

theorem no_backend_leaks:
  assumes "sys_reachable s"
  shows "s_live s = image_mset rt_id (mset (Routes (s_reg s)) + owned (s_pend s)) \<and>
    (s_pend s = {#} \<longrightarrow> s_live s = image_mset rt_id (mset (Routes (s_reg s))) \<and>
       (r_closed (s_reg s) \<longrightarrow> s_live s = {#})) \<and>
    (\<forall>t \<in># s_pend s. \<forall>rt \<in># task_owns t. rt_id rt \<in># s_live s)"
proof -
  have inv: "sys_inv s" by (rule registry_sys.reachable_inv [OF assms])
  then have "r_closed (s_reg s) \<Longrightarrow> Routes (s_reg s) = []"
    using reg_invD(4) [of "s_reg s"] by (auto simp: sys_inv_def Routes_def map_filter_def)
  with inv owned_live [OF inv] quiet_live [OF inv] show ?thesis by (auto simp: sys_inv_def)
qed

theorem no_backend_leaks_witness:
  "s_live (trace_sys [(''a'', Some (trace_route 2))] {#Waiting (trace_route 1)#} {#2#}) =
     image_mset rt_id (mset [trace_route 2])"
  using no_backend_leaks [OF trace_run] by (simp add: trace_sys_def Routes_def map_filter_def)

text \<open>C7: The two-phase \<open>Add\<close> is safe: every \<open>Add\<close> between its two locked sections holds a reservation of its own
  (no two of them share a name, so no backend is started twice for one name), and while the registry is
  open the entry it will overwrite is that reservation and never a published route.\<close>

theorem reservations_are_exclusive:
  assumes "sys_reachable s"
  shows "(\<forall>k. count (image_mset route_key (reserved (s_pend s))) k \<le> 1) \<and>
    (\<forall>rt. Started rt \<in># s_pend s \<and> \<not> r_closed (s_reg s) \<longrightarrow>
       map_of (r_routes (s_reg s)) (route_key rt) = Some None)"
proof -
  have inv: "sys_inv s" by (rule registry_sys.reachable_inv [OF assms])
  then have "\<forall>k. count (image_mset route_key (reserved (s_pend s))) k \<le> 1"
    unfolding sys_inv_def reservations_ok_def by blast
  with reserved_entry [OF inv] show ?thesis by blast
qed

theorem reservations_are_exclusive_witness:
  "count (image_mset route_key (reserved {#Started (trace_route 1)#})) ''a'' \<le> 1 \<and>
   map_of [(''a'', None :: unit Route option)] (route_key (trace_route 1)) = Some None"
proof -
  have "sys_reachable (trace_sys [] {#} {#})"
    by (rule reachable.start) (auto simp: sys_init_def trace_sys_def registry_New_def intro!: exI [of _ "[]"])
  then have "sys_reachable (trace_sys [(''a'', None)] {#Reserved (trace_route 1)#} {#})"
    by (rule reachable.step) (rule trace_add(1))
  then have "sys_reachable (trace_sys [(''a'', None)] {#Started (trace_route 1)#} {#1#})"
    by (rule reachable.step) (rule trace_add(2))
  from reservations_are_exclusive [OF this] show ?thesis by (auto simp: trace_sys_def registry_New_def)
qed

text \<open>C8: After \<open>Close\<close> everything drains, in every run: once it has taken the route table, the table stays empty, and every
  step is either a step of a call in progress, which lowers the work that is left, or a new call, which changes nothing
  but the rewrite flag; each call in progress can always take its next step, so none of them is stuck; and when none is
  left no backend runs and no route is registered.\<close>

theorem close_drains:
  assumes "sys_reachable s" and "r_done (s_reg s)"
  shows "(\<forall>s'. sys_step s s' \<longrightarrow> r_done (s_reg s') \<and> r_routes (s_reg s') = [] \<and>
       (work s' < work s \<or> s_pend s' = s_pend s \<and> s_live s' = s_live s)) \<and>
    (\<forall>t \<in># s_pend s. \<exists>s' N. sys_step s s' \<and> s_pend s' = (s_pend s - {#t#}) + N \<and> (\<Sum>t \<in># N. task_work t) < task_work t) \<and>
    (s_pend s = {#} \<longrightarrow> s_live s = {#} \<and> r_routes (s_reg s) = [])"
proof (intro conjI allI ballI impI)
  note inv = registry_sys.reachable_inv [OF assms(1)]
  have empty: "r_routes (s_reg t) = []" if "sys_inv t" "r_done (s_reg t)" for t :: "'a sys"
    using that reg_invD(4,5) [of "s_reg t"] by (auto simp: sys_inv_def)
  fix s' assume st: "sys_step s s'"
  show "r_done (s_reg s')" "work s' < work s \<or> s_pend s' = s_pend s \<and> s_live s' = s_live s"
    using closed_step [OF st assms(2) inv] by simp_all
  then show "r_routes (s_reg s') = []" using empty [OF sys_inv_step [OF st inv]] by blast
next
  note inv = registry_sys.reachable_inv [OF assms(1)]
  show e: "r_routes (s_reg s) = []" using inv assms(2) reg_invD(4,5) [of "s_reg s"] by (auto simp: sys_inv_def)
  show "s_live s = {#}" if "s_pend s = {#}"
    using quiet_live [OF inv that] e by (simp add: Routes_def map_filter_def)
qed (use task_progress [OF registry_sys.reachable_inv [OF assms(1)] assms(2)] in blast)

theorem close_drains_witness:
  "\<exists>s s'. s_pend s = {#Closing [trace_route 2], Waiting (trace_route 1)#} \<and> s_live s = {#2#} \<and>
     sys_step (s :: unit sys) s' \<and> r_routes (s_reg s') = []"
proof -
  let ?r = "(registry_New [])\<lparr>r_routes := [(''a'', Some (trace_route 2))]\<rparr>"
  let ?s = "\<lparr>s_reg = snd (Close_take ?r),
      s_pend = {#Closing [trace_route 2], Waiting (trace_route 1)#}, s_live = {#2#}\<rparr>"
  have "\<not> r_done ?r" by (simp add: registry_New_def)
  moreover have "Close_take ?r = ([(''a'', Some (trace_route 2))], snd (Close_take ?r))"
    by (simp add: Close_take_def)
  ultimately have "sys_step (trace_sys [(''a'', Some (trace_route 2))] {#Waiting (trace_route 1)#} {#2#}) ?s"
    using sys_step.close [of ?r "[(''a'', Some (trace_route 2))]"] by (simp add: trace_sys_def map_filter_def)
  with trace_run have r: "sys_reachable ?s" by (rule reachable.step)
  have "r_done (s_reg ?s)" by (simp add: Close_take_def)
  note d = close_drains [OF r this]
  have "Closing [trace_route 2] \<in># s_pend ?s" by simp
  with d obtain s' where "sys_step ?s s'" by blast
  moreover from this d have "r_routes (s_reg s') = []" by blast
  ultimately show ?thesis by (intro exI [of _ ?s] exI [of _ s']) simp
qed

text \<open>\<open>AddReady\<close> cleans up by name: a run exists in which a failed \<open>AddReady\<close> of one goroutine takes down the
  route that another goroutine has published under that name meanwhile, with another backend.\<close>

theorem AddReady_may_remove_foreign_route:
  "\<exists>s s' :: unit sys. \<exists>mine other. sys_reachable s \<and> sys_step s s' \<and> rt_id mine \<noteq> rt_id other \<and>
     s_pend s = {#Waiting mine#} \<and> Lookup (s_reg s) (rt_name mine) = Some other \<and>
     s_pend s' = {#Stopping other#} \<and> Lookup (s_reg s') (rt_name mine) = None"
  by (rule exI [of _ "trace_sys [(''a'', Some (trace_route 2))] {#Waiting (trace_route 1)#} {#2#}"],
      rule exI [of _ "trace_sys [] {#Stopping (trace_route 2)#} {#2#}"],
      rule exI [of _ "trace_route 1"], rule exI [of _ "trace_route 2"], intro conjI trace_run trace_end)
     (simp_all add: trace_sys_def Lookup_def to_lower_def lower_char_def byte_def)

end
