(* ===== verification/Host_Rewrite.thy ===== *)
theory Host_Rewrite
  imports Registry_Conc
begin

text \<open>
  The client half of \<open>http.go\<close>: \<open>Registry.HostRewrite\<close>, the round tripper that applies it, and the
  lazily built shared transport. A request is the part of \<open>http.Request\<close> that the library and its
  proxy read or write. What a transport does with a request is a parameter.
\<close>

named_theorems go_http "rules of requests and headers"

type_synonym header = "(string \<times> string list) list"

record request =
  rq_method :: string
  rq_scheme :: string      \<comment> \<open>\<open>URL.Scheme\<close>\<close>
  rq_url_host :: string    \<comment> \<open>\<open>URL.Host\<close>\<close>
  rq_path :: string
  rq_query :: string       \<comment> \<open>\<open>URL.RawQuery\<close>\<close>
  rq_host :: string        \<comment> \<open>\<open>Host\<close>\<close>
  rq_uri :: string         \<comment> \<open>\<open>RequestURI\<close>\<close>
  rq_header :: header
  rq_body :: string

record response =
  rs_status :: int
  rs_header :: header
  rs_body :: string

type_synonym 'x roundtrip = "request \<Rightarrow> 'x world \<Rightarrow> (goerr + response) \<times> 'x world"

section \<open>HostRewrite\<close>

definition HostRewrite :: "'x Registry \<Rightarrow> string \<Rightarrow> string option" where
  "HostRewrite r urlHost =
     (if \<not> r_hasRewrites r then None
      else case (case SplitHostPort urlHost of Some (h, p) \<Rightarrow> (h, p) | None \<Rightarrow> (urlHost, [])) of
        (name, port) \<Rightarrow>
          (case Lookup r name of
             None \<Rightarrow> None
           | Some rt \<Rightarrow>
               (case Route_HostRewrite rt of (rewrite, ok) \<Rightarrow>
                  if \<not> ok then None
                  else if port \<noteq> [] then
                    (if \<not> allDigits port then None else Some (JoinHostPort rewrite port))
                  else Some rewrite)))"

definition RoundTrip :: "'x Registry \<Rightarrow> 'x roundtrip \<Rightarrow> 'x roundtrip" where
  "RoundTrip r next req w =
     (case HostRewrite r (rq_url_host req) of
        None \<Rightarrow> next req w
      | Some rewrite \<Rightarrow> next (req\<lparr>rq_host := rewrite\<rparr>) w)"

text \<open>\<open>WrapRoundTripper\<close> makes a round tripper of another one and the registry.\<close>

definition WrapRoundTripper :: "'x Registry \<Rightarrow> 'x roundtrip \<Rightarrow> 'x roundtrip" where
  "WrapRoundTripper r next = RoundTrip r next"

text \<open>The event handler that drops a transport's idle connections.\<close>

definition CloseIdleOnUnhealthy :: "('x world \<Rightarrow> 'x world) \<Rightarrow> 'x handler" where
  "CloseIdleOnUnhealthy closeIdle e w = (if ev_type e = EventBackendUnhealthy then closeIdle w else w)"

section \<open>Transports\<close>

text \<open>
  A transport has an identity (its connection pool) and the settings the library gives it. The
  plumbing counts the transports built and remembers the shared one.
\<close>

record transport =
  tr_id :: nat
  tr_max_idle_per_host :: nat
  tr_idle_timeout :: int

record http_plumbing =
  hp_built :: nat
  hp_default :: "transport option"

definition Transport :: "(transport \<Rightarrow> transport) list \<Rightarrow> http_plumbing \<Rightarrow> transport \<times> http_plumbing" where
  "Transport opts hp =
     (foldl (\<lambda>t opt. opt t) \<lparr>tr_id = hp_built hp, tr_max_idle_per_host = 4, tr_idle_timeout = 30 * nano_s\<rparr> opts,
      hp\<lparr>hp_built := Suc (hp_built hp)\<rparr>)"

definition initHTTP :: "http_plumbing \<Rightarrow> http_plumbing" where
  "initHTTP hp = (case hp_default hp of
      Some t \<Rightarrow> hp
    | None \<Rightarrow> (case Transport [] hp of (t, hp') \<Rightarrow> hp'\<lparr>hp_default := Some t\<rparr>))"

definition DefaultTransport :: "http_plumbing \<Rightarrow> transport option \<times> http_plumbing" where
  "DefaultTransport hp = (let hp' = initHTTP hp in (hp_default hp', hp'))"

text \<open>
  A client is a transport behind the host rewriting; dropping its idle connections goes through the wrapper to the
  pool of the transport. The shared client stands over the shared transport.
\<close>

record http_client =
  hc_transport :: transport

definition DefaultClient :: "http_plumbing \<Rightarrow> http_client option \<times> http_plumbing" where
  "DefaultClient hp =
     (let hp' = initHTTP hp in (map_option (\<lambda>t. \<lparr>hc_transport = t\<rparr>) (hp_default hp'), hp'))"

definition HTTPClient :: "(transport \<Rightarrow> transport) list \<Rightarrow> http_plumbing \<Rightarrow> http_client \<times> http_plumbing" where
  "HTTPClient opts hp = (case Transport opts hp of (t, hp') \<Rightarrow> (\<lparr>hc_transport = t\<rparr>, hp'))"

definition CloseIdleConnections :: "http_client \<Rightarrow> nat" where
  "CloseIdleConnections c = tr_id (hc_transport c)"

text \<open>The pools whose idle connections \<open>Close\<close> drops: the shared one, if it was ever built.\<close>

definition close_idle_pools :: "http_plumbing \<Rightarrow> nat list" where
  "close_idle_pools hp = (case hp_default hp of None \<Rightarrow> [] | Some t \<Rightarrow> [tr_id t])"

lemma DefaultTransport_once:
  "DefaultTransport hp = (t, hp') \<Longrightarrow> t \<noteq> None \<and> DefaultTransport hp' = (t, hp')"
  by (auto simp: DefaultTransport_def initHTTP_def Transport_def Let_def split: option.splits)

text \<open>
  The shared client is always the same one and \<open>Close\<close> drops its pool; a client of one's own has a pool of its own,
  which neither the shared client nor \<open>Close\<close> touches. \<open>hp_ok\<close>: the shared transport was built before.
\<close>

definition hp_ok :: "http_plumbing \<Rightarrow> bool" where
  "hp_ok hp \<longleftrightarrow> (case hp_default hp of None \<Rightarrow> True | Some t \<Rightarrow> tr_id t < hp_built hp)"

theorem client_pools:
  assumes "hp_ok hp" and "\<forall>opt \<in> set opts. \<forall>t. tr_id (opt t) = tr_id t"
    and "DefaultClient hp = (c, hp1)" and "HTTPClient opts hp1 = (own, hp2)"
  shows "\<exists>d. c = Some d \<and> DefaultClient hp2 = (Some d, hp2) \<and> fst (DefaultTransport hp2) = Some (hc_transport d) \<and>
    close_idle_pools hp2 = [CloseIdleConnections d] \<and> CloseIdleConnections own \<notin> set (close_idle_pools hp2) \<and> hp_ok hp2"
proof -
  have id: "tr_id (foldl (\<lambda>t opt. opt t) t opts) = tr_id t" for t
    using assms(2) by (induction opts arbitrary: t) simp_all
  obtain d where "hp_default hp1 = Some d" "c = Some \<lparr>hc_transport = d\<rparr>" "tr_id d < hp_built hp1"
    using assms(1,3) by (auto simp: DefaultClient_def initHTTP_def Transport_def Let_def hp_ok_def split: option.splits)
  with assms(4) show ?thesis
    by (auto simp: HTTPClient_def Transport_def DefaultClient_def DefaultTransport_def initHTTP_def close_idle_pools_def
        CloseIdleConnections_def Let_def hp_ok_def id)
qed

section \<open>Lemmas\<close>

text \<open>The lookup path without the flag that short-cuts it.\<close>

definition HostRewrite_slow :: "(string \<Rightarrow> 'x Route option) \<Rightarrow> string \<Rightarrow> string option" where
  "HostRewrite_slow look urlHost =
     (case (case SplitHostPort urlHost of Some (h, p) \<Rightarrow> (h, p) | None \<Rightarrow> (urlHost, [])) of
        (name, port) \<Rightarrow>
          (case look name of None \<Rightarrow> None | Some rt \<Rightarrow>
            if rc_hostRewrite (rt_cfg rt) = [] then None
            else if port = [] then Some (rc_hostRewrite (rt_cfg rt))
            else if allDigits port then Some (JoinHostPort (rc_hostRewrite (rt_cfg rt)) port) else None))"

lemma Lookup_ok:
  "reg_inv r \<Longrightarrow> Lookup r n = Some rt \<Longrightarrow> route_ok (r_cfg r) (r_hasRewrites r) (to_lower n) rt"
  by (auto simp: Lookup_published published_Some_iff dest: reg_invD(3))

lemma HostRewrite_flag:
  assumes "reg_inv r"
  shows "HostRewrite r h = HostRewrite_slow (Lookup r) h"
proof (cases "r_hasRewrites r")
  case True
  then show ?thesis
    by (auto simp: HostRewrite_def HostRewrite_slow_def Route_HostRewrite_def split: option.splits prod.splits)
next
  case False
  have "rc_hostRewrite (rt_cfg rt) = []" if "Lookup r n = Some rt" for n rt
    using Lookup_ok [OF assms that] False by (auto simp: route_ok_def)
  then show ?thesis
    using False by (auto simp: HostRewrite_def HostRewrite_slow_def split: prod.splits option.splits)
qed

lemma HostRewrite_safe:
  assumes "reg_inv r" and "HostRewrite r h = Some x"
  shows "list_all (\<lambda>c. \<not> bad_host_byte c) x"
proof -
  from assms obtain n p rt where rt: "Lookup r n = Some rt" "rc_hostRewrite (rt_cfg rt) \<noteq> []"
    and x: "x = rc_hostRewrite (rt_cfg rt) \<or> (allDigits p \<and> x = JoinHostPort (rc_hostRewrite (rt_cfg rt)) p)"
    by (auto simp: HostRewrite_def Route_HostRewrite_def split: option.splits prod.splits if_splits)
  have "list_all (\<lambda>c. \<not> bad_host_byte c) (rc_hostRewrite (rt_cfg rt))"
    using Lookup_ok [OF assms(1) rt(1)] rt(2) by (simp add: route_ok_def validateHostRewrite_ok_iff)
  with x JoinHostPort_safe show ?thesis by auto
qed

lemma run_reg_inv:
  "exec_all reg_exec (registry_New opts, w0) ops = (outs, r, w) \<Longrightarrow> reg_inv r"
  using registry_table.run_refines [OF table_ok_New] by (fastforce simp: table_ok_def)

definition ipv6_route :: "unit Route" where
  "ipv6_route = make_route ''web'' (simple_backend 1 (\<lambda>ctx nw addr w. (Inl (Sentinel ErrClosed), w)))
     (route_config (New_config []) [RouteWithHostRewrite ''::1'']) []"

definition ipv6_registry :: "unit Registry" where
  "ipv6_registry = (registry_New [])\<lparr>r_hasRewrites := True, r_routes := [(''web'', Some ipv6_route)]\<rparr>"

lemma to_lower_web: "to_lower ''web'' = ''web''"
  by (simp add: to_lower_def lower_char_def byte_def)

lemma ipv6_literal: "validateHostRewrite ''::1'' = None"
proof -
  have "ipv6_loop (Suc 7) True ''1'' = Some (7, True, [])"
    by (simp only: ipv6_loop.simps) (simp add: is_hex_def is_digit_def byte_def)
  then have "ipv6_ok ''::1''" by (simp add: ipv6_ok_def)
  then show ?thesis by (simp add: validateHostRewrite_def bad_host_byte_def byte_def ParseIP_ok_def)
qed

lemma ipv6_run:
  "exec_all reg_exec (registry_New [], w) [OpAdd Background ''web'' (Some (rt_backend ipv6_route))
     [RouteWithHostRewrite ''::1'']] = ([OutAdd (Inr ipv6_route)], ipv6_registry, w)"
proof -
  have "Add_check (New_config []) ''web'' (Some (rt_backend ipv6_route)) [RouteWithHostRewrite ''::1'']
      = Inr ipv6_route"
    by (simp add: Add_check_def ipv6_route_def route_config_def RouteWithHostRewrite_def ipv6_literal Let_def)
  moreover have "Add_start ipv6_route ctx w = (None, w)" for ctx w
    by (simp add: Add_start_def ipv6_route_def simple_backend_def)
  ultimately show ?thesis
    by (simp add: Add_value registry_New_def to_lower_web with_flag_def ipv6_registry_def)
       (simp add: ipv6_route_def route_config_def RouteWithHostRewrite_def)
qed

lemma SplitHostPort_web:
  "SplitHostPort ''web'' = None" "SplitHostPort ''web:8080'' = Some (''web'', ''8080'')"
  by (simp_all add: SplitHostPort_def split_checked_def last_index_byte_def)

lemma ipv6_rewrite:
  "HostRewrite ipv6_registry ''web'' = Some ''::1''"
  "HostRewrite ipv6_registry ''web:8080'' = Some ''[::1]:8080''"
  by (simp_all add: HostRewrite_def ipv6_registry_def Lookup_def to_lower_web SplitHostPort_web
      Route_HostRewrite_def ipv6_route_def route_config_def RouteWithHostRewrite_def allDigits_def
      is_digit_def byte_def JoinHostPort_def)

section \<open>Properties\<close>

text \<open>C19: The fast path of \<open>HostRewrite\<close>, one sticky flag in front of the lookup, is never wrong: after any
  sequence of calls it returns what looking the route up would have returned, also after the route with the
  rewrite was removed. What it returns, whatever the URL host in the request, is the rewrite of the route that the URL
  host names, and has none of the bytes that \<open>validateHostRewrite\<close> excludes (spaces and control bytes, slash, question
  mark, hash, at sign, backslash). If the URL host has a port it is joined to the rewrite, only digits being accepted,
  and the result splits again into the rewrite and that port (unless the rewrite has square brackets of its own).
  If it has none the result is the bare rewrite, which has no colon, so that nothing in it reads as a port, unless it is an
  IPv6 literal, whose colons nothing brackets then.\<close>

theorem HostRewrite_correct:
  assumes "exec_all reg_exec (registry_New opts, w0) ops = (outs, r, w)"
  shows "HostRewrite r h = HostRewrite_slow (Lookup r) h \<and>
    (\<forall>x. HostRewrite r h = Some x \<longrightarrow> list_all (\<lambda>c. \<not> bad_host_byte c) x \<and>
       (\<exists>name port rt rewrite. (SplitHostPort h = Some (name, port) \<or> SplitHostPort h = None \<and> name = h \<and> port = []) \<and>
          Lookup r name = Some rt \<and> rewrite = rc_hostRewrite (rt_cfg rt) \<and> rewrite \<noteq> [] \<and>
          (if port = [] then x = rewrite \<and> (CHR '':'' \<in> set x \<longrightarrow> ParseIP_ok x)
           else allDigits port \<and> x = JoinHostPort rewrite port \<and>
             (set rewrite \<inter> {CHR ''['', CHR '']''} = {} \<longrightarrow> SplitHostPort x = Some (rewrite, port)))))"
proof (intro conjI allI impI)
  note inv = run_reg_inv [OF assms]
  show "HostRewrite r h = HostRewrite_slow (Lookup r) h" by (rule HostRewrite_flag [OF inv])
  fix x assume x: "HostRewrite r h = Some x"
  show "list_all (\<lambda>c. \<not> bad_host_byte c) x" by (rule HostRewrite_safe [OF inv x])
  from x obtain name port rt where n: "SplitHostPort h = Some (name, port) \<or> SplitHostPort h = None \<and> name = h \<and> port = []"
    and rt: "Lookup r name = Some rt" "rc_hostRewrite (rt_cfg rt) \<noteq> []"
    and v: "if port = [] then x = rc_hostRewrite (rt_cfg rt)
      else allDigits port \<and> x = JoinHostPort (rc_hostRewrite (rt_cfg rt)) port"
    by (auto simp: HostRewrite_def Route_HostRewrite_def split: option.splits prod.splits if_splits)
  have "CHR '':'' \<in> set x \<longrightarrow> ParseIP_ok x" if "port = []"
    using v that Lookup_ok [OF inv rt(1)] rt(2)
    by (auto simp: route_ok_def validateHostRewrite_ok_iff)
  moreover have "SplitHostPort x = Some (rc_hostRewrite (rt_cfg rt), port)"
    if "port \<noteq> []" "set (rc_hostRewrite (rt_cfg rt)) \<inter> {CHR ''['', CHR '']''} = {}"
  proof -
    have "d \<notin> set port" if "\<not> is_digit d" for d using v \<open>port \<noteq> []\<close> that by (auto simp: allDigits_def list_all_iff)
    moreover have "\<not> is_digit (CHR '':'')" "\<not> is_digit (CHR ''['')" "\<not> is_digit (CHR '']'')" by (simp_all add: is_digit_def byte_def)
    ultimately have "CHR '':'' \<notin> set port" "CHR ''['' \<notin> set port" "CHR '']'' \<notin> set port" by blast+
    with SplitHostPort_JoinHostPort [of port "rc_hostRewrite (rt_cfg rt)"] v that show ?thesis by auto
  qed
  ultimately show "\<exists>name port rt rewrite. (SplitHostPort h = Some (name, port) \<or> SplitHostPort h = None \<and> name = h \<and> port = []) \<and>
          Lookup r name = Some rt \<and> rewrite = rc_hostRewrite (rt_cfg rt) \<and> rewrite \<noteq> [] \<and>
          (if port = [] then x = rewrite \<and> (CHR '':'' \<in> set x \<longrightarrow> ParseIP_ok x)
           else allDigits port \<and> x = JoinHostPort rewrite port \<and>
             (set rewrite \<inter> {CHR ''['', CHR '']''} = {} \<longrightarrow> SplitHostPort x = Some (rewrite, port)))"
    using n rt v by (intro exI [of _ name] exI [of _ port] exI [of _ rt] exI [of _ "rc_hostRewrite (rt_cfg rt)"]) auto
qed

theorem HostRewrite_correct_witness:
  "HostRewrite_slow (Lookup ipv6_registry) ''web:8080'' = Some ''[::1]:8080'' \<and>
   list_all (\<lambda>c. \<not> bad_host_byte c) ''[::1]:8080'' \<and> (\<exists>rewrite port. SplitHostPort ''[::1]:8080'' = Some (rewrite, port))"
proof -
  let ?w = "\<lparr>now = 0, rnd = [], closed_conns = [], closed_listeners = [], done_at = None, ext = ()\<rparr>"
  note c = HostRewrite_correct [OF ipv6_run [of ?w], of "''web:8080''", unfolded ipv6_rewrite SplitHostPort_web]
  then have "HostRewrite_slow (Lookup ipv6_registry) ''web:8080'' = Some ''[::1]:8080''"
    "list_all (\<lambda>c. \<not> bad_host_byte c) ''[::1]:8080''" by simp_all
  moreover have "rc_hostRewrite (rt_cfg rt) = ''::1''" if "Lookup ipv6_registry ''web'' = Some rt" for rt
    using that by (auto simp: Lookup_def ipv6_registry_def to_lower_web ipv6_route_def route_config_def RouteWithHostRewrite_def)
  then have "\<exists>rewrite port. SplitHostPort ''[::1]:8080'' = Some (rewrite, port)"
    using c by (auto split: if_splits)
  ultimately show ?thesis by blast
qed

text \<open>An IPv6 rewrite is bracketed only when the URL host has a port: without one, the Host header is the
  bare literal, whose colons make it unreadable as a host (it does not split, and its last group reads as a
  port).\<close>

theorem HostRewrite_unbracketed_ipv6:
  "\<exists>r :: unit Registry. reg_inv r \<and> HostRewrite r ''web'' = Some ''::1'' \<and>
     HostRewrite r ''web:8080'' = Some ''[::1]:8080'' \<and> SplitHostPort ''::1'' = None"
proof (intro exI conjI)
  show "reg_inv ipv6_registry" by (rule run_reg_inv [OF ipv6_run])
qed (simp_all add: ipv6_rewrite SplitHostPort_def last_index_byte_def)

end
