(* ===== verification/Pipe.thy ===== *)
theory Pipe
  imports Host_Rewrite
begin

text \<open>
  The two byte pipes of the program: \<open>bridgeConn\<close> of \<open>listenlocal.go\<close> (after its dial) and
  \<open>tunnel\<close> of \<open>proxy/connect.go\<close>. Both run two \<open>io.Copy\<close> loops, one per direction, and differ in what
  they do when a loop ends. A step of the pipe moves one byte or ends one loop; the loops interleave freely with each
  other and with the steps of the environment.

  The bytes a peer sends are given; that it ends its stream after them, so that a copy reads its end of file, is a step
  of the environment, which may never come. \<open>pp_broken\<close> is a ghost: somebody else (the
  registry's \<open>Close\<close>, or a failing peer) closed a connection.
\<close>

datatype pipe_mode = Bridge | Tunnel

record pipe =
  pp_req :: string          \<comment> \<open>request bytes the client will still send\<close>
  pp_up_got :: string
  pp_resp :: string         \<comment> \<open>response bytes the upstream will still send\<close>
  pp_cl_got :: string
  pp_req_eof :: bool        \<comment> \<open>the client ended its stream\<close>
  pp_resp_eof :: bool
  pp_req_done :: bool
  pp_resp_done :: bool
  pp_up_eof :: bool         \<comment> \<open>write side half-closed\<close>
  pp_cl_eof :: bool
  pp_up_closed :: bool
  pp_cl_closed :: bool
  pp_finished :: bool
  pp_broken :: bool

definition pipe_start :: "string \<Rightarrow> string \<Rightarrow> pipe" where
  "pipe_start req resp = \<lparr>pp_req = req, pp_up_got = [], pp_resp = resp, pp_cl_got = [],
     pp_req_eof = False, pp_resp_eof = False,
     pp_req_done = False, pp_resp_done = False, pp_up_eof = False, pp_cl_eof = False,
     pp_up_closed = False, pp_cl_closed = False, pp_finished = False, pp_broken = False\<rparr>"

text \<open>The end of the request copy, of the response copy, and of the function.\<close>

definition end_request :: "pipe_mode \<Rightarrow> bool \<Rightarrow> pipe \<Rightarrow> pipe" where
  "end_request mode up_cw p =
     (let p' = p\<lparr>pp_req_done := True\<rparr> in
      if up_cw then p'\<lparr>pp_up_eof := True\<rparr>
      else case mode of
        Bridge \<Rightarrow> p'
      | Tunnel \<Rightarrow> p'\<lparr>pp_up_closed := True, pp_cl_closed := True\<rparr>)"

definition end_response :: "pipe_mode \<Rightarrow> bool \<Rightarrow> pipe \<Rightarrow> pipe" where
  "end_response mode cl_cw p =
     (let p' = p\<lparr>pp_resp_done := True\<rparr> in
      if cl_cw then p'\<lparr>pp_cl_eof := True\<rparr>
      else case mode of
        Bridge \<Rightarrow> p'\<lparr>pp_cl_closed := True\<rparr>
      | Tunnel \<Rightarrow> p'\<lparr>pp_up_closed := True, pp_cl_closed := True\<rparr>)"

definition end_pipe :: "pipe \<Rightarrow> pipe" where
  "end_pipe p = p\<lparr>pp_up_closed := True, pp_cl_closed := True, pp_finished := True\<rparr>"

text \<open>
  When a copy has something to do: it has a byte to read. It ends when it reads the end of file, when its source was closed
  (\<open>Read\<close> fails), or when it read a byte and its destination was closed (\<open>Write\<close> fails). A copy that is blocked
  in \<open>Read\<close> does not notice that its destination was closed.
\<close>

definition request_ends :: "pipe \<Rightarrow> bool" where
  "request_ends p \<longleftrightarrow> pp_cl_closed p \<or> pp_req p = [] \<and> pp_req_eof p \<or> pp_req p \<noteq> [] \<and> pp_up_closed p"

definition response_ends :: "pipe \<Rightarrow> bool" where
  "response_ends p \<longleftrightarrow> pp_up_closed p \<or> pp_resp p = [] \<and> pp_resp_eof p \<or> pp_resp p \<noteq> [] \<and> pp_cl_closed p"

inductive pipe_own :: "pipe_mode \<Rightarrow> bool \<Rightarrow> bool \<Rightarrow> pipe \<Rightarrow> pipe \<Rightarrow> bool" for mode up_cw cl_cw where
  req_byte: "\<not> pp_req_done p \<Longrightarrow> \<not> pp_cl_closed p \<Longrightarrow> \<not> pp_up_closed p \<Longrightarrow> pp_req p = b # bs \<Longrightarrow>
    pipe_own mode up_cw cl_cw p (p\<lparr>pp_req := bs, pp_up_got := pp_up_got p @ [b]\<rparr>)"
| req_end: "\<not> pp_req_done p \<Longrightarrow> request_ends p \<Longrightarrow> pipe_own mode up_cw cl_cw p (end_request mode up_cw p)"
| resp_byte: "\<not> pp_resp_done p \<Longrightarrow> \<not> pp_cl_closed p \<Longrightarrow> \<not> pp_up_closed p \<Longrightarrow> pp_resp p = b # bs \<Longrightarrow>
    pipe_own mode up_cw cl_cw p (p\<lparr>pp_resp := bs, pp_cl_got := pp_cl_got p @ [b]\<rparr>)"
| resp_end: "\<not> pp_resp_done p \<Longrightarrow> response_ends p \<Longrightarrow> pipe_own mode up_cw cl_cw p (end_response mode cl_cw p)"
| finish: "pp_req_done p \<Longrightarrow> pp_resp_done p \<Longrightarrow> \<not> pp_finished p \<Longrightarrow> pipe_own mode up_cw cl_cw p (end_pipe p)"

inductive pipe_step :: "pipe_mode \<Rightarrow> bool \<Rightarrow> bool \<Rightarrow> pipe \<Rightarrow> pipe \<Rightarrow> bool" for mode up_cw cl_cw where
  own: "pipe_own mode up_cw cl_cw p p' \<Longrightarrow> pipe_step mode up_cw cl_cw p p'"
| client_ends: "pipe_step mode up_cw cl_cw p (p\<lparr>pp_req_eof := True\<rparr>)"
| upstream_ends: "pipe_step mode up_cw cl_cw p (p\<lparr>pp_resp_eof := True\<rparr>)"
| shutdown: "\<not> pp_finished p \<Longrightarrow>
    pipe_step mode up_cw cl_cw p (p\<lparr>pp_cl_closed := True, pp_broken := True\<rparr>)"
| upstream_fails: "\<not> pp_finished p \<Longrightarrow>
    pipe_step mode up_cw cl_cw p (p\<lparr>pp_up_closed := True, pp_broken := True\<rparr>)"

section \<open>Invariant\<close>

text \<open>
  In both directions what arrived is a prefix of what was sent. Without interference a bridge closes
  nothing before the response copy ended, so a response is complete when its copy ends; a tunnel
  whose connections support half-close closes nothing before both copies ended.
\<close>

definition pipe_inv :: "pipe_mode \<Rightarrow> bool \<Rightarrow> bool \<Rightarrow> string \<Rightarrow> string \<Rightarrow> pipe \<Rightarrow> bool" where
  "pipe_inv mode up_cw cl_cw req resp p \<longleftrightarrow>
     pp_up_got p @ pp_req p = req \<and> pp_cl_got p @ pp_resp p = resp \<and>
     (pp_up_eof p \<longleftrightarrow> up_cw \<and> pp_req_done p) \<and> (pp_cl_eof p \<longleftrightarrow> cl_cw \<and> pp_resp_done p) \<and>
     (pp_finished p \<longrightarrow> pp_req_done p \<and> pp_resp_done p \<and> pp_up_closed p \<and> pp_cl_closed p) \<and>
     (\<not> pp_broken p \<and> (mode = Bridge \<or> up_cw \<and> cl_cw) \<longrightarrow>
        (pp_up_closed p \<longrightarrow> pp_finished p) \<and>
        (pp_cl_closed p \<longrightarrow> pp_finished p \<or> \<not> cl_cw \<and> pp_resp_done p) \<and>
        (pp_resp_done p \<longrightarrow> pp_resp p = [] \<and> pp_resp_eof p) \<and>
        (cl_cw \<and> pp_req_done p \<longrightarrow> pp_req p = [] \<and> pp_req_eof p))"

lemma pipe_inv_start: "pipe_inv mode up_cw cl_cw req resp (pipe_start req resp)"
  by (simp add: pipe_inv_def pipe_start_def)

lemma pipe_inv_own:
  assumes "pipe_own mode up_cw cl_cw p p'" and "pipe_inv mode up_cw cl_cw req resp p"
  shows "pipe_inv mode up_cw cl_cw req resp p'"
  using assms
proof (cases rule: pipe_own.cases)
  case req_end
  with assms(2) show ?thesis
    by (cases mode) (auto simp: pipe_inv_def end_request_def request_ends_def Let_def)
next
  case resp_end
  with assms(2) show ?thesis
    by (cases mode) (auto simp: pipe_inv_def end_response_def response_ends_def Let_def)
qed (auto simp: pipe_inv_def end_pipe_def)

lemma pipe_inv_step:
  assumes "pipe_step mode up_cw cl_cw p p'" and "pipe_inv mode up_cw cl_cw req resp p"
  shows "pipe_inv mode up_cw cl_cw req resp p'"
  using assms
proof (cases rule: pipe_step.cases)
  case own
  then show ?thesis by (rule pipe_inv_own [OF _ assms(2)])
qed (auto simp: pipe_inv_def)

interpretation pipe_sys: step_system "\<lambda>p. p = pipe_start req resp" "pipe_step mode up_cw cl_cw"
    "pipe_inv mode up_cw cl_cw req resp"
  for mode up_cw cl_cw req resp
  by unfold_locales (auto intro: pipe_inv_start pipe_inv_step)

section \<open>Progress\<close>

text \<open>What is left to do for the pipe itself; no step of the environment adds to it.\<close>

definition pipe_work :: "pipe \<Rightarrow> nat" where
  "pipe_work p = (if pp_req_done p then 0 else Suc (length (pp_req p))) +
     (if pp_resp_done p then 0 else Suc (length (pp_resp p))) + (if pp_finished p then 0 else 1)"

lemma pipe_own_work: "pipe_own mode up_cw cl_cw p p' \<Longrightarrow> pipe_work p' < pipe_work p"
  by (cases mode; erule pipe_own.cases)
    (auto simp: pipe_work_def end_request_def end_response_def end_pipe_def Let_def)

lemma pipe_step_work: "pipe_step mode up_cw cl_cw p p' \<Longrightarrow> pipe_work p' \<le> pipe_work p"
proof (induction rule: pipe_step.induct)
  case (own p p')
  then show ?case by (rule less_imp_le [OF pipe_own_work])
qed (simp_all add: pipe_work_def)

text \<open>A copy that waits for its peer: nothing to read, no end of file, and its source is open.\<close>

definition waits_for_client :: "pipe \<Rightarrow> bool" where
  "waits_for_client p \<longleftrightarrow> \<not> pp_req_done p \<and> pp_req p = [] \<and> \<not> pp_req_eof p \<and> \<not> pp_cl_closed p"

definition waits_for_upstream :: "pipe \<Rightarrow> bool" where
  "waits_for_upstream p \<longleftrightarrow> \<not> pp_resp_done p \<and> pp_resp p = [] \<and> \<not> pp_resp_eof p \<and> \<not> pp_up_closed p"

lemma pipe_progress:
  assumes "\<not> pp_finished p" "\<not> waits_for_client p" "\<not> waits_for_upstream p"
  shows "\<exists>p'. pipe_own mode up_cw cl_cw p p'"
proof -
  consider "\<not> pp_req_done p" "request_ends p"
    | b bs where "\<not> pp_req_done p" "\<not> request_ends p" "pp_req p = b # bs"
    | "\<not> pp_resp_done p" "response_ends p"
    | b bs where "\<not> pp_resp_done p" "\<not> response_ends p" "pp_resp p = b # bs"
    | "pp_req_done p" "pp_resp_done p"
    using assms(2,3)
    by (cases "pp_req p"; cases "pp_resp p") (auto simp: waits_for_client_def waits_for_upstream_def request_ends_def response_ends_def)
  then show ?thesis
  proof cases
    case 2
    with pipe_own.req_byte [of p b bs] show ?thesis by (auto simp: request_ends_def)
  next
    case 4
    with pipe_own.resp_byte [of p b bs] show ?thesis by (auto simp: response_ends_def)
  qed (use assms(1) in \<open>blast intro: pipe_own.intros\<close>)+
qed

text \<open>Only a peer that keeps its stream open holds the pipe up, and only its own copy.\<close>

lemma pipe_stuck:
  assumes "\<And>p'. \<not> pipe_own mode up_cw cl_cw p p'" "\<not> pp_finished p"
  shows "waits_for_client p \<or> waits_for_upstream p"
    and "waits_for_client p \<or> pp_req_done p" and "waits_for_upstream p \<or> pp_resp_done p"
proof -
  show "waits_for_client p \<or> waits_for_upstream p" using pipe_progress assms by blast
  have "\<not> pp_req_done p \<Longrightarrow> \<not> request_ends p \<and> (pp_cl_closed p \<or> pp_up_closed p \<or> pp_req p = [])"
    using assms(1) pipe_own.req_end [of p] pipe_own.req_byte [of p] by (metis list.exhaust)
  then show "waits_for_client p \<or> pp_req_done p" by (auto simp: waits_for_client_def request_ends_def)
  have "\<not> pp_resp_done p \<Longrightarrow> \<not> response_ends p \<and> (pp_cl_closed p \<or> pp_up_closed p \<or> pp_resp p = [])"
    using assms(1) pipe_own.resp_end [of p] pipe_own.resp_byte [of p] by (metis list.exhaust)
  then show "waits_for_upstream p \<or> pp_resp_done p" by (auto simp: waits_for_upstream_def response_ends_def)
qed

section \<open>A tunnel without half-close\<close>

lemma pipe_start_simps [simp]:
  "pp_req (pipe_start req resp) = req" "pp_resp (pipe_start req resp) = resp"
  "\<not> pp_req_done (pipe_start req resp)" "\<not> pp_resp_done (pipe_start req resp)"
  "\<not> pp_broken (pipe_start req resp)" "\<not> pp_up_closed (pipe_start req resp)" "\<not> pp_cl_closed (pipe_start req resp)"
  "\<not> pp_finished (pipe_start req resp)" "pp_cl_got (pipe_start req resp) = []" "pp_up_got (pipe_start req resp) = []"
  by (simp_all add: pipe_start_def)

text \<open>A tunnel to a connection without half-close differs from a bridge: when the request ends first it tears both
  sides down, and the response can be lost without anybody interfering.\<close>

lemma tunnel_cuts_response:
  "\<exists>p. reachable (\<lambda>p. p = pipe_start [] [b]) (pipe_step Tunnel False cl_cw) p \<and> pp_finished p \<and>
     \<not> pp_broken p \<and> pp_cl_got p = []"
proof -
  let ?R = "reachable (\<lambda>p. p = pipe_start [] [b]) (pipe_step Tunnel False cl_cw)"
  let ?p0 = "(pipe_start [] [b])\<lparr>pp_req_eof := True\<rparr>"
  let ?p1 = "end_request Tunnel False ?p0"
  let ?p2 = "end_response Tunnel cl_cw ?p1"
  have "?R (pipe_start [] [b])" by (rule reachable.start) simp
  then have "?R ?p0" by (rule reachable.step) (rule pipe_step.client_ends)
  then have "?R ?p1"
    by (rule reachable.step) (rule pipe_step.own, rule pipe_own.req_end, simp_all add: request_ends_def)
  then have "?R ?p2"
    by (rule reachable.step)
       (rule pipe_step.own, rule pipe_own.resp_end, simp_all add: end_request_def response_ends_def pipe_start_def)
  then have "?R (end_pipe ?p2)"
    by (rule reachable.step) (rule pipe_step.own,
        rule pipe_own.finish, simp_all add: end_request_def end_response_def pipe_start_def Let_def)
  moreover have "pp_finished (end_pipe ?p2)" "\<not> pp_broken (end_pipe ?p2)" "pp_cl_got (end_pipe ?p2) = []"
    by (simp_all add: end_pipe_def end_request_def end_response_def pipe_start_def Let_def)
  ultimately show ?thesis by blast
qed

section \<open>Properties\<close>

text \<open>C10: The byte pipes deliver and end. However the two copy loops interleave with each other and with the peers, what
  arrives is a prefix of what was sent, and a pipe that has finished has closed both connections. If nobody else closed
  one, a finished bridge has delivered the whole response, even to an upstream without half-close, and a bridge or tunnel
  between connections with half-close has delivered the whole request too, having read both ends of file. A side that can
  be half-closed is half-closed exactly when the copy towards it has ended. Every step of the pipe itself reduces the
  work that is left, which no step of the environment adds to; and where no such step is possible the pipe has finished,
  or else each copy that has not ended waits for its own peer, which has sent all its bytes, has not ended its stream and
  was not closed.\<close>

theorem pipe_delivers:
  assumes "reachable (\<lambda>p. p = pipe_start req resp) (pipe_step mode up_cw cl_cw) p"
  shows "(\<exists>rest. req = pp_up_got p @ rest) \<and> (\<exists>rest. resp = pp_cl_got p @ rest) \<and>
    (pp_finished p \<longrightarrow> pp_up_closed p \<and> pp_cl_closed p) \<and>
    (pp_finished p \<and> \<not> pp_broken p \<and> (mode = Bridge \<or> up_cw \<and> cl_cw) \<longrightarrow> pp_cl_got p = resp \<and> pp_resp_eof p) \<and>
    (pp_finished p \<and> \<not> pp_broken p \<and> cl_cw \<and> (mode = Bridge \<or> up_cw) \<longrightarrow> pp_up_got p = req \<and> pp_req_eof p) \<and>
    (pp_up_eof p \<longleftrightarrow> up_cw \<and> pp_req_done p) \<and> (pp_cl_eof p \<longleftrightarrow> cl_cw \<and> pp_resp_done p) \<and>
    (\<forall>p'. pipe_own mode up_cw cl_cw p p' \<longrightarrow> pipe_work p' < pipe_work p) \<and>
    (\<forall>p'. pipe_step mode up_cw cl_cw p p' \<longrightarrow> pipe_work p' \<le> pipe_work p) \<and>
    ((\<forall>p'. \<not> pipe_own mode up_cw cl_cw p p') \<longrightarrow> pp_finished p \<or>
       (waits_for_client p \<or> waits_for_upstream p) \<and>
       (waits_for_client p \<or> pp_req_done p) \<and> (waits_for_upstream p \<or> pp_resp_done p))"
proof (intro conjI)
  note inv = pipe_sys.reachable_inv [OF assms]
  show "\<exists>rest. req = pp_up_got p @ rest" "\<exists>rest. resp = pp_cl_got p @ rest"
    using inv unfolding pipe_inv_def by blast+
  show "(\<forall>p'. \<not> pipe_own mode up_cw cl_cw p p') \<longrightarrow> pp_finished p \<or>
       (waits_for_client p \<or> waits_for_upstream p) \<and>
       (waits_for_client p \<or> pp_req_done p) \<and> (waits_for_upstream p \<or> pp_resp_done p)"
    using pipe_stuck by blast
qed (use pipe_sys.reachable_inv [OF assms] pipe_own_work pipe_step_work in \<open>auto simp: pipe_inv_def\<close>)

theorem pipe_delivers_witness:
  "\<exists>p. reachable (\<lambda>p. p = pipe_start [] ''hi'') (pipe_step Bridge True True) p \<and>
     pp_req_done p \<and> pp_up_eof p \<and> (\<exists>rest. ''hi'' = pp_cl_got p @ rest)"
proof -
  let ?R = "reachable (\<lambda>p. p = pipe_start [] ''hi'') (pipe_step Bridge True True)"
  let ?p1 = "(pipe_start [] ''hi'')\<lparr>pp_req_eof := True\<rparr>"
  have "?R (pipe_start [] ''hi'')" by (rule reachable.start) simp
  then have "?R ?p1" by (rule reachable.step) (rule pipe_step.client_ends)
  then have r: "?R (end_request Bridge True ?p1)"
    by (rule reachable.step) (rule pipe_step.own, rule pipe_own.req_end, simp_all add: request_ends_def)
  moreover have "pp_req_done (end_request Bridge True ?p1)" by (simp add: end_request_def)
  ultimately show ?thesis using pipe_delivers [OF r] by blast
qed

end
