(* ===== verification/Listen_Local.thy ===== *)
theory Listen_Local
  imports Pipe
begin

text \<open>
  \<open>listenlocal.go\<close>: local listeners that forward to a route. \<open>ListenLocal\<close> registers the listener with the
  registry's bridge set, \<open>bridgeAccept\<close> is the accept loop, \<open>bridgeConn\<close> the forwarding of one connection up
  to its two copy loops (the theory on pipes). What \<open>net.Listen\<close> and \<open>Accept\<close> return are inputs.
\<close>

section \<open>The set of listeners\<close>

definition bridges_add :: "nat \<Rightarrow> bridgeSet \<Rightarrow> bool \<times> bridgeSet" where
  "bridges_add l s = (if bs_closed s then (False, s) else (True, s\<lparr>bs_ls := bs_ls s @ [l]\<rparr>))"

definition bridges_remove :: "nat \<Rightarrow> bridgeSet \<Rightarrow> bridgeSet" where
  "bridges_remove l s = s\<lparr>bs_ls := remove1 l (bs_ls s)\<rparr>"

section \<open>ListenLocal\<close>

definition ListenLocal :: "'x Registry \<Rightarrow> string \<Rightarrow> goerr + nat \<Rightarrow> 'x world
    \<Rightarrow> (goerr + nat) \<times> 'x Registry \<times> 'x world" where
  "ListenLocal r name listen w =
     (if r_closed r then (Inl (Sentinel ErrClosed), r, w)
      else case Lookup r name of
        None \<Rightarrow> (Inl (Errorf ''portless: listen local %q: %w'' [name] [Sentinel ErrRouteNotFound]), r, w)
      | Some rt \<Rightarrow>
          (case bridgeDialPort rt of
             Inl err \<Rightarrow> (Inl (Errorf ''portless: listen local %q: %w'' [name] [err]), r, w)
           | Inr _ \<Rightarrow>
               (case listen of
                  Inl err \<Rightarrow> (Inl (Errorf ''portless: listen local %q: %w'' [name] [err]), r, w)
                | Inr l \<Rightarrow>
                    (case bridges_add l (r_bridges r) of
                       (False, bs) \<Rightarrow> (Inl (Sentinel ErrClosed), r, close_listener l w)
                     | (True, bs) \<Rightarrow> (Inr l, r\<lparr>r_bridges := bs\<rparr>, w)))))"

section \<open>The accept loop\<close>

text \<open>
  The results of successive \<open>Accept\<close> calls are a list, read up to where the loop returns. The loop
  returns the connections it handed to \<open>bridgeConn\<close>, why it ended, and the world.
\<close>

datatype accept_end = ListenerClosed | RegistryDone | StillAccepting

fun bridgeAccept :: "(goerr + conn) list \<Rightarrow> Backoff \<Rightarrow> 'x world \<Rightarrow> conn list \<times> accept_end \<times> Backoff \<times> 'x world" where
  "bridgeAccept [] bo w = ([], StillAccepting, bo, w)"
| "bridgeAccept (Inl err # rs) bo w =
     (if err_is NetErrClosed err then ([], ListenerClosed, bo, w)
      else case take_draw w of (draw, w1) \<Rightarrow>
           case backoff_Next draw bo of (delay, bo1) \<Rightarrow>
           case dial_wait Background (sint delay) w1 of
             (WakeDone, w2) \<Rightarrow> ([], RegistryDone, bo1, w2)
           | (_, w2) \<Rightarrow> bridgeAccept rs bo1 w2)"
| "bridgeAccept (Inr conn # rs) bo w =
     (case bridgeAccept rs (backoff_Reset bo) w of (cs, e, bo', w') \<Rightarrow> (conn # cs, e, bo', w'))"

definition accept_backoff :: Backoff where
  "accept_backoff = backoff_New 5000000 1000000000"

section \<open>One connection\<close>

text \<open>The context of the dial: cancelled when the registry closes.\<close>

definition bridge_ctx :: "'x world \<Rightarrow> ctx" where
  "bridge_ctx w = \<lparr>c_deadline = None, c_cancel = map_option (\<lambda>t. (t, Sentinel CtxCanceled)) (done_at w)\<rparr>"

definition bridge_fail :: "'x Registry \<Rightarrow> string \<Rightarrow> goerr \<Rightarrow> 'x world \<Rightarrow> 'x world" where
  "bridge_fail r name err w = emit (r_cfg r) ((event EventDialError name)\<lparr>ev_err := Some err\<rparr>) w"

text \<open>
  \<open>Some up\<close> is the upstream connection the two copy loops start with; \<open>None\<close> says that the client
  connection was closed without it. The outer option is the dial's.
\<close>

definition bridgeConn :: "'x Registry \<Rightarrow> conn \<Rightarrow> string \<Rightarrow> 'x world \<Rightarrow> (conn option \<times> 'x world) option" where
  "bridgeConn r conn name w =
     (if r_closed r then Some (None, close_conn conn w)
      else case Lookup r name of
        None \<Rightarrow> Some (None, close_conn conn (bridge_fail r name
                  (Errorf ''portless: bridge %q: %w'' [name] [Sentinel ErrRouteNotFound]) w))
      | Some rt \<Rightarrow>
          (case bridgeDialPort rt of
             Inl err \<Rightarrow> Some (None, close_conn conn (bridge_fail r name
                          (Errorf ''portless: bridge %q: %w'' [name] [err]) w))
           | Inr port \<Rightarrow>
               (case dialRoute (r_cfg r) rt (bridge_ctx w) ''tcp'' (JoinHostPort (rt_name rt) (itoa port)) w of
                  None \<Rightarrow> None
                | Some (Inl err, w1) \<Rightarrow> Some (None, close_conn conn w1)
                | Some (Inr up, w1) \<Rightarrow> Some (Some up, w1))))"

section \<open>Lemmas\<close>

text \<open>A closed set holds no listener; the registry's own set is closed with it.\<close>

definition bridges_inv :: "bridgeSet \<Rightarrow> bool" where
  "bridges_inv s \<longleftrightarrow> distinct (bs_ls s) \<and> (bs_closed s \<longrightarrow> bs_ls s = [])"

lemma bridges_inv_ops:
  "bridges_inv \<lparr>bs_ls = [], bs_closed = False\<rparr>"
  "bridges_inv s \<Longrightarrow> l \<notin> set (bs_ls s) \<Longrightarrow> bridges_inv (snd (bridges_add l s))"
  "bridges_inv s \<Longrightarrow> bridges_inv (bridges_remove l s)"
  "bridges_inv (snd (bridges_closeAll s))"
  by (auto simp: bridges_inv_def bridges_add_def bridges_remove_def bridges_closeAll_def)

lemma accept_backoff_inv: "backoff_inv accept_backoff"
  by (simp add: accept_backoff_def backoff_inv_New)

lemma bridgeAccept_conns:
  "bridgeAccept rs bo w = (cs, e, bo', w') \<Longrightarrow>
   \<exists>n \<le> length rs. cs = List.map_filter (\<lambda>x. case x of Inr c \<Rightarrow> Some c | Inl _ \<Rightarrow> None) (take n rs) \<and>
     (e = StillAccepting \<longrightarrow> n = length rs) \<and>
     (e = ListenerClosed \<longrightarrow> (\<exists>err. n < length rs \<and> rs ! n = Inl err \<and> err_is NetErrClosed err))"
proof (induction rs bo w arbitrary: cs e bo' w' rule: bridgeAccept.induct)
  case (1 bo w)
  then show ?case by (auto simp: map_filter_def)
next
  case (2 err rs bo w)
  show ?case
  proof (cases "err_is NetErrClosed err")
    case True
    with 2 show ?thesis by (auto simp: map_filter_def intro!: exI [of _ 0])
  next
    case False
    obtain draw w1 where d: "take_draw w = (draw, w1)" by fastforce
    obtain delay bo1 where n: "backoff_Next draw bo = (delay, bo1)" by fastforce
    obtain k w2 where s: "dial_wait Background (sint delay) w1 = (k, w2)" by fastforce
    show ?thesis
    proof (cases "k = WakeDone")
      case True
      with 2(3) False d n s show ?thesis by (auto simp: map_filter_def intro!: exI [of _ 0])
    next
      case k: False
      with 2(3) False d n s have rec: "bridgeAccept rs bo1 w2 = (cs, e, bo', w')"
        by (simp split: wake.splits)
      have "\<exists>n \<le> length rs. cs = List.map_filter (\<lambda>x. case x of Inr c \<Rightarrow> Some c | Inl _ \<Rightarrow> None) (take n rs) \<and>
          (e = StillAccepting \<longrightarrow> n = length rs) \<and>
          (e = ListenerClosed \<longrightarrow> (\<exists>err. n < length rs \<and> rs ! n = Inl err \<and> err_is NetErrClosed err))"
        using k 2(1,2) [OF False d [symmetric] n [symmetric] s [symmetric]] rec by (cases k) auto
      then obtain m where "m \<le> length rs"
        "cs = List.map_filter (\<lambda>x. case x of Inr c \<Rightarrow> Some c | Inl _ \<Rightarrow> None) (take m rs)"
        "e = StillAccepting \<longrightarrow> m = length rs"
        "e = ListenerClosed \<longrightarrow> (\<exists>err. m < length rs \<and> rs ! m = Inl err \<and> err_is NetErrClosed err)" by blast
      then show ?thesis by (intro exI [of _ "Suc m"]) (simp add: map_filter_def)
    qed
  qed
next
  case (3 conn rs bo w)
  then obtain cs' where rec: "bridgeAccept rs (backoff_Reset bo) w = (cs', e, bo', w')" and "cs = conn # cs'"
    by (auto split: prod.splits)
  from 3(1) [OF rec] obtain m where "m \<le> length rs"
    "cs' = List.map_filter (\<lambda>x. case x of Inr c \<Rightarrow> Some c | Inl _ \<Rightarrow> None) (take m rs)"
    "e = StillAccepting \<longrightarrow> m = length rs"
    "e = ListenerClosed \<longrightarrow> (\<exists>err. m < length rs \<and> rs ! m = Inl err \<and> err_is NetErrClosed err)" by blast
  with \<open>cs = conn # cs'\<close> show ?case by (intro exI [of _ "Suc m"]) (simp add: map_filter_def)
qed

section \<open>Listeners under concurrent ListenLocal and Close\<close>

text \<open>
  \<open>ListenLocal\<close> binds before it asks the set to track the listener and starts the accept loop after it; \<open>Close\<close> closes
  the channel \<open>done\<close> first, then takes the listeners out of the set, and closes them after it released the set; callers may
  close a listener themselves. An accept loop whose \<open>Accept\<close> failed waits for a timer or for \<open>done\<close> (\<open>ln_retry\<close>); when it
  ends, for whichever reason, its deferred call removes the listener from the set. Steps of these may interleave.
  \<open>ln_abandoned\<close> is a ghost: the listeners that a loop took out of the set because it saw \<open>done\<close>.
\<close>

record listeners =
  ln_set :: bridgeSet
  ln_bound :: "nat set"      \<comment> \<open>bound, not yet offered to the set\<close>
  ln_loops :: "nat set"      \<comment> \<open>the accept loop runs\<close>
  ln_retry :: "nat set"      \<comment> \<open>it waits before the next \<open>Accept\<close>\<close>
  ln_done :: bool            \<comment> \<open>\<open>done\<close> is closed\<close>
  ln_closing :: "nat set"    \<comment> \<open>taken by \<open>closeAll\<close>, not yet closed\<close>
  ln_open :: "nat set"
  ln_used :: "nat set"
  ln_abandoned :: "nat set"

definition accept_returns :: "nat \<Rightarrow> listeners \<Rightarrow> listeners" where
  "accept_returns l s = s\<lparr>ln_set := bridges_remove l (ln_set s), ln_loops := ln_loops s - {l}, ln_retry := ln_retry s - {l}\<rparr>"

inductive listen_step :: "listeners \<Rightarrow> listeners \<Rightarrow> bool" where
  bind: "l \<notin> ln_used s \<Longrightarrow>
    listen_step s (s\<lparr>ln_bound := insert l (ln_bound s), ln_open := insert l (ln_open s), ln_used := insert l (ln_used s)\<rparr>)"
| tracked: "l \<in> ln_bound s \<Longrightarrow> bridges_add l (ln_set s) = (True, bs) \<Longrightarrow>
    listen_step s (s\<lparr>ln_set := bs, ln_bound := ln_bound s - {l}, ln_loops := insert l (ln_loops s)\<rparr>)"
| refused: "l \<in> ln_bound s \<Longrightarrow> bridges_add l (ln_set s) = (False, bs) \<Longrightarrow>
    listen_step s (s\<lparr>ln_set := bs, ln_bound := ln_bound s - {l}, ln_open := ln_open s - {l}\<rparr>)"
| caller_close: "listen_step s (s\<lparr>ln_open := ln_open s - {l}\<rparr>)"
| accept_fails: "l \<in> ln_loops s \<Longrightarrow> listen_step s (s\<lparr>ln_retry := insert l (ln_retry s)\<rparr>)"
| accept_retries: "listen_step s (s\<lparr>ln_retry := ln_retry s - {l}\<rparr>)"
| accept_ends: "l \<in> ln_loops s \<Longrightarrow> l \<notin> ln_retry s \<Longrightarrow> l \<notin> ln_open s \<Longrightarrow> listen_step s (accept_returns l s)"
| accept_gives_up: "l \<in> ln_retry s \<Longrightarrow> ln_done s \<Longrightarrow>
    listen_step s ((accept_returns l s)\<lparr>ln_abandoned := ln_abandoned s \<union> ({l} \<inter> set (bs_ls (ln_set s)))\<rparr>)"
| close_done: "listen_step s (s\<lparr>ln_done := True\<rparr>)"
| close_all: "ln_done s \<Longrightarrow> bridges_closeAll (ln_set s) = (ls, bs) \<Longrightarrow>
    listen_step s (s\<lparr>ln_set := bs, ln_closing := ln_closing s \<union> set ls\<rparr>)"
| close_one: "l \<in> ln_closing s \<Longrightarrow>
    listen_step s (s\<lparr>ln_closing := ln_closing s - {l}, ln_open := ln_open s - {l}\<rparr>)"

definition no_listeners :: listeners where
  "no_listeners = \<lparr>ln_set = \<lparr>bs_ls = [], bs_closed = False\<rparr>, ln_bound = {}, ln_loops = {}, ln_retry = {}, ln_done = False,
     ln_closing = {}, ln_open = {}, ln_used = {}, ln_abandoned = {}\<rparr>"

definition listen_inv :: "listeners \<Rightarrow> bool" where
  "listen_inv s \<longleftrightarrow> bridges_inv (ln_set s) \<and>
     ln_open s \<subseteq> ln_bound s \<union> set (bs_ls (ln_set s)) \<union> ln_closing s \<union> ln_abandoned s \<and>
     ln_bound s \<inter> set (bs_ls (ln_set s)) = {} \<and>
     ln_bound s \<union> set (bs_ls (ln_set s)) \<subseteq> ln_used s \<and>
     (bs_closed (ln_set s) \<or> ln_abandoned s \<noteq> {} \<longrightarrow> ln_done s)"

lemma listen_inv_step: "listen_step s s' \<Longrightarrow> listen_inv s \<Longrightarrow> listen_inv s'"
proof (induction rule: listen_step.induct)
  case (tracked l s bs)
  then have "l \<notin> set (bs_ls (ln_set s))" by (auto simp: listen_inv_def)
  with tracked show ?case by (auto simp: listen_inv_def bridges_inv_def bridges_add_def split: if_splits)
next
  case (accept_ends l s)
  then have d: "distinct (bs_ls (ln_set s))" by (simp add: listen_inv_def bridges_inv_def)
  with accept_ends show ?case
    by (auto simp: listen_inv_def bridges_inv_def bridges_remove_def accept_returns_def)
next
  case (accept_gives_up l s)
  then have d: "distinct (bs_ls (ln_set s))" by (simp add: listen_inv_def bridges_inv_def)
  with accept_gives_up show ?case
    by (auto simp: listen_inv_def bridges_inv_def bridges_remove_def accept_returns_def)
qed (auto simp: listen_inv_def bridges_inv_def bridges_add_def bridges_closeAll_def split: if_splits)

interpretation listen_sys: step_system "\<lambda>s. s = no_listeners" listen_step listen_inv
proof unfold_locales
  show "s = no_listeners \<Longrightarrow> listen_inv s" for s
    by (simp add: no_listeners_def listen_inv_def bridges_inv_def)
qed (rule listen_inv_step)

abbreviation listen_reachable :: "listeners \<Rightarrow> bool" where
  "listen_reachable \<equiv> reachable (\<lambda>s. s = no_listeners) listen_step"

section \<open>Properties\<close>

text \<open>C18: Which local listeners can outlive the registry: whatever \<open>ListenLocal\<close>, the accept loops, callers and \<open>Close\<close> do
  concurrently, every open listener is about to be tracked, tracked, about to be closed, or was dropped from the set by
  an accept loop that was waiting to retry a failed \<open>Accept\<close> when \<open>Close\<close> had already closed \<open>done\<close>. So once the set was
  closed and these calls have ended the only listeners that can be open are such dropped ones, a listener bound too late
  being closed by its own call; and an accept loop that is not waiting to retry never drops an open listener.\<close>

theorem no_listener_leaks:
  assumes "listen_reachable s"
  shows "ln_open s \<subseteq> ln_bound s \<union> set (bs_ls (ln_set s)) \<union> ln_closing s \<union> ln_abandoned s \<and>
    (ln_abandoned s \<noteq> {} \<longrightarrow> ln_done s) \<and>
    (bs_closed (ln_set s) \<and> ln_bound s = {} \<and> ln_closing s = {} \<longrightarrow> ln_open s \<subseteq> ln_abandoned s) \<and>
    (\<forall>s'. listen_step s s' \<longrightarrow> ln_abandoned s' \<subseteq> ln_abandoned s \<union> (if ln_done s then ln_retry s else {}))"
proof (intro conjI allI impI)
  note inv = listen_sys.reachable_inv [OF assms]
  show "ln_abandoned s' \<subseteq> ln_abandoned s \<union> (if ln_done s then ln_retry s else {})" if "listen_step s s'" for s'
    using that by cases (auto simp: accept_returns_def)
qed (use listen_sys.reachable_inv [OF assms] in \<open>auto simp: listen_inv_def bridges_inv_def\<close>)

lemma listener_bound_late:
  "listen_reachable (no_listeners\<lparr>ln_set := \<lparr>bs_ls = [], bs_closed = True\<rparr>, ln_done := True, ln_used := {7}\<rparr>)"
proof -
  let ?s1 = "no_listeners\<lparr>ln_bound := {7}, ln_open := {7}, ln_used := {7}\<rparr>"
  let ?s2 = "?s1\<lparr>ln_done := True\<rparr>"
  let ?s3 = "?s2\<lparr>ln_set := \<lparr>bs_ls = [], bs_closed = True\<rparr>\<rparr>"
  have "listen_reachable no_listeners" by (rule reachable.start) simp
  moreover have "listen_step no_listeners ?s1" using listen_step.bind [of 7 no_listeners] by (simp add: no_listeners_def)
  ultimately have "listen_reachable ?s1" by (rule reachable.step)
  then have "listen_reachable ?s2" by (rule reachable.step) (rule listen_step.close_done)
  moreover have "listen_step ?s2 ?s3"
    using listen_step.close_all [of ?s2] by (simp add: bridges_closeAll_def no_listeners_def)
  ultimately have "listen_reachable ?s3" by (rule reachable.step)
  moreover have "listen_step ?s3 (no_listeners\<lparr>ln_set := \<lparr>bs_ls = [], bs_closed = True\<rparr>, ln_done := True, ln_used := {7}\<rparr>)"
    using listen_step.refused [of 7 ?s3] by (simp add: bridges_add_def no_listeners_def)
  ultimately show ?thesis by (rule reachable.step)
qed

theorem no_listener_leaks_witness:
  "ln_open (no_listeners\<lparr>ln_set := \<lparr>bs_ls = [], bs_closed = True\<rparr>, ln_done := True, ln_used := {7}\<rparr>) = {}"
  using no_listener_leaks [OF listener_bound_late] by (simp add: no_listeners_def)

text \<open>The dropped listener is real: an accept loop that waits to retry sees \<open>done\<close> and removes its listener before
  \<open>closeAll\<close> runs, so \<open>Close\<close> never closes it: a run ends with every call finished and the listener still open.\<close>

theorem retrying_listener_leaks:
  "\<exists>s. listen_reachable s \<and> bs_closed (ln_set s) \<and> ln_bound s = {} \<and> ln_closing s = {} \<and> ln_loops s = {} \<and> ln_open s = {7}"
proof -
  let ?s1 = "no_listeners\<lparr>ln_bound := {7}, ln_open := {7}, ln_used := {7}\<rparr>"
  let ?s2 = "?s1\<lparr>ln_set := \<lparr>bs_ls = [7], bs_closed = False\<rparr>, ln_bound := {}, ln_loops := {7}\<rparr>"
  let ?s3 = "?s2\<lparr>ln_retry := {7}\<rparr>"
  let ?s4 = "?s3\<lparr>ln_done := True\<rparr>"
  let ?s5 = "?s4\<lparr>ln_set := \<lparr>bs_ls = [], bs_closed = False\<rparr>, ln_loops := {}, ln_retry := {}, ln_abandoned := {7}\<rparr>"
  let ?s6 = "?s5\<lparr>ln_set := \<lparr>bs_ls = [], bs_closed = True\<rparr>\<rparr>"
  have "listen_reachable no_listeners" by (rule reachable.start) simp
  moreover have "listen_step no_listeners ?s1" using listen_step.bind [of 7 no_listeners] by (simp add: no_listeners_def)
  ultimately have "listen_reachable ?s1" by (rule reachable.step)
  moreover have "listen_step ?s1 ?s2"
    using listen_step.tracked [of 7 ?s1] by (simp add: bridges_add_def no_listeners_def)
  ultimately have "listen_reachable ?s2" by (rule reachable.step)
  moreover have "listen_step ?s2 ?s3" using listen_step.accept_fails [of 7 ?s2] by (simp add: no_listeners_def)
  ultimately have "listen_reachable ?s3" by (rule reachable.step)
  then have "listen_reachable ?s4" by (rule reachable.step) (rule listen_step.close_done)
  moreover have "listen_step ?s4 ?s5"
    using listen_step.accept_gives_up [of 7 ?s4] by (simp add: accept_returns_def bridges_remove_def no_listeners_def)
  ultimately have "listen_reachable ?s5" by (rule reachable.step)
  moreover have "listen_step ?s5 ?s6"
    using listen_step.close_all [of ?s5] by (simp add: bridges_closeAll_def no_listeners_def)
  ultimately have "listen_reachable ?s6" by (rule reachable.step)
  then show ?thesis by (intro exI [of _ ?s6]) (simp add: no_listeners_def)
qed

text \<open>A route whose parts end when their context does.\<close>

definition prompt_route :: "'x config \<Rightarrow> 'x Route \<Rightarrow> bool" where
  "prompt_route cfg rt \<longleftrightarrow> prompt_dial (bk_dial (rt_backend rt)) \<and> prompt_config cfg (rt_cfg rt) \<and>
     rt = make_route (rt_name rt) (rt_backend rt) (rt_cfg rt) (c_middleware cfg)"

lemma bridge_dial:
  assumes "prompt_route cfg rt"
  shows "\<exists>res w'. dialRoute cfg rt (bridge_ctx w) nw a w = Some (res, w') \<and> now w' \<le> max (now w) (now w + rc_readyTimeout (rt_cfg rt)) \<and>
    (\<forall>t. done_at w = Some t \<longrightarrow> now w' \<le> max (now w) t)"
proof -
  from assms have t: "timed_route cfg rt 0"
    using prompt_timed [of "rt_backend rt" cfg "rt_cfg rt" "rt_name rt"] by (simp add: prompt_route_def)
  obtain res w' where d: "dialRoute cfg rt (bridge_ctx w) nw a w = Some (res, w')"
    using timed_route.dialRoute_returns [OF t] by (metis surj_pair)
  have "now w' \<le> max (now w) (now w + rc_readyTimeout (rt_cfg rt))"
    using timed_route.dialRoute_return_time [OF t d dial_ctx_done_by] by (simp add: bridge_ctx_def)
  moreover have "now w' \<le> max (now w) x" if "done_at w = Some x" for x
  proof -
    have "done_by (dial_ctx rt (bridge_ctx w) w) x"
      using that by (auto simp: dial_ctx_def bridge_ctx_def WithTimeoutCause_def done_by_def ctx_done_def)
    from timed_route.dialRoute_return_time [OF t d this] show ?thesis by simp
  qed
  ultimately show ?thesis using d by blast
qed


text \<open>A connection bridged to a route whose server never accepts, in a registry that another goroutine closes at instant 900.\<close>

definition dead_registry :: "unit Registry" where
  "dead_registry = (registry_New [])\<lparr>r_routes := [(''web'', Some (plain_route ''web''
     (TCP (\<lambda>t nw a. (10, Inl (Sentinel ECONNREFUSED))) 1 ''h:1'')))]\<rparr>"


text \<open>The accept loop survives transient errors: whatever \<open>Accept\<close> returns in succession, every connection up
  to the point where the loop ends is handed on, in order; a \<open>net.ErrClosed\<close> error ends it and no other
  error does (only the close of the registry).\<close>

theorem accept_loop_hands_on:
  "case bridgeAccept rs accept_backoff w of (cs, e, bo', w') \<Rightarrow>
     \<exists>n \<le> length rs. cs = List.map_filter (\<lambda>x. case x of Inr c \<Rightarrow> Some c | Inl _ \<Rightarrow> None) (take n rs) \<and>
       (case e of StillAccepting \<Rightarrow> n = length rs
        | ListenerClosed \<Rightarrow> \<exists>err. n < length rs \<and> rs ! n = Inl err \<and> err_is NetErrClosed err
        | RegistryDone \<Rightarrow> True)"
proof -
  obtain cs e bo' w' where r: "bridgeAccept rs accept_backoff w = (cs, e, bo', w')" by (metis prod_cases4)
  from bridgeAccept_conns [OF r] show ?thesis unfolding r prod.case by (cases e) auto
qed

end
