(* ===== verification/Headers.thy ===== *)
theory Headers
  imports Listen_Local
begin

text \<open>
  HTTP headers as the standard library keeps them (a map from canonical names to lists of values) and
  \<open>stripHopByHop\<close> of \<open>proxy/forward.go\<close>.
\<close>

section \<open>http.Header\<close>

text \<open>\<open>textproto.CanonicalMIMEHeaderKey\<close>: a token is capitalised at its start and after each hyphen;
  anything that is no token is returned unchanged.\<close>

definition is_lower :: "char \<Rightarrow> bool" where
  "is_lower c \<longleftrightarrow> 97 \<le> byte c \<and> byte c \<le> 122"

definition is_upper :: "char \<Rightarrow> bool" where
  "is_upper c \<longleftrightarrow> 65 \<le> byte c \<and> byte c \<le> 90"

definition upper_char :: "char \<Rightarrow> char" where
  "upper_char c = (if is_lower c then char_of (byte c - 32) else c)"

definition is_token_byte :: "char \<Rightarrow> bool" where
  "is_token_byte c \<longleftrightarrow> is_lower c \<or> is_upper c \<or> is_digit c \<or> c \<in> set ''!#$%&*+-.^_|~'' \<or> byte c \<in> {39, 96}"

fun capitalise :: "bool \<Rightarrow> string \<Rightarrow> string" where
  "capitalise up [] = []"
| "capitalise up (c # cs) =
     (let c' = (if up then upper_char c else lower_char c) in c' # capitalise (c' = CHR ''-'') cs)"

definition canonical_key :: "string \<Rightarrow> string" where
  "canonical_key s = (if list_all is_token_byte s then capitalise True s else s)"

definition header_values :: "string \<Rightarrow> header \<Rightarrow> string list" where
  "header_values k h = (case map_of h (canonical_key k) of None \<Rightarrow> [] | Some vs \<Rightarrow> vs)"

definition header_del :: "string \<Rightarrow> header \<Rightarrow> header" where
  "header_del k h = AList.delete (canonical_key k) h"

definition header_add :: "string \<Rightarrow> string \<Rightarrow> header \<Rightarrow> header" where
  "header_add k v h = AList.update (canonical_key k) (header_values k h @ [v]) h"

lemma header_del_lookup [simp, go_http]:
  "map_of (header_del k h) x = (if x = canonical_key k then None else map_of h x)"
  by (simp add: header_del_def)

lemma header_add_lookup [simp, go_http]:
  "map_of (header_add k v h) x =
     (if x = canonical_key k then Some (header_values k h @ [v]) else map_of h x)"
  by (simp add: header_add_def)

lemma is_gomap_header [simp, go_http]:
  "is_gomap h \<Longrightarrow> is_gomap (header_del k h)" "is_gomap h \<Longrightarrow> is_gomap (header_add k v h)"
  by (simp_all add: header_del_def header_add_def)

section \<open>Hop-by-hop headers\<close>

definition hopByHop :: "string list" where
  "hopByHop = [''Connection'', ''Proxy-Connection'', ''Keep-Alive'', ''Proxy-Authenticate'',
     ''Proxy-Authorization'', ''Te'', ''Trailer'', ''Transfer-Encoding'', ''Upgrade'']"

definition del_token :: "header \<Rightarrow> string \<Rightarrow> header" where
  "del_token h tok = (let tok' = trim_space tok in if tok' \<noteq> [] then header_del tok' h else h)"

definition stripHopByHop :: "header \<Rightarrow> header" where
  "stripHopByHop h =
     (let h' = foldl (\<lambda>h line. foldl del_token h (split_on (CHR '','') line)) h (header_values ''Connection'' h)
      in foldl (\<lambda>h f. header_del f h) h' hopByHop)"

text \<open>The names a Connection header nominates.\<close>

definition nominated :: "header \<Rightarrow> string set" where
  "nominated h = {trim_space tok | line tok. line \<in> set (header_values ''Connection'' h) \<and>
     tok \<in> set (split_on (CHR '','') line) \<and> trim_space tok \<noteq> []}"

lemma del_tokens_lookup:
  "map_of (foldl del_token h toks) k =
     (if k \<in> canonical_key ` {trim_space t | t. t \<in> set toks \<and> trim_space t \<noteq> []} then None else map_of h k)"
  by (induction toks arbitrary: h) (auto simp: del_token_def Let_def)

lemma del_lines_lookup:
  "map_of (foldl (\<lambda>h line. foldl del_token h (split_on (CHR '','') line)) h lines) k =
     (if k \<in> canonical_key ` {trim_space t | line t. line \<in> set lines \<and> t \<in> set (split_on (CHR '','') line) \<and>
        trim_space t \<noteq> []} then None else map_of h k)"
proof (induction lines arbitrary: h)
  case (Cons line lines)
  show ?case
    by (simp add: Cons del_tokens_lookup) blast
qed simp

lemma del_names_lookup:
  "map_of (foldl (\<lambda>h f. header_del f h) h fs) k = (if k \<in> canonical_key ` set fs then None else map_of h k)"
  by (induction fs arbitrary: h) auto

lemma stripHopByHop_lookup:
  "map_of (stripHopByHop h) k =
     (if k \<in> canonical_key ` (nominated h \<union> set hopByHop) then None else map_of h k)"
  by (simp add: stripHopByHop_def Let_def del_names_lookup del_lines_lookup nominated_def image_Un)

lemma is_gomap_foldl:
  "(\<And>h x. is_gomap h \<Longrightarrow> is_gomap (f h x)) \<Longrightarrow> is_gomap h \<Longrightarrow> is_gomap (foldl f h xs)"
  by (induction xs arbitrary: h) auto

lemma is_gomap_strip [simp]: "is_gomap h \<Longrightarrow> is_gomap (stripHopByHop h)"
  unfolding stripHopByHop_def Let_def
  by (intro is_gomap_foldl) (auto simp: del_token_def Let_def intro!: is_gomap_foldl)

lemma hopByHop_canonical: "canonical_key ` set hopByHop = set hopByHop"
  by (simp add: hopByHop_def canonical_key_def is_token_byte_def is_lower_def is_upper_def byte_def
      upper_char_def lower_char_def Let_def)

end
