(* ===== verification/Proxy.thy ===== *)
theory Proxy
  imports Headers
begin

text \<open>
  The package \<open>proxy\<close>: dispatch, forwarding of absolute-form and TLS-terminated requests, CONNECT
  tunnels, and the life of the listener. The transport (\<open>http.Transport.RoundTrip\<close>) and what hijacking a
  client connection yields are parameters; the tunnel's bytes are the theory on pipes.
\<close>

section \<open>proxy/forward.go\<close>

text \<open>What a handler answers: an \<open>http.Error\<close> with the error its text ends in, or a response.\<close>

datatype reply = HttpError int string "goerr option" | HttpReply response

type_synonym rewriter = "string \<Rightarrow> string option"

text \<open>\<open>None\<close> for a dialer that does not implement \<open>hostRewriter\<close>.\<close>

definition applyHostRewrite :: "rewriter option \<Rightarrow> request \<Rightarrow> request" where
  "applyHostRewrite hr out =
     (case hr of None \<Rightarrow> out
      | Some f \<Rightarrow> (case f (rq_url_host out) of None \<Rightarrow> out | Some rewrite \<Rightarrow> out\<lparr>rq_host := rewrite\<rparr>))"

definition outgoing :: "rewriter option \<Rightarrow> request \<Rightarrow> request" where
  "outgoing hr r = applyHostRewrite hr (r\<lparr>rq_uri := [], rq_header := stripHopByHop (rq_header r)\<rparr>)"

definition copy_header :: "header \<Rightarrow> header \<Rightarrow> header" where
  "copy_header dst src = foldl (\<lambda>h (k, vv). foldl (\<lambda>h v. header_add k v h) h vv) dst src"

definition forward :: "rewriter option \<Rightarrow> 'x roundtrip \<Rightarrow> request \<Rightarrow> 'x world \<Rightarrow> reply \<times> 'x world" where
  "forward hr transport r w =
     (case transport (outgoing hr r) w of
        (Inl err, w') \<Rightarrow> (HttpError 502 ''portless proxy: '' (Some err), w')
      | (Inr resp, w') \<Rightarrow>
          (HttpReply (resp\<lparr>rs_header := copy_header [] (stripHopByHop (rs_header resp))\<rparr>), w'))"

definition handleAbsolute :: "rewriter option \<Rightarrow> 'x roundtrip \<Rightarrow> request \<Rightarrow> 'x world \<Rightarrow> reply \<times> 'x world" where
  "handleAbsolute hr transport r w = forward hr transport r w"

section \<open>proxy/tls.go\<close>

text \<open>The request a decrypted connection yields, made absolute for \<open>forward\<close>.\<close>

definition tls_request :: "string \<Rightarrow> request \<Rightarrow> request" where
  "tls_request connectHost req =
     (let host = (if rq_host req = [] then connectHost else rq_host req);
          host' = (case SplitHostPort host of Some (h, _) \<Rightarrow> h | None \<Rightarrow> host)
      in req\<lparr>rq_scheme := ''http'', rq_url_host := host'\<rparr>)"

text \<open>
  The listener that yields one connection: the first \<open>Accept\<close> returns it; the next blocks (\<open>None\<close>)
  until the connection was closed and then reports the end. \<open>Close\<close> closes the channel only once.
\<close>

record single_listener =
  sl_handed :: bool
  sl_closed :: bool
  sl_channel_closes :: nat

definition single_new :: single_listener where
  "single_new = \<lparr>sl_handed = False, sl_closed = False, sl_channel_closes = 0\<rparr>"

definition single_Accept :: "conn \<Rightarrow> single_listener \<Rightarrow> (goerr + conn) option \<times> single_listener" where
  "single_Accept c l =
     (if \<not> sl_handed l then (Some (Inr c), l\<lparr>sl_handed := True\<rparr>)
      else if sl_closed l then (Some (Inl (ErrNew ''EOF'')), l)
      else (None, l))"

definition notify_Close :: "single_listener \<Rightarrow> single_listener" where
  "notify_Close l =
     (if sl_closed l then l else l\<lparr>sl_closed := True, sl_channel_closes := Suc (sl_channel_closes l)\<rparr>)"

definition single_Close :: "single_listener \<Rightarrow> single_listener" where
  "single_Close l = notify_Close l"

section \<open>proxy/connect.go\<close>

text \<open>
  Hijacking: unsupported, failed, or the client connection with the bytes it had already sent.
\<close>

datatype hijack = NoHijacker | HijackFails goerr | Hijacked conn string

datatype connect_result =
    ConnectError int string "goerr option"   \<comment> \<open>answered with \<open>http.Error\<close>\<close>
  | ConnectAborted                            \<comment> \<open>a write failed; both sides closed\<close>
  | ConnectTunneled string                    \<comment> \<open>tunnel ran, after these buffered bytes\<close>
  | ConnectDecrypted                          \<comment> \<open>TLS was terminated: decrypted requests were served\<close>

text \<open>
  \<open>dialed\<close> is the outcome of the registry's dial; \<open>write_ok\<close> and \<open>copy_ok\<close> say whether the two writes
  before the tunnel succeed. The deferred \<open>Close\<close> calls run in reverse order.
\<close>

definition handleConnect :: "(goerr + conn) \<Rightarrow> string \<Rightarrow> hijack \<Rightarrow> bool \<Rightarrow> bool \<Rightarrow> 'x world
    \<Rightarrow> connect_result \<times> 'x world" where
  "handleConnect dialed host hj write_ok copy_ok w =
     (case dialed of
        Inl err \<Rightarrow> (ConnectError 502 (''portless proxy: dial '' @ host @ '': '') (Some err), w)
      | Inr backendConn \<Rightarrow>
          (case hj of
             NoHijacker \<Rightarrow>
               (ConnectError 500 ''portless proxy: hijacking unsupported'' None, close_conn backendConn w)
           | HijackFails err \<Rightarrow>
               (ConnectError 500 ''portless proxy: hijack: '' (Some err), close_conn backendConn w)
           | Hijacked clientConn buffered \<Rightarrow>
               (let closed = close_conn backendConn (close_conn clientConn w) in
                if \<not> write_ok then (ConnectAborted, closed)
                else if buffered \<noteq> [] \<and> \<not> copy_ok then (ConnectAborted, closed)
                else (ConnectTunneled buffered, closed))))"

text \<open>
  \<open>terminateTLS\<close> takes the same client connection over, but serves decrypted requests on it; each goes
  through \<open>forward\<close>. What the client had already sent when it was taken over is not read.
\<close>

definition terminateTLS :: "hijack \<Rightarrow> bool \<Rightarrow> 'x world \<Rightarrow> connect_result \<times> 'x world" where
  "terminateTLS hj write_ok w =
     (case hj of
        NoHijacker \<Rightarrow> (ConnectError 500 ''portless proxy: hijacking unsupported'' None, w)
      | HijackFails err \<Rightarrow> (ConnectError 500 ''portless proxy: hijack: '' (Some err), w)
      | Hijacked clientConn buffered \<Rightarrow>
          (if write_ok then ConnectDecrypted else ConnectAborted, close_conn clientConn w))"

definition tls_handler :: "rewriter option \<Rightarrow> 'x roundtrip \<Rightarrow> string \<Rightarrow> request \<Rightarrow> 'x world \<Rightarrow> reply \<times> 'x world" where
  "tls_handler hr transport connectHost req w = forward hr transport (tls_request connectHost req) w"

section \<open>proxy/proxy.go\<close>

datatype dispatch = ToTLS | ToConnect | ToAbsolute | BadRequest

definition ServeHTTP :: "bool \<Rightarrow> request \<Rightarrow> dispatch" where
  "ServeHTTP tls r =
     (if rq_method r = ''CONNECT'' then (if tls then ToTLS else ToConnect)
      else if rq_scheme r \<noteq> [] then ToAbsolute
      else BadRequest)"

definition registry_rewriter :: "'x Registry \<Rightarrow> rewriter option" where
  "registry_rewriter reg = Some (HostRewrite reg)"

text \<open>
  The whole CONNECT handler of a proxy over a registry; \<open>tls\<close> says whether it terminates TLS. Then nothing is dialed for
  the CONNECT itself.
\<close>

definition connect_via :: "'x Registry \<Rightarrow> bool \<Rightarrow> ctx \<Rightarrow> request \<Rightarrow> hijack \<Rightarrow> bool \<Rightarrow> bool \<Rightarrow> 'x world
    \<Rightarrow> (connect_result \<times> 'x world) option" where
  "connect_via reg tls ctx r hj write_ok copy_ok w =
     (if tls then Some (terminateTLS hj write_ok w)
      else case DialContext reg ctx ''tcp'' (rq_host r) w of
        None \<Rightarrow> None
      | Some (dialed, w') \<Rightarrow> Some (handleConnect dialed (rq_host r) hj write_ok copy_ok w'))"

text \<open>
  The address that \<open>http.Transport\<close> dials for a request: the host of its URL, with port 80 when there is none. The
  transport of \<open>New\<close> dials through the registry; a request for a host without an idle connection dials, and then
  \<open>exchange\<close> is what happens on the connection.
\<close>

definition dial_addr :: "request \<Rightarrow> string" where
  "dial_addr q = (case SplitHostPort (rq_url_host q) of
      Some (h, p) \<Rightarrow> JoinHostPort h (if p = [] then ''80'' else p)
    | None \<Rightarrow> JoinHostPort (rq_url_host q) ''80'')"

definition transport_dials :: "'x Registry \<Rightarrow> ctx \<Rightarrow> (conn \<Rightarrow> 'x roundtrip) \<Rightarrow> 'x roundtrip \<Rightarrow> bool" where
  "transport_dials reg ctx exchange tr \<longleftrightarrow>
     (\<forall>q w dialed w'. DialContext reg ctx ''tcp'' (dial_addr q) w = Some (dialed, w') \<longrightarrow>
        tr q w = (case dialed of Inl err \<Rightarrow> (Inl err, w') | Inr c \<Rightarrow> exchange c q w'))"

record proxy =
  px_done :: bool
  px_serving :: "nat list"
  px_tls :: bool

text \<open>\<open>New\<close> and its options; the logger is no part of the state.\<close>

definition WithTLS :: "proxy \<Rightarrow> proxy" where
  "WithTLS p = p\<lparr>px_tls := True\<rparr>"

definition WithLogger :: "proxy \<Rightarrow> proxy" where
  "WithLogger p = p"

definition proxy_New :: "(proxy \<Rightarrow> proxy) list \<Rightarrow> proxy" where
  "proxy_New opts = foldl (\<lambda>p opt. opt p) \<lparr>px_done = False, px_serving = [], px_tls = False\<rparr> opts"

text \<open>\<open>Serve\<close> of the proxy and of the control server, on what the HTTP server's \<open>Serve\<close> returns.\<close>

definition served :: "goerr option \<Rightarrow> goerr option" where
  "served res = (case res of None \<Rightarrow> None | Some err \<Rightarrow> if err_is HttpServerClosed err then None else Some err)"

definition proxy_Serve :: "goerr option \<Rightarrow> goerr option" where
  "proxy_Serve res = served res"

text \<open>The handler of a proxy, by the options it was built with.\<close>

definition proxy_dispatch :: "proxy \<Rightarrow> request \<Rightarrow> dispatch" where
  "proxy_dispatch p r = ServeHTTP (px_tls p) r"

text \<open>A CONNECT is terminated exactly when the proxy was built with \<open>WithTLS\<close>, however often it was started and closed.\<close>

lemma proxy_New_tls: "set opts \<subseteq> {WithTLS, WithLogger} \<Longrightarrow> px_tls (proxy_New opts) \<longleftrightarrow> WithTLS \<in> set opts"
proof -
  have ne: "WithTLS \<noteq> WithLogger"
  proof
    assume "WithTLS = WithLogger"
    then have "px_tls (WithTLS p) = px_tls (WithLogger p)" for p by simp
    from this [of "\<lparr>px_done = False, px_serving = [], px_tls = False\<rparr>"] show False by (simp add: WithTLS_def WithLogger_def)
  qed
  have "px_tls (foldl (\<lambda>p opt. opt p) p opts) \<longleftrightarrow> px_tls p \<or> WithTLS \<in> set opts" if "set opts \<subseteq> {WithTLS, WithLogger}" for p
    using that ne by (induction opts arbitrary: p) (auto simp: WithTLS_def WithLogger_def)
  then show "set opts \<subseteq> {WithTLS, WithLogger} \<Longrightarrow> px_tls (proxy_New opts) \<longleftrightarrow> WithTLS \<in> set opts"
    by (simp add: proxy_New_def)
qed

definition proxy_Start :: "proxy \<Rightarrow> ctx \<Rightarrow> string \<Rightarrow> goerr + nat \<Rightarrow> 'x world \<Rightarrow> (goerr + nat) \<times> proxy \<times> 'x world" where
  "proxy_Start p ctx listenAddr listen w =
     (case listen of
        Inl err \<Rightarrow> (Inl (Errorf ''proxy: listen %s: %w'' [listenAddr] [err]), p, w)
      | Inr l \<Rightarrow>
          if ctx_Err ctx (now w) \<noteq> None then (Inr l, p, close_listener l w)
          else (Inr l, p\<lparr>px_serving := l # px_serving p\<rparr>, w))"

definition proxy_Close :: "proxy \<Rightarrow> 'x world \<Rightarrow> proxy \<times> 'x world" where
  "proxy_Close p w =
     (if px_done p then (p, w)
      else (p\<lparr>px_done := True, px_serving := []\<rparr>, foldl (\<lambda>w l. close_listener l w) w (px_serving p)))"

section \<open>Lemmas\<close>

lemma header_add_all_lookup:
  "vv \<noteq> [] \<Longrightarrow> map_of (foldl (\<lambda>h v. header_add k v h) h vv) x =
     (if x = canonical_key k then Some (header_values k h @ vv) else map_of h x)"
proof (induction vv arbitrary: h)
  case (Cons v vv)
  then show ?case by (cases vv) (auto simp: header_values_def)
qed simp

lemma copy_header_lookup:
  assumes "\<forall>(k, vv) \<in> set src. canonical_key k = k \<and> vv \<noteq> []" and "is_gomap src"
  shows "map_of (copy_header dst src) x =
    (case map_of src x of None \<Rightarrow> map_of dst x
     | Some vv \<Rightarrow> Some ((case map_of dst x of None \<Rightarrow> [] | Some us \<Rightarrow> us) @ vv))"
  using assms
proof (induction src arbitrary: dst)
  case (Cons kv src)
  obtain k vv where kv: "kv = (k, vv)" by fastforce
  let ?dst = "foldl (\<lambda>h v. header_add k v h) dst vv"
  have "copy_header dst (kv # src) = copy_header ?dst src" by (simp add: copy_header_def kv)
  moreover have "map_of ?dst y = (if y = k then Some (header_values k dst @ vv) else map_of dst y)" for y
    using Cons.prems(1) kv by (simp add: header_add_all_lookup)
  moreover have "map_of src k = None" using Cons.prems(2) kv by (simp add: is_gomap_def map_of_eq_None_iff)
  ultimately show ?case
    using Cons.IH [of ?dst] Cons.prems kv by (auto simp: header_values_def is_gomap_def split: option.splits)
qed (simp add: copy_header_def split: option.split)

lemma strip_mem: "is_gomap h \<Longrightarrow> (k, v) \<in> set (stripHopByHop h) \<Longrightarrow> (k, v) \<in> set h"
  by (auto simp: is_gomap_mem stripHopByHop_lookup split: if_splits)

lemma outgoing_fields [simp, go_http]:
  "rq_header (outgoing hr r) = stripHopByHop (rq_header r)" "rq_uri (outgoing hr r) = []"
  "rq_method (outgoing hr r) = rq_method r" "rq_url_host (outgoing hr r) = rq_url_host r"
  "rq_scheme (outgoing hr r) = rq_scheme r" "rq_path (outgoing hr r) = rq_path r"
  "rq_query (outgoing hr r) = rq_query r" "rq_body (outgoing hr r) = rq_body r"
  "rq_host (outgoing hr r) = (case hr of None \<Rightarrow> rq_host r
     | Some f \<Rightarrow> (case f (rq_url_host r) of None \<Rightarrow> rq_host r | Some h \<Rightarrow> h))"
  by (simp_all add: outgoing_def applyHostRewrite_def split: option.splits)

text \<open>A header as the server hands it on: canonical names, each with at least one value.\<close>

definition server_header :: "header \<Rightarrow> bool" where
  "server_header h \<longleftrightarrow> is_gomap h \<and> (\<forall>(k, vv) \<in> set h. canonical_key k = k \<and> vv \<noteq> [])"

lemma copied_header_lookup:
  assumes "server_header h"
  shows "map_of (copy_header [] (stripHopByHop h)) k =
    (if k \<in> canonical_key ` (nominated h \<union> set hopByHop) then None else map_of h k)"
proof -
  from assms have gm: "is_gomap h" and ok: "\<forall>(k, vv) \<in> set h. canonical_key k = k \<and> vv \<noteq> []"
    by (simp_all add: server_header_def)
  have "\<forall>(k, vv) \<in> set (stripHopByHop h). canonical_key k = k \<and> vv \<noteq> []"
    using strip_mem [OF gm] ok by blast
  from copy_header_lookup [OF this is_gomap_strip [OF gm], of "[]" k] show ?thesis
    by (auto simp: stripHopByHop_lookup split: option.splits)
qed

section \<open>A response with a hop-by-hop header\<close>

definition demo_response :: response where
  "demo_response = \<lparr>rs_status = 204, rs_header = [(''Upgrade'', [''h2c'']), (''Etag'', [''x''])], rs_body = []\<rparr>"

definition demo_transport :: "Event list roundtrip" where
  "demo_transport req w = (Inr demo_response, w)"

definition demo_request :: request where
  "demo_request = \<lparr>rq_method = ''CONNECT'', rq_scheme = [], rq_url_host = [], rq_path = [], rq_query = [],
     rq_host = ''example.com:443'', rq_uri = [], rq_header = [], rq_body = []\<rparr>"

lemma demo_server_header: "server_header (rs_header demo_response)"
  by (simp add: demo_response_def server_header_def is_gomap_def canonical_key_def is_token_byte_def
      is_lower_def is_upper_def byte_def upper_char_def lower_char_def Let_def)

section \<open>Properties\<close>

text \<open>C14: What the proxy sends on: the request leaves with no hop-by-hop header and none that its Connection
  header nominated, in any letter case, with every other header, its method, its body and the scheme, host, path and query of its URL unchanged, and with
  a Host header that only a registered rewrite of the target route changes; the response comes back with the
  same status and body and its headers filtered in the same way, and a transport error becomes a 502.\<close>

theorem forward_filters_and_preserves:
  assumes "\<forall>resp w'. transport (outgoing hr r) w = (Inr resp, w') \<longrightarrow> server_header (rs_header resp)"
  shows "(\<forall>k. map_of (rq_header (outgoing hr r)) k =
      (if k \<in> canonical_key ` (nominated (rq_header r) \<union> set hopByHop) then None else map_of (rq_header r) k)) \<and>
    rq_method (outgoing hr r) = rq_method r \<and> rq_scheme (outgoing hr r) = rq_scheme r \<and> rq_url_host (outgoing hr r) = rq_url_host r \<and>
    rq_path (outgoing hr r) = rq_path r \<and> rq_query (outgoing hr r) = rq_query r \<and> rq_body (outgoing hr r) = rq_body r \<and>
    rq_host (outgoing hr r) = (case Option.bind hr (\<lambda>f. f (rq_url_host r)) of None \<Rightarrow> rq_host r | Some h \<Rightarrow> h) \<and>
    (case transport (outgoing hr r) w of
       (Inl err, w') \<Rightarrow> forward hr transport r w = (HttpError 502 ''portless proxy: '' (Some err), w')
     | (Inr resp, w') \<Rightarrow> \<exists>out. forward hr transport r w = (HttpReply out, w') \<and>
         rs_status out = rs_status resp \<and> rs_body out = rs_body resp \<and>
         (\<forall>k. map_of (rs_header out) k =
           (if k \<in> canonical_key ` (nominated (rs_header resp) \<union> set hopByHop) then None
            else map_of (rs_header resp) k)))"
  using assms copied_header_lookup
  by (simp add: stripHopByHop_lookup forward_def split: option.split sum.split prod.split)

theorem forward_filters_and_preserves_witness:
  "\<exists>out. forward None demo_transport demo_request demo_world = (HttpReply out, demo_world) \<and>
     rs_status out = 204 \<and> map_of (rs_header out) ''Upgrade'' = None"
proof -
  have h: "\<forall>resp w'. demo_transport (outgoing None demo_request) demo_world = (Inr resp, w') \<longrightarrow>
      server_header (rs_header resp)"
    by (auto simp: demo_transport_def demo_server_header)
  have "''Upgrade'' \<in> canonical_key ` (nominated (rs_header demo_response) \<union> set hopByHop)"
    unfolding image_Un hopByHop_canonical by (simp add: hopByHop_def)
  moreover have t: "demo_transport (outgoing None demo_request) demo_world = (Inr demo_response, demo_world)"
    by (simp add: demo_transport_def)
  note f = forward_filters_and_preserves [where transport = demo_transport and hr = None and r = demo_request
      and w = demo_world, OF h, THEN conjunct2, THEN conjunct2, THEN conjunct2, THEN conjunct2, THEN conjunct2, THEN conjunct2, THEN conjunct2, THEN conjunct2,
      unfolded t sum.case prod.case]
  then obtain out where "forward None demo_transport demo_request demo_world = (HttpReply out, demo_world)"
    "rs_status out = rs_status demo_response"
    "\<forall>k. map_of (rs_header out) k =
        (if k \<in> canonical_key ` (nominated (rs_header demo_response) \<union> set hopByHop) then None
         else map_of (rs_header demo_response) k)" by blast
  ultimately show ?thesis by (auto simp: demo_response_def)
qed

text \<open>A CONNECT never leaks a connection: whatever fails on the way (hijacking, the reply, the bytes already
  buffered), the backend connection is closed on every path, the client's too once it was taken over, and
  a dial error is answered with 502 before the client connection is touched.\<close>

theorem connect_closes_connections:
  "case handleConnect dialed host hj write_ok copy_ok w of (res, w') \<Rightarrow>
     (case dialed of
        Inl err \<Rightarrow> res = ConnectError 502 (''portless proxy: dial '' @ host @ '': '') (Some err) \<and> w' = w
      | Inr c \<Rightarrow> conn_id c \<in> set (closed_conns w') \<and>
          (case hj of Hijacked cl buffered \<Rightarrow> conn_id cl \<in> set (closed_conns w') \<and>
               (res = ConnectTunneled buffered \<or> res = ConnectAborted)
           | _ \<Rightarrow> \<exists>m e. res = ConnectError 500 m e))"
  by (simp add: handleConnect_def close_conn_def Let_def split: sum.split hijack.split)

lemma strict_dial_fails:
  assumes "c_fallback (r_cfg reg) = None" and "Lookup reg (hostOf a) = None"
  shows "\<exists>e. DialContext reg ctx nw a v = Some (Inl e, v) \<and> (err_is ErrRouteNotFound e \<or> err_is ErrClosed e)"
  using assms by (auto simp: Dial_value Lookup_published)

lemma forward_fails:
  assumes "transport_dials reg cx exchange tr" and "DialContext reg cx ''tcp'' (dial_addr q) v = Some (Inl e, v)"
  shows "forward hr tr q v = (HttpError 502 ''portless proxy: '' (Some e), v)"
proof -
  have "dial_addr (outgoing hr q) = dial_addr q" by (simp only: dial_addr_def outgoing_fields)
  with assms have "tr (outgoing hr q) v = (Inl e, v)" by (simp add: transport_dials_def)
  then show ?thesis by (simp add: forward_def)
qed


definition strict_transport :: "Event list roundtrip" where
  "strict_transport q w = (case DialContext (registry_New [WithStrict]) Background ''tcp'' (dial_addr q) w of
      Some (Inr c, w') \<Rightarrow> (Inr demo_response, w') | Some (Inl err, w') \<Rightarrow> (Inl err, w') | None \<Rightarrow> (Inl (ErrNew []), w))"


end
