(* ===== verification/Utf8.thy ===== *)
theory Utf8
  imports Prelude
begin

text \<open>
  What the program uses of \<open>unicode/utf8\<close> through \<open>encoding/json\<close>: the runes of a byte string, which strings are
  valid UTF-8, the replacement of invalid bytes by U+FFFD, and the encoding of a code point.
\<close>

named_theorems go_json "rules of the JSON coding"

section \<open>Runes\<close>

definition cont_byte :: "char \<Rightarrow> bool" where
  "cont_byte c \<longleftrightarrow> 128 \<le> byte c \<and> byte c < 192"

text \<open>The accepted range of the second byte, by the first.\<close>

definition second_byte :: "nat \<Rightarrow> char \<Rightarrow> bool" where
  "second_byte b c \<longleftrightarrow> (if b = 224 then 160 else if b = 240 then 144 else 128) \<le> byte c
     \<and> byte c < (if b = 237 then 160 else if b = 244 then 144 else 192)"

text \<open>The number of bytes of the first rune, 0 where no valid rune starts (\<open>utf8.DecodeRune\<close>).\<close>

definition rune_len :: "string \<Rightarrow> nat" where
  "rune_len s =
     (case s of
        [] \<Rightarrow> 0
      | c # cs \<Rightarrow>
          if byte c < 128 then 1
          else if 194 \<le> byte c \<and> byte c < 224 then
            (case cs of c1 # _ \<Rightarrow> if cont_byte c1 then 2 else 0 | _ \<Rightarrow> 0)
          else if 224 \<le> byte c \<and> byte c < 240 then
            (case cs of c1 # c2 # _ \<Rightarrow> if second_byte (byte c) c1 \<and> cont_byte c2 then 3 else 0 | _ \<Rightarrow> 0)
          else if 240 \<le> byte c \<and> byte c < 245 then
            (case cs of c1 # c2 # c3 # _ \<Rightarrow>
               if second_byte (byte c) c1 \<and> cont_byte c2 \<and> cont_byte c3 then 4 else 0 | _ \<Rightarrow> 0)
          else 0)"

text \<open>A string cut into its runes; an invalid byte is a piece of its own.\<close>

fun runes :: "string \<Rightarrow> string list" where
  "runes [] = []"
| "runes (c # cs) = (c # take (rune_len (c # cs) - 1) cs) # runes (drop (rune_len (c # cs) - 1) cs)"

definition valid_rune :: "string \<Rightarrow> bool" where
  "valid_rune r \<longleftrightarrow> rune_len r \<noteq> 0"

definition ValidString :: "string \<Rightarrow> bool" where
  "ValidString s \<longleftrightarrow> list_all valid_rune (runes s)"

definition RuneError :: string where
  "RuneError = map char_of [239, 191, 189 :: nat]"

definition fix_rune :: "string \<Rightarrow> string" where
  "fix_rune r = (if valid_rune r then r else RuneError)"

text \<open>\<open>strings.ToValidUTF8(s, "\uFFFD")\<close>, one replacement for each invalid byte.\<close>

definition to_valid :: "string \<Rightarrow> string" where
  "to_valid s = concat (map fix_rune (runes s))"

text \<open>\<open>utf8.EncodeRune\<close>.\<close>

definition EncodeRune :: "nat \<Rightarrow> string" where
  "EncodeRune n =
     (if n < 128 then [char_of n]
      else if n < 2048 then map char_of [192 + n div 64, 128 + n mod 64]
      else if 55296 \<le> n \<and> n < 57344 \<or> 1114112 \<le> n then RuneError
      else if n < 65536 then map char_of [224 + n div 4096, 128 + n div 64 mod 64, 128 + n mod 64]
      else map char_of [240 + n div 262144, 128 + n div 4096 mod 64, 128 + n div 64 mod 64, 128 + n mod 64])"

section \<open>Lemmas\<close>

text \<open>A piece that \<open>runes\<close> can produce: one byte, or a valid sequence of several.\<close>

definition is_piece :: "string \<Rightarrow> bool" where
  "is_piece r \<longleftrightarrow> r \<noteq> [] \<and> length r = max 1 (rune_len r)"

lemma list_upto4:
  obtains "s = []" | a where "s = [a]" | a b where "s = [a, b]" | a b c where "s = [a, b, c]"
  | a b c d t where "s = a # b # c # d # t"
  by (metis list.exhaust)

lemma rune_len_le: "rune_len s \<le> length s"
  by (auto simp: rune_len_def split: list.splits)

lemma rune_len_pos: "s \<noteq> [] \<Longrightarrow> byte (hd s) < 128 \<Longrightarrow> rune_len s = 1"
  by (cases s) (simp_all add: rune_len_def)

lemma rune_len_append: "rune_len s \<noteq> 0 \<Longrightarrow> rune_len (s @ t) = rune_len s"
  by (cases s rule: list_upto4) (simp_all add: rune_len_def split: if_splits)

lemma rune_len_take: "rune_len s \<noteq> 0 \<Longrightarrow> rune_len (take (rune_len s) s) = rune_len s"
  by (cases s rule: list_upto4) (simp_all add: rune_len_def split: if_splits)

lemma runes_piece: "valid_rune r \<Longrightarrow> is_piece r \<Longrightarrow> runes (r @ t) = r # runes t"
proof -
  assume v: "valid_rune r" and p: "is_piece r"
  then obtain c cs where r: "r = c # cs" by (cases r) (auto simp: is_piece_def)
  from v p have "rune_len r = length r" by (simp add: valid_rune_def is_piece_def)
  with v rune_len_append [of r t] show ?thesis by (simp add: r valid_rune_def)
qed

lemma runes_ascii [simp]: "byte c < 128 \<Longrightarrow> runes (c # s) = [c] # runes s"
  using runes_piece [of "[c]" s] by (simp add: valid_rune_def is_piece_def rune_len_def)

lemma runes_pieces: "list_all is_piece (runes s)"
proof (induction s rule: runes.induct)
  case (2 c cs)
  let ?n = "rune_len (c # cs)"
  have "is_piece (c # take (?n - 1) cs)"
  proof (cases "?n = 0")
    case True
    then have "rune_len [c] \<le> 1" and "rune_len [c] = 0 \<or> rune_len [c] = 1"
      using rune_len_le [of "[c]"] by auto
    with True show ?thesis by (auto simp: is_piece_def)
  next
    case False
    then have "take ?n (c # cs) = c # take (?n - 1) cs" by (simp add: take_Cons split: nat.splits)
    with rune_len_take [OF False] rune_len_le [of "c # cs"] False show ?thesis
      by (simp add: is_piece_def)
  qed
  with 2 show ?case by simp
qed simp

lemma concat_runes [simp]: "concat (runes s) = s"
  by (induction s rule: runes.induct) simp_all

lemma piece_fix: "is_piece r \<Longrightarrow> is_piece (fix_rune r) \<and> valid_rune (fix_rune r)"
  by (simp add: fix_rune_def RuneError_def valid_rune_def is_piece_def rune_len_def second_byte_def cont_byte_def)

lemma runes_concat: "list_all is_piece rs \<Longrightarrow> list_all valid_rune rs \<Longrightarrow> runes (concat rs) = rs"
  by (induction rs) (simp_all add: runes_piece)

lemma ValidString_to_valid [simp, go_json]: "ValidString (to_valid s)"
proof -
  have "list_all is_piece (map fix_rune (runes s))" "list_all valid_rune (map fix_rune (runes s))"
    using runes_pieces [of s] piece_fix by (simp_all add: list_all_iff)
  then show ?thesis using runes_concat unfolding ValidString_def to_valid_def by metis
qed

lemma to_valid_valid [simp, go_json]: "ValidString s \<Longrightarrow> to_valid s = s"
proof -
  assume "ValidString s"
  then have "map fix_rune (runes s) = runes s"
    by (intro map_idI) (simp add: ValidString_def list_all_iff fix_rune_def)
  then show ?thesis by (simp add: to_valid_def)
qed

lemma to_valid_eq_iff: "to_valid s = s \<longleftrightarrow> ValidString s"
  by (metis ValidString_to_valid to_valid_valid)

lemma to_valid_Nil_iff [simp]: "to_valid s = [] \<longleftrightarrow> s = []"
proof -
  have "fix_rune r \<noteq> []" if "is_piece r" for r using piece_fix [OF that] by (simp add: is_piece_def)
  with runes_pieces [of s] have "to_valid s = [] \<longleftrightarrow> runes s = []"
    by (auto simp: to_valid_def list_all_iff)
  then show ?thesis by (cases s) simp_all
qed

lemma ValidString_ascii: "\<forall>c \<in> set s. byte c < 128 \<Longrightarrow> ValidString s"
  by (induction s) (simp_all add: ValidString_def valid_rune_def rune_len_def)

lemma runes_append: "ValidString a \<Longrightarrow> runes (a @ b) = runes a @ runes b"
proof -
  have "runes (concat rs @ b) = rs @ runes b" if "list_all is_piece rs" "list_all valid_rune rs" for rs
    using that by (induction rs) (simp_all add: runes_piece)
  then show "ValidString a \<Longrightarrow> ?thesis" using runes_pieces [of a] unfolding ValidString_def by force
qed

lemma ValidString_append: "ValidString a \<Longrightarrow> ValidString b \<Longrightarrow> ValidString (a @ b)"
  by (simp add: ValidString_def runes_append)

lemma ValidString_piece: "is_piece r \<Longrightarrow> valid_rune r \<Longrightarrow> ValidString r"
  using runes_piece [of r "[]"] by (simp add: ValidString_def)

lemma ValidString_Nil [simp]: "ValidString []"
  by (simp add: ValidString_def)

lemma ValidString_RuneError [simp]: "ValidString RuneError"
  by (rule ValidString_piece) (simp_all add: RuneError_def is_piece_def valid_rune_def rune_len_def second_byte_def cont_byte_def)

lemma EncodeRune_piece: "is_piece (EncodeRune n) \<and> valid_rune (EncodeRune n)"
proof -
  consider "n < 128" | "128 \<le> n" "n < 2048" | "55296 \<le> n \<and> n < 57344 \<or> 1114112 \<le> n"
    | "2048 \<le> n" "n < 55296 \<or> 57344 \<le> n" "n < 65536" | "65536 \<le> n" "n < 1114112" by linarith
  then show ?thesis
  proof cases
    case 1
    then show ?thesis by (simp add: EncodeRune_def is_piece_def valid_rune_def rune_len_def)
  next
    case 2
    then have "2 \<le> n div 64" "n div 64 < 32" "n mod 64 < 64" by (simp_all add: less_mult_imp_div_less div_le_mono [of 128 n 64, simplified])
    with 2 show ?thesis by (simp add: EncodeRune_def is_piece_def valid_rune_def rune_len_def cont_byte_def)
  next
    case 3
    then have "EncodeRune n = RuneError" by (auto simp: EncodeRune_def)
    then show ?thesis by (simp add: RuneError_def is_piece_def valid_rune_def rune_len_def second_byte_def cont_byte_def)
  next
    case 4
    have d: "n div 4096 < 16" using 4 by (simp add: less_mult_imp_div_less)
    have e: "n = 4096 * (n div 4096) + 64 * (n div 64 mod 64) + n mod 64"
    proof -
      have "n div 64 div 64 = n div 4096" by (simp add: div_mult2_eq [symmetric])
      with div_mult_mod_eq [of n 64] div_mult_mod_eq [of "n div 64" 64] show ?thesis by linarith
    qed
    have m: "n div 64 mod 64 < 64" "n mod 64 < 64" by simp_all
    have "32 \<le> n div 64 mod 64" if "n div 4096 = 0" using e m that 4(1) by linarith
    moreover have "n div 64 mod 64 < 32" if "n div 4096 = 13" using e m that 4(2) by linarith
    ultimately show ?thesis using 4 d m
      by (auto simp: EncodeRune_def is_piece_def valid_rune_def rune_len_def second_byte_def cont_byte_def)
  next
    case 5
    have e: "n = 262144 * (n div 262144) + 4096 * (n div 4096 mod 64) + 64 * (n div 64 mod 64) + n mod 64"
    proof -
      have "n div 64 div 64 = n div 4096" "n div 4096 div 64 = n div 262144" by (simp_all add: div_mult2_eq [symmetric])
      with div_mult_mod_eq [of n 64] div_mult_mod_eq [of "n div 64" 64] div_mult_mod_eq [of "n div 4096" 64]
      show ?thesis by linarith
    qed
    have m: "n div 4096 mod 64 < 64" "n div 64 mod 64 < 64" "n mod 64 < 64" by simp_all
    have "n div 262144 < 5" using 5 by (simp add: less_mult_imp_div_less)
    moreover have "16 \<le> n div 4096 mod 64" if "n div 262144 = 0" using e m that 5(1) by linarith
    moreover have "n div 4096 mod 64 < 16" if "n div 262144 = 4" using e m that 5(2) by linarith
    ultimately show ?thesis using 5 m
      by (auto simp: EncodeRune_def is_piece_def valid_rune_def rune_len_def second_byte_def cont_byte_def)
  qed
qed

lemma ValidString_EncodeRune: "ValidString (EncodeRune n)"
  using EncodeRune_piece by (blast intro: ValidString_piece)

lemma ValidString_Cons: "byte c < 128 \<Longrightarrow> ValidString s \<Longrightarrow> ValidString (c # s)"
  by (simp add: ValidString_def valid_rune_def rune_len_def)

text \<open>No byte of a longer rune is ASCII, so a valid string can be cut at an ASCII character.\<close>

lemma second_byte_high: "second_byte b c \<Longrightarrow> 128 \<le> byte c"
  by (simp add: second_byte_def split: if_splits)

lemma rune_high:
  assumes "1 < rune_len s"
  shows "list_all (\<lambda>c. 128 \<le> byte c) (take (rune_len s) s)"
proof (cases s rule: list_upto4)
  case (5 a b c d t)
  consider "rune_len s = 2" "194 \<le> byte a" "cont_byte b" | "rune_len s = 3" "194 \<le> byte a" "second_byte (byte a) b" "cont_byte c"
    | "rune_len s = 4" "194 \<le> byte a" "second_byte (byte a) b" "cont_byte c" "cont_byte d"
    using assms unfolding rune_len_def 5 by (auto split: if_splits)
  then show ?thesis by cases (simp_all add: 5 cont_byte_def second_byte_high)
next
  case (4 a b c)
  consider "rune_len s = 2" "194 \<le> byte a" "cont_byte b" | "rune_len s = 3" "194 \<le> byte a" "second_byte (byte a) b" "cont_byte c"
    using assms unfolding rune_len_def 4 by (auto split: if_splits)
  then show ?thesis by cases (simp_all add: 4 cont_byte_def second_byte_high)
next
  case (3 a b)
  have "rune_len s = 2" "194 \<le> byte a" "cont_byte b"
    using assms unfolding rune_len_def 3 by (auto split: if_splits)
  then show ?thesis by (simp add: 3 cont_byte_def)
qed (use assms in \<open>auto simp: rune_len_def split: if_splits\<close>)

lemma ValidString_cut: "ValidString (a @ c # b) \<Longrightarrow> byte c < 128 \<Longrightarrow> ValidString a \<and> ValidString b"
proof (induction a rule: length_induct)
  case (1 a)
  show ?case
  proof (cases a)
    case Nil
    with 1(2,3) show ?thesis by (simp add: ValidString_def del: runes.simps(2))
  next
    case (Cons x xs)
    let ?s = "a @ c # b"
    define n where "n = rune_len ?s"
    from 1(2) Cons have n: "valid_rune (x # take (n - 1) (xs @ c # b))" "list_all valid_rune (runes (drop (n - 1) (xs @ c # b)))"
      by (simp_all add: ValidString_def n_def)
    then have "n \<noteq> 0"
      using Cons by (metis append_Cons n_def  diff_0_eq_0 take0 valid_rune_def rune_len_append append_take_drop_id)
    have le: "n \<le> length a"
    proof (rule ccontr)
      assume "\<not> n \<le> length a"
      moreover have "1 \<le> length a" using Cons by simp
      ultimately have "1 < n" "length a < n" by simp_all
      then have "c \<in> set (take n ?s)" by (auto simp: take_Cons' )
      with rune_high [of ?s] \<open>1 < n\<close> have "128 \<le> byte c" unfolding n_def list_all_iff by blast
      with 1(3) show False by simp
    qed
    let ?r = "x # take (n - 1) xs" and ?a = "drop (n - 1) xs"
    from le Cons have t: "n - 1 \<le> length xs" by simp
    with n have r: "valid_rune ?r" "ValidString (?a @ c # b)" by (simp_all add: ValidString_def)
    have "length ?a < length a" using Cons by simp
    with 1(1) r(2) 1(3) have IH: "ValidString ?a" "ValidString b" by blast+
    have a: "a = ?r @ ?a" using Cons by simp
    have "take n ?s = ?r" using t \<open>n \<noteq> 0\<close> Cons by (cases n) simp_all
    with rune_len_take [of ?s] \<open>n \<noteq> 0\<close> have "rune_len ?r = n" by (simp add: n_def)
    with t \<open>n \<noteq> 0\<close> have "is_piece ?r" by (simp add: is_piece_def)
    from ValidString_append [OF ValidString_piece [OF this r(1)] IH(1)] a IH(2) show ?thesis by simp
  qed
qed

end
