(* ===== verification/Json.thy ===== *)
theory Json
  imports Utf8
begin

text \<open>
  Strings in JSON, byte by byte: \<open>Marshal\<close> of a string with its escapes, the scanner that accepts what is
  between two quotes, \<open>Unmarshal\<close> of it, and the HTML escapes of compaction. A Go string is any sequence of bytes;
  JSON carries UTF-8, and both directions put U+FFFD for a byte that is no part of a valid sequence.
\<close>

section \<open>Strings\<close>

abbreviation dquote :: char where "dquote \<equiv> CHR 0x22"
abbreviation bslash :: char where "bslash \<equiv> CHR 0x5C"

definition lower_hex :: "nat \<Rightarrow> char" where
  "lower_hex n = (if n < 10 then char_of (48 + n) else char_of (87 + n))"

text \<open>\<open>htmlSafeSet\<close>: printable, and no character that ends the string or means something to HTML.\<close>

definition html_safe :: "char \<Rightarrow> bool" where
  "html_safe c \<longleftrightarrow> 32 \<le> byte c \<and> byte c < 128 \<and> c \<notin> {dquote, bslash, CHR ''<'', CHR ''>'', CHR ''&''}"

text \<open>U+2028 and U+2029, the line ends of JavaScript.\<close>

definition line_sep :: "string \<Rightarrow> bool" where
  "line_sep r \<longleftrightarrow> map byte r = [226, 128, 168] \<or> map byte r = [226, 128, 169]"

definition quote_rune :: "string \<Rightarrow> string" where
  "quote_rune r =
     (if \<not> valid_rune r then bslash # ''ufffd''
      else if line_sep r then bslash # ''u202'' @ [lower_hex (byte (last r) mod 16)]
      else case r of
        [c] \<Rightarrow>
          if html_safe c then [c]
          else if c = dquote \<or> c = bslash then [bslash, c]
          else if c = CHR 0x08 then bslash # ''b''
          else if c = CHR 0x0C then bslash # ''f''
          else if c = CHR 0x0A then bslash # ''n''
          else if c = CHR 0x0D then bslash # ''r''
          else if c = CHR 0x09 then bslash # ''t''
          else bslash # ''u00'' @ [lower_hex (byte c div 16), lower_hex (byte c mod 16)]
      | _ \<Rightarrow> r)"

text \<open>\<open>appendString\<close> without the quotes around it.\<close>

definition quote_body :: "string \<Rightarrow> string" where
  "quote_body s = concat (map quote_rune (runes s))"

definition hex4 :: "string \<Rightarrow> nat option" where
  "hex4 s =
     (case s of
        a # b # c # d # _ \<Rightarrow>
          (case (unhex a, unhex b, unhex c, unhex d) of
             (Some w, Some x, Some y, Some z) \<Rightarrow> Some (4096 * w + 256 * x + 16 * y + z)
           | _ \<Rightarrow> None)
      | _ \<Rightarrow> None)"

definition escapes :: "(char \<times> char) list" where
  "escapes = [(dquote, dquote), (bslash, bslash), (CHR ''/'', CHR ''/''), (CHR ''b'', CHR 0x08), (CHR ''f'', CHR 0x0C),
     (CHR ''n'', CHR 0x0A), (CHR ''r'', CHR 0x0D), (CHR ''t'', CHR 0x09)]"

text \<open>The scanner on the text after an opening quote: the raw contents of the string, and what follows it.\<close>

fun scan_string :: "string \<Rightarrow> (string \<times> string) option" where
  "scan_string [] = None"
| "scan_string (c # cs) =
     (if c = dquote then Some ([], cs)
      else if c = bslash then
        (case cs of
           [] \<Rightarrow> None
         | e # es \<Rightarrow>
             if (if e = CHR ''u'' then hex4 es \<noteq> None else map_of escapes e \<noteq> None) then
               map_option (apfst (\<lambda>t. c # e # t)) (scan_string es)
             else None)
      else if byte c < 32 then None
      else map_option (apfst (\<lambda>t. c # t)) (scan_string cs))"

text \<open>\<open>getu4\<close>: the code of an escape at the head of the text.\<close>

definition getu4 :: "string \<Rightarrow> nat option" where
  "getu4 s = (case s of b # u # t \<Rightarrow> if b = bslash \<and> u = CHR ''u'' then hex4 t else None | _ \<Rightarrow> None)"

definition surrogate :: "nat \<Rightarrow> bool" where
  "surrogate n \<longleftrightarrow> 55296 \<le> n \<and> n < 57344"

text \<open>\<open>utf16.DecodeRune\<close>, \<open>None\<close> when the two codes are no surrogate pair.\<close>

definition surrogate_pair :: "nat \<Rightarrow> nat option \<Rightarrow> nat option" where
  "surrogate_pair hi lo =
     (case lo of
        None \<Rightarrow> None
      | Some l \<Rightarrow>
          if 55296 \<le> hi \<and> hi < 56320 \<and> 56320 \<le> l \<and> l < 57344
          then Some ((hi - 55296) * 1024 + (l - 56320) + 65536) else None)"

text \<open>\<open>unquoteBytes\<close> of raw contents that the scanner accepted; it is not called on others.\<close>

fun unquote :: "string \<Rightarrow> string" where
  "unquote [] = []"
| "unquote (c # cs) =
     (if c = bslash then
        (case cs of
           [] \<Rightarrow> []
         | e # es \<Rightarrow>
             if e = CHR ''u'' then
               (case hex4 es of
                  None \<Rightarrow> []
                | Some n \<Rightarrow>
                    if surrogate n then
                      (case surrogate_pair n (getu4 (drop 4 es)) of
                         Some p \<Rightarrow> EncodeRune p @ unquote (drop 10 es)
                       | None \<Rightarrow> RuneError @ unquote (drop 4 es))
                    else EncodeRune n @ unquote (drop 4 es))
             else (case map_of escapes e of None \<Rightarrow> [] | Some d \<Rightarrow> d # unquote es))
      else if rune_len (c # cs) = 0 then RuneError @ unquote cs
      else (c # take (rune_len (c # cs) - 1) cs) @ unquote (drop (rune_len (c # cs) - 1) cs))"

text \<open>What the scanner accepts between two quotes.\<close>

definition string_ok :: "string \<Rightarrow> bool" where
  "string_ok t \<longleftrightarrow> scan_string (t @ [dquote]) = Some (t, [])"

text \<open>The escapes that compaction puts into the raw contents.\<close>

fun html_escape :: "string \<Rightarrow> string" where
  "html_escape [] = []"
| "html_escape (c # cs) =
     (if c \<in> {CHR ''<'', CHR ''>'', CHR ''&''} then
        bslash # ''u00'' @ [lower_hex (byte c div 16), lower_hex (byte c mod 16)] @ html_escape cs
      else if line_sep (c # take 2 cs) then
        bslash # ''u202'' @ [lower_hex (byte (cs ! 1) mod 16)] @ html_escape (drop 2 cs)
      else c # html_escape cs)"

subsection \<open>Lemmas\<close>

lemma unhex_lower_hex [simp, go_json]: "n < 16 \<Longrightarrow> unhex (lower_hex n) = Some n"
  by (simp add: unhex_def lower_hex_def)

lemma byte_div16 [simp]: "byte c div 16 < 16"
  using byte_less [of c] by (simp add: less_mult_imp_div_less)

lemma byte_mod16: "byte c mod 16 < 16"
  by simp

lemma byte_marks [simp]: "byte dquote = 34" "byte bslash = 92" "byte (CHR ''u'') = 117"
  by (simp_all add: byte_def)

lemma single_piece: "is_piece [c] \<Longrightarrow> valid_rune [c] \<Longrightarrow> byte c < 128"
  by (auto simp: valid_rune_def rune_len_def split: if_splits)

lemma line_sep_cases: "line_sep r \<Longrightarrow> r = map char_of [226, 128, 168 :: nat] \<or> r = map char_of [226, 128, 169 :: nat]"
proof -
  assume "line_sep r"
  then have "map char_of (map byte r) = map char_of [226, 128, 168 :: nat] \<or>
      map char_of (map byte r) = (map char_of [226, 128, 169 :: nat] :: string)"
    unfolding line_sep_def by metis
  then show ?thesis by (simp add: comp_def)
qed

lemma lower_hex_89: "lower_hex 8 = CHR ''8''" "lower_hex 9 = CHR ''9''"
  by (simp_all add: lower_hex_def char_of_def bit_iff_odd)

text \<open>Bytes that the scanner passes over.\<close>

definition plain_byte :: "char \<Rightarrow> bool" where
  "plain_byte c \<longleftrightarrow> 32 \<le> byte c \<and> c \<noteq> dquote \<and> c \<noteq> bslash"

lemma cont_byte_high: "cont_byte c \<Longrightarrow> 128 \<le> byte c" "second_byte b c \<Longrightarrow> 128 \<le> byte c"
  by (auto simp: cont_byte_def second_byte_def split: if_splits)

lemma plain_high: "128 \<le> byte c \<Longrightarrow> plain_byte c"
  by (auto simp: plain_byte_def)

lemma multi_byte_high:
  assumes "is_piece r" "valid_rune r" "\<nexists>c. r = [c]"
  shows "\<forall>c \<in> set r. 128 \<le> byte c"
proof -
  have n: "rune_len r = length r" "length r \<noteq> 1" using assms by (auto simp: is_piece_def valid_rune_def length_Suc_conv)
  show ?thesis
  proof (cases r rule: list_upto4)
    case (5 a b c d t)
    with n show ?thesis by (auto simp: rune_len_def dest: cont_byte_high split: if_splits)
  qed (use n in \<open>auto simp: rune_len_def dest: cont_byte_high split: if_splits\<close>)
qed

lemma quote_single:
  obtains "quote_rune [c] = [c]" "plain_byte c" | e where "quote_rune [c] = [bslash, e]" "map_of escapes e = Some c"
  | "quote_rune [c] = bslash # ''u00'' @ [lower_hex (byte c div 16), lower_hex (byte c mod 16)]" | "\<not> valid_rune [c]"
proof -
  assume plain: "quote_rune [c] = [c] \<Longrightarrow> plain_byte c \<Longrightarrow> thesis"
    and esc: "\<And>e. quote_rune [c] = [bslash, e] \<Longrightarrow> map_of escapes e = Some c \<Longrightarrow> thesis"
    and code: "quote_rune [c] = bslash # ''u00'' @ [lower_hex (byte c div 16), lower_hex (byte c mod 16)] \<Longrightarrow> thesis"
    and bad: "\<not> valid_rune [c] \<Longrightarrow> thesis"
  show thesis
  proof (cases "valid_rune [c] \<and> \<not> html_safe c")
    case False
    have "quote_rune [c] = [c]" if "valid_rune [c]" "html_safe c" using that by (simp add: quote_rune_def line_sep_def)
    with False plain bad show thesis by (auto simp: html_safe_def plain_byte_def)
  next
    case True
    show thesis
    proof (cases "c \<in> {dquote, bslash, CHR 0x08, CHR 0x0C, CHR 0x0A, CHR 0x0D, CHR 0x09}")
      case c: True
      with True have "\<exists>e. quote_rune [c] = [bslash, e] \<and> map_of escapes e = Some c"
        by (elim insertE) (simp_all add: quote_rune_def line_sep_def escapes_def)
      with esc show thesis by blast
    next
      case False
      with True code show thesis by (simp add: quote_rune_def line_sep_def)
    qed
  qed
qed

lemma quote_cases:
  assumes "is_piece r"
  obtains (plain) "valid_rune r" "quote_rune r = r" "list_all plain_byte r"
    | (escape) c e where "r = [c]" "valid_rune r" "quote_rune r = [bslash, e]" "map_of escapes e = Some c"
    | (code) c where "r = [c]" "valid_rune r" "byte c < 128"
        "quote_rune r = bslash # ''u00'' @ [lower_hex (byte c div 16), lower_hex (byte c mod 16)]"
    | (bad) "\<not> valid_rune r" "quote_rune r = bslash # ''ufffd''"
    | (ls) "r = map char_of [226, 128, 168 :: nat]" "valid_rune r" "quote_rune r = bslash # ''u2028''"
    | (ps) "r = map char_of [226, 128, 169 :: nat]" "valid_rune r" "quote_rune r = bslash # ''u2029''"
proof (cases "valid_rune r")
  case False
  with bad show thesis by (simp add: quote_rune_def)
next
  case v: True
  show thesis
  proof (cases "\<exists>c. r = [c]")
    case True
    then obtain c where r: "r = [c]" ..
    with v assms have c: "byte c < 128" by (simp add: single_piece)
    show thesis
    proof (cases c rule: quote_single)
      case 1
      with plain v r show thesis by simp
    next
      case (2 e)
      with escape v r show thesis by simp
    next
      case 3
      with code v r c show thesis by simp
    next
      case 4
      with v r show thesis by simp
    qed
  next
    case multi: False
    show thesis
    proof (cases "line_sep r")
      case True
      then consider "r = map char_of [226, 128, 168 :: nat]" | "r = map char_of [226, 128, 169 :: nat]"
        using line_sep_cases by blast
      then show thesis
        using ls ps v True by cases (simp_all add: quote_rune_def lower_hex_89)
    next
      case False
      with v multi have "quote_rune r = r" by (auto simp: quote_rune_def split: list.splits)
      moreover have "list_all plain_byte r"
        using multi_byte_high [OF assms v multi] by (fastforce simp: list_all_iff plain_byte_def)
      ultimately show thesis using plain v by blast
    qed
  qed
qed

lemma EncodeRune_ascii: "n < 128 \<Longrightarrow> EncodeRune n = [char_of n]"
  by (simp add: EncodeRune_def)

lemma hex4_low: "byte c < 128 \<Longrightarrow> hex4 (CHR ''0'' # CHR ''0'' # lower_hex (byte c div 16) # lower_hex (byte c mod 16) # t) = Some (byte c)"
  using div_mult_mod_eq [of "byte c" 16] by (simp add: hex4_def unhex_def [of "CHR ''0''"] byte_def [of "CHR ''0''"])

lemma unquote_escape: "map_of escapes e = Some c \<Longrightarrow> unquote (bslash # e # t) = c # unquote t"
  by (auto simp: escapes_def split: if_splits)

lemma unquote_code: "hex4 es = Some n \<Longrightarrow> \<not> surrogate n \<Longrightarrow> unquote (bslash # CHR ''u'' # es) = EncodeRune n @ unquote (drop 4 es)"
  by simp

lemma unquote_rune:
  assumes "is_piece r" "valid_rune r" "r \<noteq> [bslash]"
  shows "unquote (r @ t) = r @ unquote t"
proof -
  obtain c cs where r: "r = c # cs" using assms(1) by (cases r) (auto simp: is_piece_def)
  have n: "rune_len r = length r" using assms(1,2) by (auto simp: is_piece_def valid_rune_def)
  then have t: "rune_len (c # cs @ t) = Suc (length cs)"
    using rune_len_append [of r t] by (simp add: r)
  have "c \<noteq> bslash"
  proof
    assume "c = bslash"
    then have "rune_len r = 1" by (simp add: r rune_len_def)
    with n assms(3) \<open>c = bslash\<close> show False by (simp add: r)
  qed
  with t show ?thesis by (simp add: r)
qed

lemma hex4_codes: "hex4 (''fffd'' @ t) = Some 65533" "hex4 (''2028'' @ t) = Some 8232" "hex4 (''2029'' @ t) = Some 8233"
  by (simp_all add: hex4_def unhex_def byte_def)

lemma EncodeRune_codes: "EncodeRune 65533 = RuneError" "EncodeRune 8232 = map char_of [226, 128, 168 :: nat]"
  "EncodeRune 8233 = map char_of [226, 128, 169 :: nat]"
  by (simp_all add: EncodeRune_def RuneError_def)

lemma unquote_quote_rune:
  assumes "is_piece r"
  shows "unquote (quote_rune r @ t) = fix_rune r @ unquote t"
  using assms
proof (cases r rule: quote_cases)
  case plain
  then have "r \<noteq> [bslash]" by (auto simp: plain_byte_def)
  with unquote_rune [OF assms plain(1), of t] plain show ?thesis by (simp add: fix_rune_def)
next
  case (escape c e)
  with unquote_escape [of e c t] show ?thesis by (simp add: fix_rune_def)
next
  case (code c)
  with unquote_code [OF hex4_low [OF code(3), of t]] show ?thesis
    by (simp add: fix_rune_def EncodeRune_ascii surrogate_def)
next
  case bad
  with unquote_code [OF hex4_codes(1) [of t]] show ?thesis
    by (simp add: fix_rune_def EncodeRune_codes surrogate_def)
next
  case ls
  with unquote_code [OF hex4_codes(2) [of t]] show ?thesis
    by (simp add: fix_rune_def EncodeRune_codes surrogate_def)
next
  case ps
  with unquote_code [OF hex4_codes(3) [of t]] show ?thesis
    by (simp add: fix_rune_def EncodeRune_codes surrogate_def)
qed

text \<open>Marshalling a string and reading it back only repairs its UTF-8.\<close>

lemma unquote_quote_body [simp, go_json]: "unquote (quote_body s) = to_valid s"
proof -
  have "unquote (concat (map quote_rune rs)) = concat (map fix_rune rs)" if "list_all is_piece rs" for rs
    using that by (induction rs) (simp_all add: unquote_quote_rune)
  then show ?thesis using runes_pieces unfolding quote_body_def to_valid_def by blast
qed

lemma scan_plain: "list_all plain_byte xs \<Longrightarrow> scan_string (xs @ t) = map_option (apfst (\<lambda>u. xs @ u)) (scan_string t)"
  by (induction xs) (auto simp: plain_byte_def option.map_comp option.map_ident comp_def apfst_def map_prod_def split_def)

lemma scan_escape:
  "map_of escapes e \<noteq> None \<Longrightarrow> scan_string (bslash # e # t) = map_option (apfst (\<lambda>u. bslash # e # u)) (scan_string t)"
  by (auto simp: escapes_def)

lemma plain_hex: "n < 16 \<Longrightarrow> plain_byte (lower_hex n)"
  by (auto simp: plain_byte_def lower_hex_def byte_inj [symmetric])

lemma scan_code:
  assumes "hex4 (a # b # c # d # t) \<noteq> None" "list_all plain_byte [a, b, c, d]"
  shows "scan_string (bslash # CHR ''u'' # a # b # c # d # t) =
    map_option (apfst (\<lambda>u. bslash # CHR ''u'' # a # b # c # d # u)) (scan_string t)"
proof -
  have "scan_string (bslash # CHR ''u'' # a # b # c # d # t) =
      map_option (apfst (\<lambda>u. bslash # CHR ''u'' # u)) (scan_string ([a, b, c, d] @ t))"
    using assms(1) by simp
  then show ?thesis unfolding scan_plain [OF assms(2)] by (simp add: option.map_comp comp_def apfst_def map_prod_def split_def)
qed

lemma scan_quote_rune:
  assumes "is_piece r"
  shows "scan_string (quote_rune r @ t) = map_option (apfst (\<lambda>u. quote_rune r @ u)) (scan_string t)"
proof -
  have marks: "list_all plain_byte ''fffd''" "list_all plain_byte ''2028''" "list_all plain_byte ''2029''"
    "plain_byte (CHR ''0'')" by (simp_all add: plain_byte_def byte_def)
  from assms show ?thesis
  proof (cases r rule: quote_cases)
    case plain
    then show ?thesis by (simp add: scan_plain)
  next
    case (escape c e)
    then show ?thesis using scan_escape [of e t] by (simp del: scan_string.simps)
  next
    case (code c)
    then show ?thesis using scan_code [of "CHR ''0''" "CHR ''0''" "lower_hex (byte c div 16)" "lower_hex (byte c mod 16)" t]
      by (simp add: hex4_low plain_hex marks)
  next
    case bad
    then show ?thesis using scan_code [of "CHR ''f''" "CHR ''f''" "CHR ''f''" "CHR ''d''" t] hex4_codes(1) [of t] marks by simp
  next
    case ls
    then show ?thesis using scan_code [of "CHR ''2''" "CHR ''0''" "CHR ''2''" "CHR ''8''" t] hex4_codes(2) [of t] marks by simp
  next
    case ps
    then show ?thesis using scan_code [of "CHR ''2''" "CHR ''0''" "CHR ''2''" "CHR ''9''" t] hex4_codes(3) [of t] marks by simp
  qed
qed

lemma scan_quote_body: "scan_string (quote_body s @ t) = map_option (apfst (\<lambda>u. quote_body s @ u)) (scan_string t)"
proof -
  have "scan_string (concat (map quote_rune rs) @ t) = map_option (apfst (\<lambda>u. concat (map quote_rune rs) @ u)) (scan_string t)"
    if "list_all is_piece rs" for rs
    using that
  proof (induction rs)
    case (Cons r rs)
    then show ?case using scan_quote_rune [of r "concat (map quote_rune rs) @ t"]
      by (simp add: option.map_comp comp_def apfst_def map_prod_def split_def)
  qed (simp add: apfst_def map_prod_def option.map_id)
  then show ?thesis using runes_pieces unfolding quote_body_def by blast
qed

lemma string_ok_quote_body [simp, go_json]: "string_ok (quote_body s)"
  by (simp add: string_ok_def scan_quote_body)

lemma hex4_SomeD:
  "hex4 s \<noteq> None \<Longrightarrow> \<exists>a b c d t. s = a # b # c # d # t \<and> unhex a \<noteq> None \<and> unhex b \<noteq> None \<and> unhex c \<noteq> None \<and> unhex d \<noteq> None"
  by (cases s rule: list_upto4) (auto simp: hex4_def split: option.splits)

lemma unhex_dquote [simp]: "unhex dquote = None"
  by (simp add: unhex_def)

lemma hex4_cut: "hex4 (t @ dquote # r) \<noteq> None \<Longrightarrow> hex4 (t @ u) = hex4 (t @ dquote # r)"
  by (drule hex4_SomeD) (cases t rule: list_upto4; auto simp: hex4_def)

text \<open>The scanner cuts its input at the closing quote, whatever comes after that.\<close>

lemma scan_string_cut:
  "scan_string s = Some (t, r) \<Longrightarrow> s = t @ dquote # r \<and> scan_string (t @ dquote # r') = Some (t, r')"
proof (induction s arbitrary: t rule: scan_string.induct)
  case (2 c cs)
  consider "c = dquote" | e es u where "c = bslash" "cs = e # es" "scan_string es = Some (u, r)" "t = c # e # u"
      "if e = CHR ''u'' then hex4 es \<noteq> None else map_of escapes e \<noteq> None"
    | u where "c \<noteq> dquote" "c \<noteq> bslash" "\<not> byte c < 32" "scan_string cs = Some (u, r)" "t = c # u"
    using "2.prems" by (cases cs) (auto split: if_splits)
  then show ?case
  proof cases
    case 1
    with "2.prems" show ?thesis by auto
  next
    case (2 e es u)
    with "2.IH"(1) [of e es u] have "es = u @ dquote # r \<and> scan_string (u @ dquote # r') = Some (u, r')" by auto
    with 2 hex4_cut [of u r "dquote # r'"] show ?thesis by auto
  next
    case (3 u)
    with "2.IH"(2) [of u] show ?thesis by simp
  qed
qed simp

lemma scan_string_ok: "scan_string s = Some (t, r) \<Longrightarrow> s = t @ dquote # r \<and> string_ok t"
  using scan_string_cut [of s t r "[]"] by (simp add: string_ok_def)

lemma scan_string_append: "string_ok t \<Longrightarrow> scan_string (t @ dquote # r) = Some (t, r)"
  using scan_string_cut [of "t @ [dquote]" t "[]" r] by (simp add: string_ok_def)

subsection \<open>Escaping for HTML\<close>

lemma html_keep: "byte c < 128 \<Longrightarrow> c \<notin> {CHR ''<'', CHR ''>'', CHR ''&''} \<Longrightarrow> html_escape (c # cs) = c # html_escape cs"
  by (auto simp: line_sep_def)

lemma html_keep_high: "128 \<le> byte c \<Longrightarrow> byte c \<noteq> 226 \<Longrightarrow> html_escape (c # cs) = c # html_escape cs"
proof -
  assume c: "128 \<le> byte c" "byte c \<noteq> 226"
  then have "c \<notin> {CHR ''<'', CHR ''>'', CHR ''&''}" by (auto simp: byte_def)
  with c show ?thesis by (auto simp: line_sep_def)
qed

lemma hex_bytes: "unhex c \<noteq> None \<Longrightarrow> byte c < 128 \<and> c \<notin> {CHR ''<'', CHR ''>'', CHR ''&''}"
  by (auto simp: unhex_def byte_def split: if_splits)

lemma html_hex: "unhex c \<noteq> None \<Longrightarrow> html_escape (c # cs) = c # html_escape cs"
  using html_keep hex_bytes by blast

lemma line_sep_Cons: "line_sep (c # take 2 cs) \<Longrightarrow> \<exists>c2 cs2. cs = char_of (128 :: nat) # c2 # cs2 \<and> byte c = 226 \<and> (byte c2 = 168 \<or> byte c2 = 169)"
proof -
  assume l: "line_sep (c # take 2 cs)"
  then obtain c1 c2 cs2 where cs: "cs = c1 # c2 # cs2" by (cases cs rule: list_upto4) (auto simp: line_sep_def)
  with l have "byte c = 226" "byte c1 = 128" "byte c2 = 168 \<or> byte c2 = 169" by (auto simp: line_sep_def)
  moreover from this(2) have "c1 = char_of (128 :: nat)" using char_of_byte [of c1] by simp
  ultimately show ?thesis using cs by blast
qed

lemma html_copied: "c \<noteq> bslash \<Longrightarrow> html_escape s = c # t \<Longrightarrow> \<exists>s'. s = c # s' \<and> t = html_escape s'"
  by (cases s) (auto split: if_splits)

lemma html_idem [simp, go_json]: "html_escape (html_escape s) = html_escape s"
proof (induction s rule: html_escape.induct)
  case (2 c cs)
  have h: "html_escape (lower_hex n # t) = lower_hex n # html_escape t" if "n < 16" for n t
    using that hex_bytes [of "lower_hex n"] by (intro html_keep) auto
  have k: "html_escape (bslash # CHR ''u'' # CHR ''0'' # CHR ''0'' # t) = bslash # CHR ''u'' # CHR ''0'' # CHR ''0'' # html_escape t"
    "html_escape (bslash # CHR ''u'' # CHR ''2'' # CHR ''0'' # CHR ''2'' # t) = bslash # CHR ''u'' # CHR ''2'' # CHR ''0'' # CHR ''2'' # html_escape t" for t
    by (simp_all add: html_keep byte_def del: html_escape.simps)
  consider "c \<in> {CHR ''<'', CHR ''>'', CHR ''&''}" | "c \<notin> {CHR ''<'', CHR ''>'', CHR ''&''}" "line_sep (c # take 2 cs)"
    | "c \<notin> {CHR ''<'', CHR ''>'', CHR ''&''}" "\<not> line_sep (c # take 2 cs)" by blast
  then show ?case
  proof cases
    case 1
    then have e: "html_escape (c # cs) = bslash # CHR ''u'' # CHR ''0'' # CHR ''0'' # lower_hex (byte c div 16) # lower_hex (byte c mod 16) # html_escape cs"
      by simp
    show ?thesis unfolding e k h [OF byte_div16] h [OF byte_mod16] "2.IH"(1) [OF 1] ..
  next
    case 2
    then have e: "html_escape (c # cs) = bslash # CHR ''u'' # CHR ''2'' # CHR ''0'' # CHR ''2'' # lower_hex (byte (cs ! 1) mod 16) # html_escape (drop 2 cs)"
      by simp
    show ?thesis unfolding e k h [OF byte_mod16] "2.IH"(2) [OF 2] ..
  next
    case 3
    then have e: "html_escape (c # cs) = c # html_escape cs" by simp
    have "\<not> line_sep (c # take 2 (html_escape cs))"
    proof
      assume "line_sep (c # take 2 (html_escape cs))"
      then obtain c2 t where t: "html_escape cs = char_of (128 :: nat) # c2 # t" "byte c = 226" "byte c2 = 168 \<or> byte c2 = 169"
        using line_sep_Cons by blast
      then have b: "char_of (128 :: nat) \<noteq> bslash" "c2 \<noteq> bslash" by (auto simp: byte_inj [symmetric])
      from html_copied [OF b(1) t(1)] obtain cs' where "cs = char_of (128 :: nat) # cs'" "html_escape cs' = c2 # t" by auto
      moreover from html_copied [OF b(2) this(2)] obtain cs2 where "cs' = c2 # cs2" by auto
      ultimately have "line_sep (c # take 2 cs)" using t by (auto simp: line_sep_def)
      with 3 show False by blast
    qed
    with 3 e "2.IH"(3) show ?thesis by simp
  qed
qed simp

lemma scan_plain1: "plain_byte c \<Longrightarrow> scan_string (c # t) = map_option (apfst (\<lambda>u. c # u)) (scan_string t)"
  by (simp add: plain_byte_def)

lemma scan_plain1_D: "scan_string (c # t) = Some (c # u, r) \<Longrightarrow> plain_byte c \<Longrightarrow> scan_string t = Some (u, r)"
  unfolding scan_plain1 by (auto simp: apfst_def map_prod_def)

lemma plain_marks [simp]: "plain_byte (CHR ''0'')" "plain_byte (CHR ''2'')" "plain_byte (CHR ''8'')" "plain_byte (CHR ''9'')"
  by (simp_all add: plain_byte_def byte_def)

lemma scan_html:
  assumes "scan_string s = Some (t, r)"
  shows "scan_string (html_escape t @ dquote # r') = Some (html_escape t, r')"
  using assms
proof (induction s arbitrary: t rule: scan_string.induct)
  case (2 c cs)
  consider "c = dquote" | e es u where "c = bslash" "cs = e # es" "scan_string es = Some (u, r)" "t = c # e # u"
      "if e = CHR ''u'' then hex4 es \<noteq> None else map_of escapes e \<noteq> None"
    | u where "c \<noteq> dquote" "c \<noteq> bslash" "\<not> byte c < 32" "scan_string cs = Some (u, r)" "t = c # u"
    using "2.prems" by (cases cs) (auto split: if_splits)
  then show ?case
  proof cases
    case 1
    with "2.prems" show ?thesis by auto
  next
    case (2 e es u)
    then have IH: "scan_string (html_escape u @ dquote # r') = Some (html_escape u, r')" using "2.IH"(1) [of e es u] by auto
    have "byte e < 128 \<and> e \<notin> {CHR ''<'', CHR ''>'', CHR ''&''}"
      using 2(5) by (auto simp: escapes_def byte_def split: if_splits)
    then have t: "html_escape t = bslash # e # html_escape u" unfolding 2(1,4) by (simp add: html_keep del: html_escape.simps)
    have "hex4 (html_escape u @ dquote # r') \<noteq> None" if "e = CHR ''u''"
    proof -
      from 2 that have "hex4 (u @ dquote # r) \<noteq> None" using scan_string_ok [of es u r] by simp
      then obtain a b c d v where u: "u = a # b # c # d # v" "unhex a \<noteq> None" "unhex b \<noteq> None" "unhex c \<noteq> None" "unhex d \<noteq> None"
        using hex4_SomeD by (cases u rule: list_upto4) fastforce+
      then have "html_escape u = a # b # c # d # html_escape v" 
        by (simp only: u(1) html_hex [OF u(2)] html_hex [OF u(3)] html_hex [OF u(4)] html_hex [OF u(5)])
      with u show ?thesis by (auto simp: hex4_def)
    qed
    with 2(5) IH t show ?thesis by auto
  next
    case (3 u)
    then have IH: "scan_string (html_escape u @ dquote # r') = Some (html_escape u, r')" using "2.IH"(2) [of u] by simp
    have c: "plain_byte c" using 3 by (simp add: plain_byte_def)
    consider "c \<in> {CHR ''<'', CHR ''>'', CHR ''&''}" | "c \<notin> {CHR ''<'', CHR ''>'', CHR ''&''}" "line_sep (c # take 2 u)"
      | "c \<notin> {CHR ''<'', CHR ''>'', CHR ''&''}" "\<not> line_sep (c # take 2 u)" by blast
    then show ?thesis
    proof cases
      case 1
      then have "byte c < 128" by (auto simp: byte_def)
      with scan_code [of "CHR ''0''" "CHR ''0''" "lower_hex (byte c div 16)" "lower_hex (byte c mod 16)"] IH 1 \<open>t = c # u\<close>
      show ?thesis by (simp add: hex4_low plain_hex)
    next
      case 2
      then obtain c2 v where u: "u = char_of (128 :: nat) # c2 # v" "byte c = 226" "byte c2 = 168 \<or> byte c2 = 169"
        using line_sep_Cons by blast
      then have nl: "html_escape u = char_of (128 :: nat) # c2 # html_escape v"
        by (auto simp: html_keep_high simp del: html_escape.simps)
      have p: "plain_byte (char_of (128 :: nat))" "plain_byte c2" using u by (auto intro!: plain_high)
      have v: "scan_string (html_escape v @ dquote # r') = Some (html_escape v, r')"
        using scan_plain1_D [OF scan_plain1_D [OF IH [unfolded nl append_Cons] p(1)] p(2)] .
      have "lower_hex (byte c2 mod 16) = CHR ''8'' \<or> lower_hex (byte c2 mod 16) = CHR ''9''"
        using u(3) by (auto simp: lower_hex_89)
      then show ?thesis
      proof
        assume h: "lower_hex (byte c2 mod 16) = CHR ''8''"
        show ?thesis using scan_code [of "CHR ''2''" "CHR ''0''" "CHR ''2''" "CHR ''8''" "html_escape v @ dquote # r'"]
            hex4_codes(2) [of "html_escape v @ dquote # r'"] 2 \<open>t = c # u\<close> u(1) v h by simp
      next
        assume h: "lower_hex (byte c2 mod 16) = CHR ''9''"
        show ?thesis using scan_code [of "CHR ''2''" "CHR ''0''" "CHR ''2''" "CHR ''9''" "html_escape v @ dquote # r'"]
            hex4_codes(3) [of "html_escape v @ dquote # r'"] 2 \<open>t = c # u\<close> u(1) v h by simp
      qed
    next
      case 3
      with IH c \<open>t = c # u\<close> show ?thesis by (simp add: scan_plain1 del: scan_string.simps)
    qed
  qed
qed simp

lemma string_ok_html [simp, go_json]: "string_ok t \<Longrightarrow> string_ok (html_escape t)"
  using scan_html [of "t @ [dquote]" t "[]" "[]"] by (simp add: string_ok_def)

text \<open>What \<open>Marshal\<close> writes has nothing left to escape.\<close>

definition html_plain :: "char \<Rightarrow> bool" where
  "html_plain c \<longleftrightarrow> byte c \<noteq> 226 \<and> c \<notin> {CHR ''<'', CHR ''>'', CHR ''&''}"

lemma html_plain_append: "list_all html_plain xs \<Longrightarrow> html_escape (xs @ t) = xs @ html_escape t"
  by (induction xs) (auto simp: html_plain_def line_sep_def)

lemma html_valid_piece:
  assumes "is_piece r" "valid_rune r" "\<not> line_sep r" "list_all (\<lambda>c. c \<notin> {CHR ''<'', CHR ''>'', CHR ''&''}) r"
  shows "html_escape (r @ t) = r @ html_escape t"
proof -
  have n: "rune_len r = length r" using assms(1,2) by (auto simp: is_piece_def valid_rune_def)
  obtain c cs where r: "r = c # cs" using assms(1) by (cases r) (auto simp: is_piece_def)
  have "list_all html_plain cs"
    using n r assms(4) by (cases r rule: list_upto4) (auto simp: rune_len_def cont_byte_def second_byte_def html_plain_def split: if_splits)
  moreover have "\<not> line_sep (c # take 2 (cs @ t))"
  proof
    assume l: "line_sep (c # take 2 (cs @ t))"
    then have "byte c = 226" using line_sep_Cons [of c "cs @ t"] by auto
    then have "rune_len r \<in> {0, 3}" by (auto simp: r rune_len_def split: list.splits)
    with n r have "length cs = 2" by auto
    with l r assms(3) show False by simp
  qed
  ultimately show ?thesis using r assms(4) html_plain_append [of cs t] by simp
qed

lemma quote_same:
  assumes "is_piece r" "valid_rune r" "quote_rune r = r"
  shows "\<not> line_sep r" "list_all (\<lambda>c. c \<notin> {CHR ''<'', CHR ''>'', CHR ''&''}) r"
proof -
  show "\<not> line_sep r"
  proof
    assume l: "line_sep r"
    with assms(2,3) have "hd r = bslash" by (simp add: quote_rune_def) (metis list.sel(1))
    with line_sep_cases [OF l] show False by (auto simp: byte_inj [symmetric])
  qed
  show "list_all (\<lambda>c. c \<notin> {CHR ''<'', CHR ''>'', CHR ''&''}) r"
  proof (cases "\<exists>c. r = [c]")
    case True
    then obtain c where "r = [c]" ..
    with assms show ?thesis by (auto simp: quote_rune_def line_sep_def html_safe_def split: if_splits)
  next
    case False
    with multi_byte_high [OF assms(1,2)] show ?thesis by (fastforce simp: list_all_iff byte_def)
  qed
qed

lemma html_quote_rune:
  assumes "is_piece r"
  shows "html_escape (quote_rune r @ t) = quote_rune r @ html_escape t"
  using assms
proof (cases r rule: quote_cases)
  case plain
  with quote_same [OF assms] html_valid_piece [OF assms] show ?thesis by simp
next
  case (escape c e)
  then have "list_all html_plain (quote_rune r)" by (auto simp: html_plain_def escapes_def byte_def split: if_splits)
  then show ?thesis by (rule html_plain_append)
next
  case (code c)
  have "html_plain (lower_hex n)" if "n < 16" for n using that hex_bytes [of "lower_hex n"] by (auto simp: html_plain_def)
  with code have "list_all html_plain (quote_rune r)" by (auto simp: html_plain_def byte_def)
  then show ?thesis by (rule html_plain_append)
qed (rule html_plain_append, simp add: html_plain_def byte_def)+

lemma html_quote_body [simp, go_json]: "html_escape (quote_body s) = quote_body s"
proof -
  have "html_escape (concat (map quote_rune rs)) = concat (map quote_rune rs)" if "list_all is_piece rs" for rs
    using that by (induction rs) (simp_all add: html_quote_rune)
  then show ?thesis using runes_pieces unfolding quote_body_def by blast
qed

subsection \<open>Decoded strings are UTF-8\<close>

lemma ValidString_unquote [simp, go_json]: "ValidString (unquote t)"
proof (induction t rule: unquote.induct)
  case (2 c cs)
  show ?case
  proof (cases "c = bslash")
    case True
    show ?thesis
    proof (cases cs)
      case (Cons e es)
      show ?thesis
      proof (cases "e = CHR ''u''")
        case u: True
        show ?thesis
        proof (cases "hex4 es")
          case (Some n)
          show ?thesis
          proof (cases "surrogate n")
            case s: True
            show ?thesis
            proof (cases "surrogate_pair n (getu4 (drop 4 es))")
              case None
              with True Cons u Some s "2.IH"(1,2) [OF True Cons u Some s] show ?thesis by (simp add: ValidString_append)
            next
              case (Some p)
              with True Cons u \<open>hex4 es = Some n\<close> s "2.IH"(1,2) [OF True Cons u \<open>hex4 es = Some n\<close> s] show ?thesis
                by (simp add: ValidString_append ValidString_EncodeRune)
            qed
          next
            case False
            with True Cons u Some "2.IH"(3) [OF True Cons u Some False] show ?thesis
              by (simp add: ValidString_append ValidString_EncodeRune)
          qed
        qed (simp add: True Cons u)
      next
        case False
        show ?thesis
        proof (cases "map_of escapes e")
          case (Some d)
          then have "byte d < 128" by (auto simp: escapes_def byte_def split: if_splits)
          with True Cons False Some "2.IH"(4) [OF True Cons False Some] show ?thesis by (simp add: ValidString_Cons)
        qed (simp add: True Cons False)
      qed
    qed (simp add: True)
  next
    case False
    show ?thesis
    proof (cases "rune_len (c # cs) = 0")
      case True
      with False "2.IH"(5) show ?thesis by (simp add: ValidString_append)
    next
      case n: False
      let ?r = "c # take (rune_len (c # cs) - 1) cs"
      have "runes (c # cs) = ?r # runes (drop (rune_len (c # cs) - 1) cs)" by simp
      with runes_pieces [of "c # cs"] have "is_piece ?r" by simp
      moreover have "?r = take (rune_len (c # cs)) (c # cs)" using n by (cases "rune_len (c # cs)") simp_all
      with rune_len_take [OF n] n have "valid_rune ?r" by (simp add: valid_rune_def)
      ultimately have "ValidString ?r" by (rule ValidString_piece)
      with False n "2.IH"(6) show ?thesis using ValidString_append [of ?r] by simp
    qed
  qed
qed simp

end
