(* ===== verification/Json_Value.thy ===== *)
theory Json_Value
  imports Json Go_Net
begin

text \<open>
  JSON values: the scanner of \<open>encoding/json\<close> as a parser that keeps the text of strings and numbers, printing
  without spaces, and the round trip between the two. The parser takes fuel, and twice the length of its
  input is enough: \<open>json_value_fuel\<close>.
\<close>

section \<open>Numbers\<close>

text \<open>An optional minus, digits without a leading zero, an optional fraction, an optional exponent.\<close>

definition scan_digits :: "string \<Rightarrow> (string \<times> string) option" where
  "scan_digits s = (if takeWhile is_digit s = [] then None else Some (takeWhile is_digit s, dropWhile is_digit s))"

definition scan_int :: "string \<Rightarrow> (string \<times> string) option" where
  "scan_int s =
     (case s of [] \<Rightarrow> None | c # cs \<Rightarrow> if c = CHR ''0'' then Some ([c], cs) else scan_digits s)"

text \<open>An optional part: \<open>start\<close> opens it, \<open>body\<close> must follow then.\<close>

definition scan_opt :: "string \<Rightarrow> (string \<Rightarrow> (string \<times> string) option) \<Rightarrow> string \<Rightarrow> (string \<times> string) option" where
  "scan_opt start body s =
     (case s of
        [] \<Rightarrow> Some ([], [])
      | c # cs \<Rightarrow> if c \<in> set start then map_option (apfst (\<lambda>t. c # t)) (body cs) else Some ([], s))"

definition scan_signed :: "string \<Rightarrow> (string \<times> string) option" where
  "scan_signed s =
     (case s of
        [] \<Rightarrow> None
      | c # cs \<Rightarrow> if c \<in> set ''+-'' then map_option (apfst (\<lambda>t. c # t)) (scan_digits cs) else scan_digits s)"

text \<open>One scanner after another.\<close>

definition scan_then :: "(string \<Rightarrow> (string \<times> string) option) \<Rightarrow> (string \<Rightarrow> (string \<times> string) option)
    \<Rightarrow> string \<Rightarrow> (string \<times> string) option" where
  "scan_then f g s =
     (case f s of None \<Rightarrow> None | Some (t, r) \<Rightarrow> map_option (apfst (\<lambda>u. t @ u)) (g r))"

definition scan_minus :: "string \<Rightarrow> (string \<times> string) option" where
  "scan_minus s = (case s of [] \<Rightarrow> Some ([], []) | c # cs \<Rightarrow> if c = CHR ''-'' then Some ([c], cs) else Some ([], s))"

definition scan_number :: "string \<Rightarrow> (string \<times> string) option" where
  "scan_number = scan_then scan_minus (scan_then scan_int
     (scan_then (scan_opt ''.'' scan_digits) (scan_opt ''eE'' scan_signed)))"

definition number_ok :: "string \<Rightarrow> bool" where
  "number_ok t \<longleftrightarrow> scan_number t = Some (t, [])"

text \<open>What may follow a number without becoming a part of it.\<close>

definition ends_number :: "string \<Rightarrow> bool" where
  "ends_number r \<longleftrightarrow> (case r of [] \<Rightarrow> True | c # _ \<Rightarrow> \<not> is_digit c \<and> c \<notin> set ''.eE+-'')"

text \<open>A scanner cuts its input, and takes the same again before anything that starts like the rest did, or that
  cannot belong to a number.\<close>

definition good_scanner :: "(string \<Rightarrow> (string \<times> string) option) \<Rightarrow> bool" where
  "good_scanner f \<longleftrightarrow> (\<forall>s t r. f s = Some (t, r) \<longrightarrow>
     s = t @ r \<and> (\<forall>r'. take 1 r' = take 1 r \<or> ends_number r' \<longrightarrow> f (t @ r') = Some (t, r')))"

lemma good_scannerI:
  "(\<And>s t r. f s = Some (t, r) \<Longrightarrow> s = t @ r) \<Longrightarrow>
   (\<And>s t r r'. f s = Some (t, r) \<Longrightarrow> take 1 r' = take 1 r \<or> ends_number r' \<Longrightarrow> f (t @ r') = Some (t, r')) \<Longrightarrow> good_scanner f"
  unfolding good_scanner_def by blast

lemma good_scannerD:
  "good_scanner f \<Longrightarrow> f s = Some (t, r) \<Longrightarrow> s = t @ r"
  "good_scanner f \<Longrightarrow> f s = Some (t, r) \<Longrightarrow> take 1 r' = take 1 r \<or> ends_number r' \<Longrightarrow> f (t @ r') = Some (t, r')"
  unfolding good_scanner_def by blast+

lemma takeWhile_digits:
  "take 1 r' = take 1 (dropWhile is_digit s) \<or> ends_number r' \<Longrightarrow>
   takeWhile is_digit (takeWhile is_digit s @ r') = takeWhile is_digit s \<and> dropWhile is_digit (takeWhile is_digit s @ r') = r'"
proof -
  assume "take 1 r' = take 1 (dropWhile is_digit s) \<or> ends_number r'"
  moreover have "\<not> is_digit c" if "dropWhile is_digit s = c # cs" for c cs
    using hd_dropWhile [of is_digit s] that by simp
  ultimately have "r' = [] \<or> \<not> is_digit (hd r')"
    by (cases r'; cases "dropWhile is_digit s") (auto simp: ends_number_def)
  then have n: "takeWhile is_digit r' = []" "dropWhile is_digit r' = r'" by (cases r'; simp)+
  have t: "\<forall>c \<in> set (takeWhile is_digit s). is_digit c" using set_takeWhileD by fastforce
  with n show ?thesis by (simp add: takeWhile_append2 dropWhile_append2)
qed

lemma good_digits: "good_scanner scan_digits"
proof (rule good_scannerI)
  fix s t r r'
  assume "scan_digits s = Some (t, r)"
  then have t: "t = takeWhile is_digit s" "t \<noteq> []" "r = dropWhile is_digit s" by (auto simp: scan_digits_def split: if_splits)
  then show "s = t @ r" by simp
  assume "take 1 r' = take 1 r \<or> ends_number r'"
  with takeWhile_digits [of r' s] t show "scan_digits (t @ r') = Some (t, r')" by (simp add: scan_digits_def)
qed

lemma good_minus: "good_scanner scan_minus"
  by (rule good_scannerI) (auto simp: scan_minus_def ends_number_def split: list.splits if_splits)

lemma good_int: "good_scanner scan_int"
proof (rule good_scannerI)
  fix s t r r'
  assume f: "scan_int s = Some (t, r)"
  then obtain c cs where s: "s = c # cs" by (auto simp: scan_int_def split: list.splits)
  from f s good_scannerD(1) [OF good_digits] show "s = t @ r" by (auto simp: scan_int_def split: if_splits)
  assume r': "take 1 r' = take 1 r \<or> ends_number r'"
  show "scan_int (t @ r') = Some (t, r')"
  proof (cases "c = CHR ''0''")
    case True
    with f s show ?thesis by (auto simp: scan_int_def)
  next
    case False
    with f s have d: "scan_digits s = Some (t, r)" by (simp add: scan_int_def)
    then obtain ds where "t = c # ds" using s by (auto simp: scan_digits_def split: if_splits)
    with False good_scannerD(2) [OF good_digits d r'] show ?thesis by (simp add: scan_int_def)
  qed
qed

lemma good_signed: "good_scanner scan_signed"
proof (rule good_scannerI)
  fix s t r r'
  assume f: "scan_signed s = Some (t, r)"
  then obtain c cs where s: "s = c # cs" by (auto simp: scan_signed_def split: list.splits)
  from f s good_scannerD(1) [OF good_digits] show "s = t @ r" by (force simp: scan_signed_def split: if_splits)
  assume r': "take 1 r' = take 1 r \<or> ends_number r'"
  show "scan_signed (t @ r') = Some (t, r')"
  proof (cases "c \<in> set ''+-''")
    case True
    with f s obtain u where d: "scan_digits cs = Some (u, r)" "t = c # u" by (auto simp: scan_signed_def)
    with True good_scannerD(2) [OF good_digits d(1) r'] show ?thesis by (simp add: scan_signed_def)
  next
    case False
    with f s have d: "scan_digits s = Some (t, r)" by (simp add: scan_signed_def)
    then obtain ds where "t = c # ds" using s by (auto simp: scan_digits_def split: if_splits)
    with False good_scannerD(2) [OF good_digits d r'] show ?thesis by (simp add: scan_signed_def)
  qed
qed

lemma good_opt:
  assumes g: "good_scanner body" and st: "set start \<subseteq> set ''.eE''"
  shows "good_scanner (scan_opt start body)"
proof (rule good_scannerI)
  fix s t r r'
  assume f: "scan_opt start body s = Some (t, r)"
  then show "s = t @ r" using good_scannerD(1) [OF g] by (auto simp: scan_opt_def split: list.splits if_splits)
  assume r': "take 1 r' = take 1 r \<or> ends_number r'"
  show "scan_opt start body (t @ r') = Some (t, r')"
  proof (cases "s \<noteq> [] \<and> hd s \<in> set start")
    case True
    with f obtain c cs u where "s = c # cs" "c \<in> set start" "body cs = Some (u, r)" "t = c # u"
      by (auto simp: scan_opt_def split: list.splits if_splits)
    with good_scannerD(2) [OF g this(3) r'] show ?thesis by (simp add: scan_opt_def)
  next
    case False
    with f have t: "t = []" "r = s" by (auto simp: scan_opt_def split: list.splits)
    with r' False st have "r' = [] \<or> hd r' \<notin> set start"
      by (cases r'; cases s) (auto simp: ends_number_def)
    with t show ?thesis by (auto simp: scan_opt_def split: list.splits)
  qed
qed

lemma good_then:
  assumes "good_scanner f" "good_scanner g"
  shows "good_scanner (scan_then f g)"
proof (rule good_scannerI)
  fix s t r r'
  assume "scan_then f g s = Some (t, r)"
  then obtain t1 r1 t2 where f: "f s = Some (t1, r1)" and g: "g r1 = Some (t2, r)" and t: "t = t1 @ t2"
    by (auto simp: scan_then_def split: option.splits)
  from good_scannerD(1) [OF assms(1) f] good_scannerD(1) [OF assms(2) g] t show "s = t @ r" by simp
  assume r': "take 1 r' = take 1 r \<or> ends_number r'"
  have "take 1 (t2 @ r') = take 1 r1 \<or> ends_number (t2 @ r')"
    using r' good_scannerD(1) [OF assms(2) g] by (cases t2) auto
  from good_scannerD(2) [OF assms(1) f this] good_scannerD(2) [OF assms(2) g r'] t
  show "scan_then f g (t @ r') = Some (t, r')" by (simp add: scan_then_def)
qed

lemma good_number: "good_scanner scan_number"
  unfolding scan_number_def by (intro good_then good_minus good_int good_opt good_digits good_signed) auto

lemma scan_number_ok: "scan_number s = Some (t, r) \<Longrightarrow> s = t @ r \<and> number_ok t"
  using good_scannerD(1) [OF good_number, of s t r] good_scannerD(2) [OF good_number, of s t r "[]"]
  by (simp add: number_ok_def ends_number_def)

lemma scan_number_append: "number_ok t \<Longrightarrow> ends_number r \<Longrightarrow> scan_number (t @ r) = Some (t, r)"
  using good_scannerD(2) [OF good_number, of t t "[]" r] by (simp add: number_ok_def)

lemma number_ok_start: "number_ok t \<Longrightarrow> \<exists>c cs. t = c # cs \<and> (is_digit c \<or> c = CHR ''-'')"
proof -
  assume t: "number_ok t"
  then obtain a r where m: "scan_minus t = Some (a, r)" and i: "scan_int r \<noteq> None"
    by (auto simp: number_ok_def scan_number_def scan_then_def split: option.splits)
  show ?thesis
  proof (cases t)
    case Nil
    with m i show ?thesis by (simp add: scan_minus_def scan_int_def)
  next
    case (Cons c cs)
    have "is_digit c" if "c \<noteq> CHR ''-''"
    proof (rule ccontr)
      assume "\<not> is_digit c"
      moreover from this have "c \<noteq> CHR ''0''" by (auto simp: is_digit_def byte_def)
      ultimately show False using that m i Cons by (auto simp: scan_minus_def scan_int_def scan_digits_def)
    qed
    with Cons show ?thesis by auto
  qed
qed

text \<open>The text of an integer is a number.\<close>

lemma itoa_nat_zero: "itoa_nat n = CHR ''0'' # cs \<Longrightarrow> cs = []"
proof (induction n arbitrary: cs rule: itoa_nat.induct)
  case (1 n)
  show ?case
  proof (cases "n < 10")
    case True
    with 1(2) show ?thesis by (subst (asm) itoa_nat.simps) simp
  next
    case False
    with 1(2) have e: "itoa_nat (n div 10) @ [digit_char (n mod 10)] = CHR ''0'' # cs"
      by (subst (asm) itoa_nat.simps) simp
    then obtain ds where "itoa_nat (n div 10) = CHR ''0'' # ds" by (cases "itoa_nat (n div 10)") auto
    with 1(1) [OF False] have "itoa_nat (n div 10) = ''0''" by simp
    then have "digits_val 0 (itoa_nat (n div 10)) = Some 0" by (simp add: digit_val_def is_digit_def byte_def)
    with False show ?thesis by (simp add: digits_val_itoa_nat)
  qed
qed

lemma number_ok_itoa: "number_ok (itoa i)"
proof -
  have d: "scan_int (itoa_nat n) = Some (itoa_nat n, [])" for n
  proof -
    obtain c cs where s: "itoa_nat n = c # cs" by (cases "itoa_nat n") auto
    have "\<forall>x \<in> set (itoa_nat n). is_digit x" using itoa_nat_digits by blast
    then have t: "takeWhile is_digit (itoa_nat n) = itoa_nat n" "dropWhile is_digit (itoa_nat n) = []"
      by (simp_all add: takeWhile_eq_all_conv dropWhile_eq_Nil_conv)
    show ?thesis
    proof (cases "c = CHR ''0''")
      case True
      with s itoa_nat_zero [of n cs] show ?thesis by (simp add: scan_int_def)
    next
      case False
      with s t show ?thesis by (simp add: scan_int_def scan_digits_def)
    qed
  qed
  have m: "scan_minus (itoa_nat n) = Some ([], itoa_nat n)" for n
  proof -
    obtain c cs where e: "itoa_nat n = c # cs" by (cases "itoa_nat n") auto
    with itoa_nat_digits [of c n] have "is_digit c" by simp
    then have "c \<noteq> CHR ''-''" by auto
    with e show ?thesis by (simp add: scan_minus_def)
  qed
  have "scan_number (itoa_nat n) = Some (itoa_nat n, [])" for n
    by (simp add: scan_number_def scan_then_def m d scan_opt_def)
  moreover have "scan_number (CHR ''-'' # itoa_nat n) = Some (CHR ''-'' # itoa_nat n, [])" for n
    by (simp add: scan_number_def scan_then_def scan_minus_def d scan_opt_def)
  ultimately show ?thesis by (simp add: number_ok_def itoa_def)
qed

section \<open>Values\<close>

datatype json = JNull | JBool bool | JNum string | JStr string | JArr "json list" | JObj "(string \<times> json) list"

definition json_space :: "char \<Rightarrow> bool" where
  "json_space c \<longleftrightarrow> c \<in> {CHR '' '', CHR 0x09, CHR 0x0D, CHR 0x0A}"

definition skip_ws :: "string \<Rightarrow> string" where
  "skip_ws s = dropWhile json_space s"

text \<open>The text of which \<open>r\<close> is the unread rest.\<close>

definition consumed :: "string \<Rightarrow> string \<Rightarrow> string" where
  "consumed s r = take (length s - length r) s"

text \<open>
  A value, the elements after an opening bracket, the members after an opening brace; the members and elements
  keep the text of their values, which is what a \<open>RawMessage\<close> gets.
\<close>

fun json_value :: "nat \<Rightarrow> string \<Rightarrow> (json \<times> string) option"
  and json_elems :: "nat \<Rightarrow> string \<Rightarrow> ((string \<times> json) list \<times> string) option"
  and json_members :: "nat \<Rightarrow> string \<Rightarrow> ((string \<times> string \<times> json) list \<times> string) option" where
  "json_value 0 s = None"
| "json_value (Suc n) s =
     (case s of
        [] \<Rightarrow> None
      | c # cs \<Rightarrow>
          if c = CHR ''{'' then
            (case skip_ws cs of
               [] \<Rightarrow> None
             | d # ds \<Rightarrow>
                 if d = CHR ''}'' then Some (JObj [], ds)
                 else map_option (\<lambda>(ms, r). (JObj (map (\<lambda>(k, raw, v). (k, v)) ms), r)) (json_members n (d # ds)))
          else if c = CHR ''['' then
            (case skip_ws cs of
               [] \<Rightarrow> None
             | d # ds \<Rightarrow>
                 if d = CHR '']'' then Some (JArr [], ds)
                 else map_option (\<lambda>(es, r). (JArr (map snd es), r)) (json_elems n (d # ds)))
          else if c = dquote then map_option (\<lambda>(t, r). (JStr t, r)) (scan_string cs)
          else if has_prefix s ''null'' then Some (JNull, drop 4 s)
          else if has_prefix s ''true'' then Some (JBool True, drop 4 s)
          else if has_prefix s ''false'' then Some (JBool False, drop 5 s)
          else map_option (\<lambda>(t, r). (JNum t, r)) (scan_number s))"
| "json_elems 0 s = None"
| "json_elems (Suc n) s =
     (case json_value n s of
        None \<Rightarrow> None
      | Some (v, r) \<Rightarrow>
          (case skip_ws r of
             [] \<Rightarrow> None
           | d # ds \<Rightarrow>
               if d = CHR '','' then map_option (apfst (\<lambda>es. (consumed s r, v) # es)) (json_elems n (skip_ws ds))
               else if d = CHR '']'' then Some ([(consumed s r, v)], ds)
               else None))"
| "json_members 0 s = None"
| "json_members (Suc n) s =
     (case s of
        [] \<Rightarrow> None
      | c # cs \<Rightarrow>
          if c \<noteq> dquote then None
          else (case scan_string cs of
            None \<Rightarrow> None
          | Some (k, r1) \<Rightarrow>
              (case skip_ws r1 of
                 [] \<Rightarrow> None
               | e # es \<Rightarrow>
                   if e \<noteq> CHR '':'' then None
                   else (case json_value n (skip_ws es) of
                     None \<Rightarrow> None
                   | Some (v, r) \<Rightarrow>
                       (case skip_ws r of
                          [] \<Rightarrow> None
                        | d # ds \<Rightarrow>
                            if d = CHR '','' then
                              map_option (apfst (\<lambda>ms. (k, consumed (skip_ws es) r, v) # ms)) (json_members n (skip_ws ds))
                            else if d = CHR ''}'' then Some ([(k, consumed (skip_ws es) r, v)], ds)
                            else None)))))"

fun json_print :: "json \<Rightarrow> string" where
  "json_print JNull = ''null''"
| "json_print (JBool b) = (if b then ''true'' else ''false'')"
| "json_print (JNum t) = t"
| "json_print (JStr t) = dquote # t @ [dquote]"
| "json_print (JArr vs) = CHR ''['' # join_with '','' (map json_print vs) @ '']''"
| "json_print (JObj ms) =
     CHR ''{'' # join_with '','' (map (\<lambda>(k, v). (dquote # k @ [dquote, CHR '':'']) @ json_print v) ms) @ ''}''"

fun json_ok :: "json \<Rightarrow> bool" where
  "json_ok (JNum t) = number_ok t"
| "json_ok (JStr t) = string_ok t"
| "json_ok (JArr vs) = list_all json_ok vs"
| "json_ok (JObj ms) = list_all (\<lambda>(k, v). string_ok k \<and> json_ok v) ms"
| "json_ok v = True"

text \<open>How deep arrays and objects are nested; the scanner refuses more than 10000 levels.\<close>

fun json_depth :: "json \<Rightarrow> nat" where
  "json_depth (JArr vs) = Suc (foldr max (map json_depth vs) 0)"
| "json_depth (JObj ms) = Suc (foldr max (map (\<lambda>(k, v). json_depth v) ms) 0)"
| "json_depth v = 0"

definition maxNestingDepth :: nat where
  "maxNestingDepth = 10000"

text \<open>The first value of a text and the text after it.\<close>

definition json_parse :: "string \<Rightarrow> (json \<times> string) option" where
  "json_parse s =
     (case json_value (2 * length s + 1) (skip_ws s) of
        None \<Rightarrow> None
      | Some (v, r) \<Rightarrow> if json_depth v \<le> maxNestingDepth then Some (v, r) else None)"

section \<open>Printing, then parsing\<close>

lemma json_print_start:
  assumes "json_ok v"
  obtains c cs where "json_print v = c # cs" "\<not> json_space c" "c \<noteq> CHR ''}''" "c \<noteq> CHR '']''"
proof (cases v)
  case (JNum t)
  with assms number_ok_start [of t] obtain c cs where "t = c # cs" "is_digit c \<or> c = CHR ''-''" by auto
  moreover from this(2) have "\<not> json_space c" "c \<noteq> CHR ''}''" "c \<noteq> CHR '']''"
    by (auto simp: json_space_def is_digit_def byte_def)
  ultimately show ?thesis using that JNum by simp
next
  case (JBool b)
  then show ?thesis using that by (cases b) (simp_all add: json_space_def)
qed (use that in \<open>simp_all add: json_space_def\<close>)

lemma skip_ws_print [simp]: "json_ok v \<Longrightarrow> skip_ws (json_print v @ r) = json_print v @ r"
  by (erule json_print_start) (simp add: skip_ws_def)

lemma skip_ws_mark [simp]: "\<not> json_space c \<Longrightarrow> skip_ws (c # cs) = c # cs"
  by (simp add: skip_ws_def)

lemma not_space [simp]: "\<not> json_space (CHR '','')" "\<not> json_space (CHR '':'')" "\<not> json_space (CHR ''}'')"
  "\<not> json_space (CHR '']'')" "\<not> json_space (CHR ''{'')" "\<not> json_space (CHR ''['')" "\<not> json_space dquote"
  by (simp_all add: json_space_def)

lemma consumed_append [simp]: "consumed (s @ r) r = s"
  by (simp add: consumed_def)

lemma consumed_Nil [simp]: "consumed s [] = s"
  by (simp add: consumed_def)

lemma ends_number_mark [simp]: "ends_number (CHR '','' # s)" "ends_number (CHR ''}'' # s)" "ends_number (CHR '']'' # s)"
  "ends_number []"
  by (simp_all add: ends_number_def is_digit_def byte_def)

text \<open>A value whose text the parser reads back, with fuel for its length.\<close>

definition reads_back :: "json \<Rightarrow> bool" where
  "reads_back v \<longleftrightarrow> json_ok v \<and> (\<forall>n r. length (json_print v) \<le> n \<longrightarrow> ends_number r \<longrightarrow>
     json_value n (json_print v @ r) = Some (v, r))"

lemma reads_backD: "reads_back v \<Longrightarrow> length (json_print v) \<le> n \<Longrightarrow> ends_number r \<Longrightarrow>
    json_value n (json_print v @ r) = Some (v, r)"
  unfolding reads_back_def by blast

lemma json_elems_print:
  "vs \<noteq> [] \<Longrightarrow> list_all reads_back vs \<Longrightarrow> length (join_with '','' (map json_print vs)) < n \<Longrightarrow>
   json_elems n (join_with '','' (map json_print vs) @ CHR '']'' # r) = Some (map (\<lambda>v. (json_print v, v)) vs, r)"
proof (induction vs arbitrary: n rule: induct_list012)
  case (2 v)
  then obtain m where n: "n = Suc m" "length (json_print v) \<le> m" by (cases n) auto
  with 2 show ?case by (simp add: reads_backD)
next
  case (3 v v' vs)
  then obtain m where n: "n = Suc m" "length (json_print v) \<le> m" "length (join_with '','' (map json_print (v' # vs))) < m"
    by (cases n) auto
  have ok: "json_ok v'" using 3 by (simp add: reads_back_def)
  have "skip_ws (join_with '','' (map json_print (v' # vs)) @ CHR '']'' # r) = join_with '','' (map json_print (v' # vs)) @ CHR '']'' # r"
    using ok by (cases vs) simp_all
  with n 3 show ?case by (simp add: reads_backD apfst_def map_prod_def)
qed simp

definition print_member :: "string \<times> json \<Rightarrow> string" where
  "print_member m = (case m of (k, v) \<Rightarrow> (dquote # k @ [dquote, CHR '':'']) @ json_print v)"

lemma length_print_member: "length (print_member (k, v)) = length k + length (json_print v) + 3"
  by (simp add: print_member_def)

lemma json_print_JObj: "json_print (JObj ms) = CHR ''{'' # join_with '','' (map print_member ms) @ ''}''"
  by (simp add: print_member_def [abs_def])

lemma json_members_print:
  "ms \<noteq> [] \<Longrightarrow> list_all (\<lambda>(k, v). string_ok k \<and> reads_back v) ms \<Longrightarrow> length (join_with '','' (map print_member ms)) < n \<Longrightarrow>
   json_members n (join_with '','' (map print_member ms) @ CHR ''}'' # r) = Some (map (\<lambda>(k, v). (k, json_print v, v)) ms, r)"
proof (induction ms arbitrary: n rule: induct_list012)
  case (2 m)
  obtain k v where m: "m = (k, v)" by fastforce
  with 2 obtain l where n: "n = Suc l" "length (json_print v) \<le> l" by (cases n) (auto simp: print_member_def)
  from 2 m have "json_ok v" by (simp add: reads_back_def)
  with n 2 m show ?case by (simp add: print_member_def reads_backD scan_string_append)
next
  case (3 m m' ms)
  obtain k v where m: "m = (k, v)" by fastforce
  with 3 obtain l where n: "n = Suc l" "length (json_print v) \<le> l" "length (join_with '','' (map print_member (m' # ms))) < l"
    by (cases n) (auto simp: length_print_member)
  from 3 m have "json_ok v" by (simp add: reads_back_def)
  moreover have "skip_ws (join_with '','' (map print_member (m' # ms)) @ CHR ''}'' # r) = join_with '','' (map print_member (m' # ms)) @ CHR ''}'' # r"
    by (cases m'; cases ms) (simp_all add: print_member_def)
  moreover have "json_members l (join_with '','' (map print_member (m' # ms)) @ CHR ''}'' # r) =
      Some (map (\<lambda>(k, v). (k, json_print v, v)) (m' # ms), r)" using 3 n by simp
  moreover have "print_member m = dquote # k @ dquote # CHR '':'' # json_print v" using m by (simp add: print_member_def)
  ultimately show ?case using n(1,2) 3(4) m
    by (simp add: reads_backD scan_string_append apfst_def map_prod_def)
qed simp

lemma digit_start: "is_digit c \<or> c = CHR ''-'' \<Longrightarrow> c \<notin> {CHR ''{'', CHR ''['', dquote, CHR ''n'', CHR ''t'', CHR ''f''}"
  by (auto simp: is_digit_def byte_def)

lemma json_ok_reads_back: "json_ok v \<Longrightarrow> reads_back v"
proof (induction v)
  case (JNum t)
  then obtain c cs where t: "t = c # cs" "is_digit c \<or> c = CHR ''-''" using number_ok_start by fastforce
  have "json_value n (t @ r) = Some (JNum t, r)" if "length t \<le> n" "ends_number r" for n r
  proof -
    from that t obtain m where "n = Suc m" by (cases n) auto
    with t digit_start [OF t(2)] scan_number_append [of t r] JNum that show ?thesis by simp
  qed
  with JNum show ?case by (simp add: reads_back_def)
next
  case (JArr vs)
  then have vs: "list_all reads_back vs" by (auto simp: list_all_iff)
  have "json_value n (json_print (JArr vs) @ r) = Some (JArr vs, r)" if n: "length (json_print (JArr vs)) \<le> n" for n r
  proof (cases vs)
    case Nil
    with n show ?thesis by (cases n) simp_all
  next
    case (Cons v vs')
    from n obtain m where m: "n = Suc m" "length (join_with '','' (map json_print vs)) < m" by (cases n) auto
    from JArr Cons have "json_ok v" by simp
    then obtain c cs where c: "json_print v = c # cs" "\<not> json_space c" "c \<noteq> CHR '']''" by (rule json_print_start)
    then obtain ds where "join_with '','' (map json_print vs) = c # ds" using Cons by (cases vs') auto
    with c m json_elems_print [OF _ vs m(2), of r] Cons show ?thesis by (simp add: comp_def)
  qed
  with JArr show ?case by (auto simp: reads_back_def)
next
  case (JObj ms)
  then have ms: "list_all (\<lambda>(k, v). string_ok k \<and> reads_back v) ms" by (fastforce simp: list_all_iff)
  have "json_value n (json_print (JObj ms) @ r) = Some (JObj ms, r)" if n: "length (json_print (JObj ms)) \<le> n" for n r
  proof (cases ms)
    case Nil
    with n show ?thesis by (cases n) simp_all
  next
    case (Cons m ms')
    from n obtain l where l: "n = Suc l" "length (join_with '','' (map print_member ms)) < l"
      by (cases n) (auto simp: json_print_JObj simp del: json_print.simps)
    obtain ds where "join_with '','' (map print_member ms) = dquote # ds"
      using Cons by (cases m; cases ms') (auto simp: print_member_def)
    with l json_members_print [OF _ ms l(2), of r] Cons show ?thesis
      by (simp add: comp_def split_def json_print_JObj del: json_print.simps)
  qed
  with JObj show ?case by (auto simp: reads_back_def)
next
  case JNull
  have "json_value n (''null'' @ r) = Some (JNull, r)" if "4 \<le> n" for n r
    using that by (cases n) simp_all
  then show ?case by (simp add: reads_back_def)
next
  case (JBool b)
  have "json_value n (json_print (JBool b) @ r) = Some (JBool b, r)" if "4 \<le> n" for n r
    using that by (cases n; cases b) simp_all
  then show ?case by (cases b) (simp_all add: reads_back_def)
next
  case (JStr t)
  have "json_value n (json_print (JStr t) @ r) = Some (JStr t, r)" if "2 \<le> n" for n r
    using that JStr by (cases n) (simp_all add: scan_string_append)
  with JStr show ?case by (simp add: reads_back_def)
qed

theorem json_parse_print:
  assumes "json_ok v" "json_depth v \<le> maxNestingDepth" "ends_number r"
  shows "json_parse (json_print v @ r) = Some (v, r)"
proof -
  have "length (json_print v) \<le> 2 * length (json_print v @ r) + 1" by simp
  from reads_backD [OF json_ok_reads_back [OF assms(1)] this assms(3)] assms show ?thesis
    by (simp add: json_parse_def)
qed

section \<open>What the parser accepts\<close>

lemma skip_ws_length: "length (skip_ws s) \<le> length s"
  by (simp add: skip_ws_def length_dropWhile_le)

lemma skip_ws_ConsD: "skip_ws s = c # cs \<Longrightarrow> length cs < length s"
  using skip_ws_length [of s] by simp

lemma scan_string_length: "scan_string s = Some (t, r) \<Longrightarrow> length r < length s"
  by (drule scan_string_ok) simp

lemma scan_number_length: "scan_number s = Some (t, r) \<Longrightarrow> length r < length s"
  using scan_number_ok [of s t r] number_ok_start [of t] by auto

lemma json_shrinks:
  "json_value n s = Some (v, r) \<Longrightarrow> json_ok v \<and> length r < length s"
  "json_elems n s = Some (es, r) \<Longrightarrow> list_all (\<lambda>(raw, v). json_ok v) es \<and> length r < length s"
  "json_members n s = Some (ms, r) \<Longrightarrow> list_all (\<lambda>(k, raw, v). string_ok k \<and> json_ok v) ms \<and> length r < length s"
proof (induction n s and n s and n s arbitrary: v r and es r and ms r
    rule: json_value_json_elems_json_members.induct)
  case (2 n s)
  from "2.prems" obtain c cs where s: "s = c # cs" by (cases s) auto
  consider (obj) "c = CHR ''{''" | (arr) "c = CHR ''[''" | (str) "c = dquote" | (other) "c \<notin> {CHR ''{'', CHR ''['', dquote}" by blast
  then show ?case
  proof cases
    case obj
    with s "2.prems" obtain d ds where d: "skip_ws cs = d # ds" by (auto split: list.splits)
    show ?thesis
    proof (cases "d = CHR ''}''")
      case True
      with "2.prems" s obj d skip_ws_ConsD [OF d] show ?thesis by auto
    next
      case False
      with "2.prems" s obj d obtain ms where "json_members n (d # ds) = Some (ms, r)"
        "v = JObj (map (\<lambda>(k, raw, v). (k, v)) ms)" by auto
      with "2.IH"(1) [OF s obj d False this(1)] skip_ws_length [of cs] d s show ?thesis
        by (auto simp: list_all_iff)
    qed
  next
    case arr
    with s "2.prems" obtain d ds where d: "skip_ws cs = d # ds" by (auto split: list.splits)
    show ?thesis
    proof (cases "d = CHR '']''")
      case True
      with "2.prems" s arr d skip_ws_ConsD [OF d] show ?thesis by auto
    next
      case False
      with "2.prems" s arr d obtain es where "json_elems n (d # ds) = Some (es, r)" "v = JArr (map snd es)" by auto
      moreover from arr have "c \<noteq> CHR ''{''" by simp
      ultimately show ?thesis using "2.IH"(2) [OF s _ arr d False] skip_ws_length [of cs] d s
        by (auto simp: list_all_iff)
    qed
  next
    case str
    with "2.prems" s obtain t where "scan_string cs = Some (t, r)" "v = JStr t" by auto
    with scan_string_ok [of cs t r] s show ?thesis by simp
  next
    case other
    with "2.prems" s consider "v = JNull" "r = drop 4 s" | b where "v = JBool b" "r \<in> {drop 4 s, drop 5 s}"
      | t where "v = JNum t" "scan_number s = Some (t, r)"
      by (auto split: if_splits)
    then show ?thesis
    proof cases
      case (3 t)
      with scan_number_ok [of s t r] scan_number_length [of s t r] show ?thesis by simp
    qed (use s in auto)
  qed
next
  case (4 n s)
  from "4.prems" obtain v r1 d ds where v: "json_value n s = Some (v, r1)" and d: "skip_ws r1 = d # ds"
    by (auto split: option.splits list.splits)
  note IH = "4.IH"(1) [OF v]
  show ?case
  proof (cases "d = CHR '',''")
    case True
    with "4.prems" v d obtain es' where e: "json_elems n (skip_ws ds) = Some (es', r)" "es = (consumed s r1, v) # es'" by auto
    from "4.IH"(2) [OF v refl d True this(1)] IH e skip_ws_length [of ds] skip_ws_ConsD [OF d] show ?thesis by simp
  next
    case False
    with "4.prems" v d have "es = [(consumed s r1, v)]" "r = ds" by (auto split: if_splits)
    with IH skip_ws_ConsD [OF d] show ?thesis by simp
  qed
next
  case (6 n s)
  from "6.prems" obtain cs k r1 es v r2 d ds where s: "s = dquote # cs" and k: "scan_string cs = Some (k, r1)"
    and c: "skip_ws r1 = CHR '':'' # es" and v: "json_value n (skip_ws es) = Some (v, r2)" and d: "skip_ws r2 = d # ds"
    by (auto split: option.splits list.splits if_splits)
  have IH: "json_ok v \<and> length r2 < length (skip_ws es)" using "6.IH"(1) [OF s _ k refl c _ v] by simp
  have l: "length r2 < length s" using IH skip_ws_length [of es] skip_ws_ConsD [OF c] scan_string_length [OF k] s by simp
  show ?case
  proof (cases "d = CHR '',''")
    case True
    with "6.prems" s k c v d obtain ms' where e: "json_members n (skip_ws ds) = Some (ms', r)"
      "ms = (k, consumed (skip_ws es) r2, v) # ms'" by auto
    have "list_all (\<lambda>(k, raw, v). string_ok k \<and> json_ok v) ms' \<and> length r < length (skip_ws ds)"
      using "6.IH"(2) [OF s _ k refl c _ v refl d True e(1)] by simp
    with l e IH scan_string_ok [OF k] skip_ws_length [of ds] skip_ws_ConsD [OF d] show ?thesis by simp
  next
    case False
    with "6.prems" s k c v d have "ms = [(k, consumed (skip_ws es) r2, v)]" "r = ds" by (auto split: if_splits)
    with l IH scan_string_ok [OF k] skip_ws_ConsD [OF d] show ?thesis by simp
  qed
qed simp_all

text \<open>Twice the length of the input is fuel enough: with more of it the parser gives the same answer.\<close>

lemma json_more_fuel:
  "2 * length s + 1 \<le> n \<Longrightarrow> n \<le> m \<Longrightarrow> json_value m s = json_value n s"
  "2 * length s + 2 \<le> n \<Longrightarrow> n \<le> m \<Longrightarrow> json_elems m s = json_elems n s"
  "2 * length s + 2 \<le> n \<Longrightarrow> n \<le> m \<Longrightarrow> json_members m s = json_members n s"
proof (induction n s and n s and n s arbitrary: m and m and m rule: json_value_json_elems_json_members.induct)
  case (2 n s)
  from "2.prems" obtain m' where m: "m = Suc m'" "n \<le> m'" by (cases m) auto
  show ?case
  proof (cases s)
    case (Cons c cs)
    have "json_members m' (d # ds) = json_members n (d # ds)" if "c = CHR ''{''" "skip_ws cs = d # ds" "d \<noteq> CHR ''}''" for d ds
      using "2.IH"(1) [OF Cons that _ m(2)] "2.prems"(1) skip_ws_length [of cs] that Cons by simp
    moreover have "json_elems m' (d # ds) = json_elems n (d # ds)" if "c \<noteq> CHR ''{''" "c = CHR ''[''" "skip_ws cs = d # ds" "d \<noteq> CHR '']''" for d ds
      using "2.IH"(2) [OF Cons that _ m(2)] "2.prems"(1) skip_ws_length [of cs] that Cons by simp
    ultimately show ?thesis by (cases "skip_ws cs") (simp_all add: m Cons)
  qed (simp add: m)
next
  case (4 n s)
  from "4.prems" obtain m' where m: "m = Suc m'" "n \<le> m'" by (cases m) auto
  have v: "json_value m' s = json_value n s" using "4.IH"(1) [OF _ m(2)] "4.prems"(1) by simp
  have e: "json_elems m' (skip_ws ds) = json_elems n (skip_ws ds)"
    if "json_value n s = Some (v, r)" "skip_ws r = d # ds" "d = CHR '',''" for v r d ds
  proof (rule "4.IH"(2) [OF that(1) refl that(2,3) _ m(2)])
    show "2 * length (skip_ws ds) + 2 \<le> n"
      using "4.prems"(1) json_shrinks(1) [OF that(1)] skip_ws_length [of ds] skip_ws_ConsD [OF that(2)] by linarith
  qed
  show ?case
  proof (cases "json_value n s")
    case (Some p)
    obtain v r where p: "p = (v, r)" by fastforce
    show ?thesis
      using e [of v r] Some p by (cases "skip_ws r") (simp_all add: m v)
  qed (simp add: m v)
next
  case (6 n s)
  from "6.prems" obtain m' where m: "m = Suc m'" "n \<le> m'" by (cases m) auto
  have v: "json_value m' (skip_ws es) = json_value n (skip_ws es)"
    if "s = dquote # cs" "scan_string cs = Some (k, r1)" "skip_ws r1 = CHR '':'' # es" for cs k r1 es
  proof (rule "6.IH"(1) [OF that(1) _ that(2) refl that(3) _ _ m(2)])
    show "2 * length (skip_ws es) + 1 \<le> n"
      using "6.prems"(1) scan_string_length [OF that(2)] skip_ws_ConsD [OF that(3)] skip_ws_length [of es] that(1) by simp
  qed simp_all
  have e: "json_members m' (skip_ws ds) = json_members n (skip_ws ds)"
    if "s = dquote # cs" "scan_string cs = Some (k, r1)" "skip_ws r1 = CHR '':'' # es"
      "json_value n (skip_ws es) = Some (v, r)" "skip_ws r = d # ds" "d = CHR '',''" for cs k r1 es v r d ds
  proof (rule "6.IH"(2) [OF that(1) _ that(2) refl that(3) _ that(4) refl that(5,6) _ m(2)])
    show "2 * length (skip_ws ds) + 2 \<le> n"
      using "6.prems"(1) scan_string_length [OF that(2)] skip_ws_ConsD [OF that(3)] skip_ws_length [of es] that(1)
        json_shrinks(1) [OF that(4)] skip_ws_ConsD [OF that(5)] skip_ws_length [of ds] by simp
  qed simp_all
  show ?case
  proof (cases "\<exists>cs k r1 es. s = dquote # cs \<and> scan_string cs = Some (k, r1) \<and> skip_ws r1 = CHR '':'' # es")
    case True
    then obtain cs k r1 es where s: "s = dquote # cs" "scan_string cs = Some (k, r1)" "skip_ws r1 = CHR '':'' # es" by blast
    show ?thesis
    proof (cases "json_value n (skip_ws es)")
      case (Some p)
      obtain v r where p: "p = (v, r)" by fastforce
      show ?thesis
        using e [OF s, of v r] v [OF s] s Some p by (cases "skip_ws r") (simp_all add: m)
    qed (use s v [OF s] in \<open>simp add: m\<close>)
  next
    case False
    then show ?thesis by (auto simp: m split: list.split option.split)
  qed
qed simp_all

theorem json_value_fuel:
  "2 * length s + 1 \<le> n \<Longrightarrow> json_value n s = json_value (2 * length s + 1) s"
  by (rule json_more_fuel(1)) simp_all

declare json_value.simps [simp del] json_elems.simps [simp del] json_members.simps [simp del]

section \<open>Compaction\<close>

text \<open>\<open>appendCompact\<close> with HTML escapes: what \<open>Marshal\<close> makes of a \<open>RawMessage\<close>.\<close>

fun json_html :: "json \<Rightarrow> json" where
  "json_html (JStr t) = JStr (html_escape t)"
| "json_html (JArr vs) = JArr (map json_html vs)"
| "json_html (JObj ms) = JObj (map (\<lambda>(k, v). (html_escape k, json_html v)) ms)"
| "json_html v = v"

definition compact :: "string \<Rightarrow> string option" where
  "compact s =
     (case json_parse s of
        None \<Rightarrow> None
      | Some (v, r) \<Rightarrow> if skip_ws r = [] then Some (json_print (json_html v)) else None)"

lemma json_ok_html [simp]: "json_ok v \<Longrightarrow> json_ok (json_html v)"
  by (induction v) (auto simp: list_all_iff)

lemma json_depth_html [simp]: "json_depth (json_html v) = json_depth v"
proof (induction v)
  case (JArr vs)
  then have m: "map (json_depth \<circ> json_html) vs = map json_depth vs" by simp
  show ?case by (simp only: json_html.simps json_depth.simps map_map m)
next
  case (JObj ms)
  then have "map ((\<lambda>(k, v). json_depth v) \<circ> (\<lambda>(k, v). (html_escape k, json_html v))) ms = map (\<lambda>(k, v). json_depth v) ms"
    by (auto simp: snds.simps)
  then show ?case by (simp only: json_html.simps json_depth.simps map_map)
qed simp_all

lemma json_html_idem [simp]: "json_html (json_html v) = json_html v"
  by (induction v) auto

lemma json_parse_ok: "json_parse s = Some (v, r) \<Longrightarrow> json_ok v \<and> json_depth v \<le> maxNestingDepth"
  by (auto simp: json_parse_def dest: json_shrinks(1) split: option.splits if_splits)

lemma skip_ws_Nil [simp]: "skip_ws [] = []"
  by (simp add: skip_ws_def)

lemma compact_print: "json_ok v \<Longrightarrow> json_depth v \<le> maxNestingDepth \<Longrightarrow> compact (json_print v) = Some (json_print (json_html v))"
  using json_parse_print [of v "[]"] by (simp add: compact_def)

lemma compact_SomeD:
  "compact s = Some t \<Longrightarrow> \<exists>v. json_ok v \<and> json_depth v \<le> maxNestingDepth \<and> t = json_print (json_html v)"
  by (auto simp: compact_def dest: json_parse_ok split: option.splits if_splits)

lemma compact_idem: "compact s = Some t \<Longrightarrow> compact t = Some t"
  by (drule compact_SomeD) (auto simp: compact_print)

end
