(* ===== verification/Json_Struct.thy ===== *)
theory Json_Struct
  imports Json_Value Errors
begin

text \<open>
  Structs in JSON: \<open>Unmarshal\<close> and \<open>Decoder.Decode\<close> into a struct and into a slice of structs, \<open>Marshal\<close> of
  their fields, and the round trip. A struct is described by its fields, each with the setter that a value
  goes through; a setter returns \<open>None\<close> for a value of the wrong type, which leaves the field alone and makes the
  whole call return an error.
\<close>

section \<open>Decoding\<close>

type_synonym 's setter = "string \<Rightarrow> json \<Rightarrow> 's \<Rightarrow> 's option"

definition set_string :: "(string \<Rightarrow> 's \<Rightarrow> 's) \<Rightarrow> 's setter" where
  "set_string upd raw v s = (case v of JStr t \<Rightarrow> Some (upd (unquote t) s) | JNull \<Rightarrow> Some s | _ \<Rightarrow> None)"

definition set_int :: "(int \<Rightarrow> 's \<Rightarrow> 's) \<Rightarrow> 's setter" where
  "set_int upd raw v s =
     (case v of
        JNum t \<Rightarrow> (case atoi t of Some i \<Rightarrow> Some (upd i s) | None \<Rightarrow> None)
      | JNull \<Rightarrow> Some s
      | _ \<Rightarrow> None)"

text \<open>A \<open>json.RawMessage\<close> takes the text of any value.\<close>

definition set_raw :: "(string \<Rightarrow> 's \<Rightarrow> 's) \<Rightarrow> 's setter" where
  "set_raw upd raw v s = Some (upd raw s)"

text \<open>
  \<open>foldName\<close>, up to the choice of the representative: ASCII letters of either case are one, and so are the long s
  (U+017F) and the Kelvin sign (U+212A) with the letters they fold to. Other letters never fold to an ASCII one.
\<close>

definition fold_rune :: "string \<Rightarrow> string" where
  "fold_rune r =
     (if map byte r = [197, 191] then ''s'' else if map byte r = [226, 132, 170] then ''k'' else to_lower r)"

definition fold_name :: "string \<Rightarrow> string" where
  "fold_name s = concat (map fold_rune (runes s))"

text \<open>The field of a key: the one with that name, else the first whose name is equal up to case.\<close>

definition find_field :: "(string \<times> 's setter) list \<Rightarrow> string \<Rightarrow> 's setter option" where
  "find_field fs key =
     (case map_of fs key of
        Some f \<Rightarrow> Some f
      | None \<Rightarrow> map_of (map (\<lambda>(n, f). (fold_name n, f)) fs) (fold_name key))"

fun decode_members :: "(string \<times> 's setter) list \<Rightarrow> (string \<times> string \<times> json) list \<Rightarrow> 's \<Rightarrow> 's \<times> bool" where
  "decode_members fs [] s = (s, True)"
| "decode_members fs ((k, raw, v) # ms) s =
     (case find_field fs (unquote k) of
        None \<Rightarrow> decode_members fs ms s
      | Some f \<Rightarrow>
          (case f raw v s of
             Some s' \<Rightarrow> decode_members fs ms s'
           | None \<Rightarrow> (case decode_members fs ms s of (s', ok) \<Rightarrow> (s', False))))"

text \<open>The members and the elements of a value, with their texts.\<close>

definition members_of :: "string \<Rightarrow> (string \<times> string \<times> json) list" where
  "members_of raw =
     (let s = skip_ws (tl raw) in
      if has_prefix s ''}'' then []
      else case json_members (2 * length s + 2) s of Some (ms, r) \<Rightarrow> ms | None \<Rightarrow> [])"

definition elems_of :: "string \<Rightarrow> (string \<times> json) list" where
  "elems_of raw =
     (let s = skip_ws (tl raw) in
      if has_prefix s '']'' then []
      else case json_elems (2 * length s + 2) s of Some (es, r) \<Rightarrow> es | None \<Rightarrow> [])"

type_synonym 'a decoder = "string \<Rightarrow> json \<Rightarrow> 'a \<times> bool"

definition decode_struct :: "(string \<times> 's setter) list \<Rightarrow> 's \<Rightarrow> 's decoder" where
  "decode_struct fs zero raw v =
     (case v of
        JObj ms \<Rightarrow> decode_members fs (members_of raw) zero
      | JNull \<Rightarrow> (zero, True)
      | _ \<Rightarrow> (zero, False))"

definition decode_slice :: "'a decoder \<Rightarrow> 'a list decoder" where
  "decode_slice d raw v =
     (case v of
        JArr vs \<Rightarrow> (let xs = map (\<lambda>(t, v). d t v) (elems_of raw) in (map fst xs, list_all snd xs))
      | JNull \<Rightarrow> ([], True)
      | _ \<Rightarrow> ([], False))"

definition syntax_error :: goerr where
  "syntax_error = ErrNew ''json: syntax error''"

definition type_error :: goerr where
  "type_error = ErrNew ''json: cannot unmarshal''"

definition decode_value :: "'a decoder \<Rightarrow> string \<Rightarrow> json \<Rightarrow> 'a \<times> goerr option" where
  "decode_value d raw v = (case d raw v of (x, ok) \<Rightarrow> (x, if ok then None else Some type_error))"

text \<open>\<open>json.Unmarshal\<close> wants one value and nothing after it; a \<open>Decoder\<close> reads the first value of a stream.\<close>

definition Unmarshal :: "'a decoder \<Rightarrow> 'a \<Rightarrow> string \<Rightarrow> 'a \<times> goerr option" where
  "Unmarshal d zero s =
     (case json_parse s of
        None \<Rightarrow> (zero, Some syntax_error)
      | Some (v, r) \<Rightarrow>
          if skip_ws r \<noteq> [] then (zero, Some syntax_error)
          else decode_value d (consumed (skip_ws s) r) v)"

definition Decode :: "'a decoder \<Rightarrow> 'a \<Rightarrow> string \<Rightarrow> 'a \<times> goerr option" where
  "Decode d zero s =
     (if skip_ws s = [] then (zero, Some (ErrNew ''EOF''))
      else case json_parse s of
        None \<Rightarrow> (zero, Some syntax_error)
      | Some (v, r) \<Rightarrow> decode_value d (consumed (skip_ws s) r) v)"

text \<open>The call as a Go function that returns a value or an error.\<close>

definition decoded :: "'a \<times> goerr option \<Rightarrow> goerr + 'a" where
  "decoded p = (case p of (x, None) \<Rightarrow> Inr x | (x, Some err) \<Rightarrow> Inl err)"

section \<open>Encoding\<close>

text \<open>The fields of a struct, with \<open>omitempty\<close> for those that have it; a raw field is compacted.\<close>

definition string_field :: "string \<Rightarrow> string \<Rightarrow> (string \<times> json) list" where
  "string_field name x = [(name, JStr (quote_body x))]"

definition string_omitempty :: "string \<Rightarrow> string \<Rightarrow> (string \<times> json) list" where
  "string_omitempty name x = (if x = [] then [] else string_field name x)"

definition int_field :: "string \<Rightarrow> int \<Rightarrow> (string \<times> json) list" where
  "int_field name i = [(name, JNum (itoa i))]"

definition raw_omitempty :: "string \<Rightarrow> string \<Rightarrow> (string \<times> json) list option" where
  "raw_omitempty name raw =
     (if raw = [] then Some []
      else case json_parse raw of
        None \<Rightarrow> None
      | Some (v, r) \<Rightarrow> if skip_ws r = [] then Some [(name, json_html v)] else None)"

definition object_json :: "(string \<times> json) list \<Rightarrow> json" where
  "object_json ms = JObj (map (\<lambda>(k, v). (quote_body k, v)) ms)"

section \<open>Lemmas\<close>

lemma members_of_print:
  assumes "json_ok (JObj ms)"
  shows "members_of (json_print (JObj ms)) = map (\<lambda>(k, v). (k, json_print v, v)) ms"
proof (cases ms)
  case Nil
  then show ?thesis by (simp add: members_of_def)
next
  case (Cons m ms')
  let ?s = "join_with '','' (map print_member ms) @ ''}''"
  have t: "tl (json_print (JObj ms)) = ?s" by (simp add: json_print_JObj del: json_print.simps)
  have ok: "list_all (\<lambda>(k, v). string_ok k \<and> reads_back v) ms" using assms by (auto simp: list_all_iff json_ok_reads_back)
  obtain ds where d: "?s = dquote # ds" using Cons by (cases m; cases ms') (auto simp: print_member_def)
  have "json_members (2 * length ?s + 2) ?s = Some (map (\<lambda>(k, v). (k, json_print v, v)) ms, [])"
    using json_members_print [OF _ ok, of "2 * length ?s + 2" "[]"] Cons by simp
  with t d show ?thesis by (simp add: members_of_def Let_def)
qed

lemma elems_of_print:
  assumes "json_ok (JArr vs)"
  shows "elems_of (json_print (JArr vs)) = map (\<lambda>v. (json_print v, v)) vs"
proof (cases vs)
  case Nil
  then show ?thesis by (simp add: elems_of_def)
next
  case (Cons v vs')
  let ?s = "join_with '','' (map json_print vs) @ '']''"
  have t: "tl (json_print (JArr vs)) = ?s" by simp
  have ok: "list_all reads_back vs" using assms by (auto simp: list_all_iff json_ok_reads_back)
  from assms Cons have "json_ok v" by simp
  then obtain c cs where c: "json_print v = c # cs" "\<not> json_space c" "c \<noteq> CHR '']''" by (rule json_print_start)
  then obtain ds where d: "?s = c # ds" using Cons by (cases vs') auto
  have "json_elems (2 * length ?s + 2) ?s = Some (map (\<lambda>v. (json_print v, v)) vs, [])"
    using json_elems_print [OF _ ok, of "2 * length ?s + 2" "[]"] Cons by simp
  with t d c show ?thesis by (simp add: elems_of_def Let_def)
qed

text \<open>Reading back what was printed goes through the decoder of the value.\<close>

lemma Decode_print:
  assumes "json_ok v" "json_depth v \<le> maxNestingDepth" "ends_number r"
  shows "Decode d zero (json_print v @ r) = decode_value d (json_print v) v"
proof -
  from assms(1) obtain c cs where "json_print v = c # cs" "\<not> json_space c" by (rule json_print_start)
  then have "json_print v \<noteq> []" by simp
  with json_parse_print [OF assms] assms(1) show ?thesis by (simp add: Decode_def)
qed

lemma Unmarshal_print:
  assumes "json_ok v" "json_depth v \<le> maxNestingDepth"
  shows "Unmarshal d zero (json_print v) = decode_value d (json_print v) v"
  using json_parse_print [OF assms, of "[]"] assms skip_ws_print [of v "[]"] by (simp add: Unmarshal_def)

definition members_texts :: "(string \<times> json) list \<Rightarrow> (string \<times> string \<times> json) list" where
  "members_texts ms = map (\<lambda>(k, v). (quote_body k, json_print v, v)) ms"

lemma decode_struct_print:
  "json_ok (object_json ms) \<Longrightarrow>
   decode_struct fs zero (json_print (object_json ms)) (object_json ms) = decode_members fs (members_texts ms) zero"
  unfolding object_json_def decode_struct_def by (subst members_of_print) (auto simp: members_texts_def comp_def split_def)

lemma json_ok_object: "json_ok (object_json ms) \<longleftrightarrow> (\<forall>(k, v) \<in> set ms. json_ok v)"
  by (auto simp: object_json_def list_all_iff)

lemma json_depth_object: "json_depth (object_json ms) = Suc (foldr max (map (\<lambda>(k, v). json_depth v) ms) 0)"
  by (simp add: object_json_def comp_def split_def)

lemma decode_members_string:
  "find_field fs (to_valid k) = Some (set_string upd) \<Longrightarrow>
   decode_members fs (members_texts (string_field k x @ ms)) s = decode_members fs (members_texts ms) (upd (to_valid x) s)"
  by (simp add: members_texts_def string_field_def set_string_def)

lemma decode_members_int:
  "find_field fs (to_valid k) = Some (set_int upd) \<Longrightarrow> - (2 ^ 63) \<le> i \<Longrightarrow> i < 2 ^ 63 \<Longrightarrow>
   decode_members fs (members_texts (int_field k i @ ms)) s = decode_members fs (members_texts ms) (upd i s)"
  by (simp add: members_texts_def int_field_def set_int_def atoi_itoa)

lemma decode_members_raw:
  "find_field fs (to_valid k) = Some (set_raw upd) \<Longrightarrow>
   decode_members fs (members_texts ((k, v) # ms)) s = decode_members fs (members_texts ms) (upd (json_print v) s)"
  by (simp add: members_texts_def set_raw_def)

lemma find_field_here: "map_of fs k = Some f \<Longrightarrow> find_field fs k = Some f"
  by (simp add: find_field_def)

end
