(* ===== verification/Control_Spec.thy ===== *)
theory Control_Spec
  imports Proxy Json_Struct
begin

text \<open>
  \<open>control/spec.go\<close>: the types that travel over the control socket with their JSON forms, and the table of
  backend types. Each type has its fields as the struct tags give them, an encoder, a decoder, and the lemma that
  one undoes the other up to the repair of invalid UTF-8 and the compaction of raw configurations.
\<close>

named_theorems go_wire "round trips of the types on the wire"

section \<open>Types\<close>

record RouteSpec =
  sp_name :: string
  sp_type :: string
  sp_config :: string      \<comment> \<open>raw JSON\<close>

record RouteInfo =
  ri_name :: string
  ri_type :: string
  ri_addr :: string
  ri_config :: string

record Status =
  st_pid :: int
  st_version :: string
  st_proxyAddr :: string
  st_routeCount :: int
  st_uptimeSec :: int

text \<open>The value of a 64-bit \<open>int\<close>.\<close>

definition int64 :: "int \<Rightarrow> int" where
  "int64 x = (x + 2 ^ 63) mod 2 ^ 64 - 2 ^ 63"

definition no_spec :: RouteSpec where
  "no_spec = \<lparr>sp_name = [], sp_type = [], sp_config = []\<rparr>"

definition no_info :: RouteInfo where
  "no_info = \<lparr>ri_name = [], ri_type = [], ri_addr = [], ri_config = []\<rparr>"

definition no_status :: Status where
  "no_status = \<lparr>st_pid = 0, st_version = [], st_proxyAddr = [], st_routeCount = 0, st_uptimeSec = 0\<rparr>"

definition RouteSpec_fields :: "(string \<times> RouteSpec setter) list" where
  "RouteSpec_fields =
     [(''name'', set_string (\<lambda>x s. s\<lparr>sp_name := x\<rparr>)), (''type'', set_string (\<lambda>x s. s\<lparr>sp_type := x\<rparr>)),
      (''config'', set_raw (\<lambda>x s. s\<lparr>sp_config := x\<rparr>))]"

definition RouteInfo_fields :: "(string \<times> RouteInfo setter) list" where
  "RouteInfo_fields =
     [(''name'', set_string (\<lambda>x s. s\<lparr>ri_name := x\<rparr>)), (''type'', set_string (\<lambda>x s. s\<lparr>ri_type := x\<rparr>)),
      (''addr'', set_string (\<lambda>x s. s\<lparr>ri_addr := x\<rparr>)), (''config'', set_raw (\<lambda>x s. s\<lparr>ri_config := x\<rparr>))]"

definition Status_fields :: "(string \<times> Status setter) list" where
  "Status_fields =
     [(''pid'', set_int (\<lambda>x s. s\<lparr>st_pid := x\<rparr>)), (''version'', set_string (\<lambda>x s. s\<lparr>st_version := x\<rparr>)),
      (''proxyAddr'', set_string (\<lambda>x s. s\<lparr>st_proxyAddr := x\<rparr>)), (''routeCount'', set_int (\<lambda>x s. s\<lparr>st_routeCount := x\<rparr>)),
      (''uptimeSec'', set_int (\<lambda>x s. s\<lparr>st_uptimeSec := x\<rparr>))]"

section \<open>Encoders and decoders\<close>

definition RouteSpec_json :: "RouteSpec \<Rightarrow> json option" where
  "RouteSpec_json sp =
     (case raw_omitempty ''config'' (sp_config sp) of
        None \<Rightarrow> None
      | Some c \<Rightarrow> Some (object_json (string_field ''name'' (sp_name sp) @ string_field ''type'' (sp_type sp) @ c)))"

definition RouteInfo_json :: "RouteInfo \<Rightarrow> json option" where
  "RouteInfo_json i =
     (case raw_omitempty ''config'' (ri_config i) of
        None \<Rightarrow> None
      | Some c \<Rightarrow> Some (object_json (string_field ''name'' (ri_name i) @ string_field ''type'' (ri_type i)
          @ string_omitempty ''addr'' (ri_addr i) @ c)))"

text \<open>A slice cannot be encoded when one of its elements cannot.\<close>

definition RouteInfos_json :: "RouteInfo list \<Rightarrow> json option" where
  "RouteInfos_json is = (if list_all (\<lambda>i. RouteInfo_json i \<noteq> None) is then Some (JArr (map (the \<circ> RouteInfo_json) is)) else None)"

definition Status_json :: "Status \<Rightarrow> json" where
  "Status_json st = object_json (int_field ''pid'' (st_pid st) @ string_field ''version'' (st_version st)
     @ string_omitempty ''proxyAddr'' (st_proxyAddr st) @ int_field ''routeCount'' (st_routeCount st)
     @ int_field ''uptimeSec'' (st_uptimeSec st))"

text \<open>\<open>map[string]string\<close> with the keys in order.\<close>

definition error_json :: "string \<Rightarrow> string \<Rightarrow> json" where
  "error_json code msg = object_json (string_field ''code'' code @ string_field ''error'' msg)"

definition address_json :: "string \<Rightarrow> json" where
  "address_json addr = object_json (string_field ''address'' addr)"

definition marshal_error :: goerr where
  "marshal_error = ErrNew ''json: error calling MarshalJSON''"

definition marshal_RouteSpec :: "RouteSpec \<Rightarrow> goerr + string" where
  "marshal_RouteSpec sp = (case RouteSpec_json sp of None \<Rightarrow> Inl marshal_error | Some v \<Rightarrow> Inr (json_print v))"

definition decode_RouteSpec :: "string \<Rightarrow> goerr + RouteSpec" where
  "decode_RouteSpec s = decoded (Decode (decode_struct RouteSpec_fields no_spec) no_spec s)"

definition decode_RouteInfos :: "string \<Rightarrow> RouteInfo list \<times> goerr option" where
  "decode_RouteInfos = Decode (decode_slice (decode_struct RouteInfo_fields no_info)) []"

definition decode_Status :: "string \<Rightarrow> Status \<times> goerr option" where
  "decode_Status = Decode (decode_struct Status_fields no_status) no_status"

text \<open>The anonymous struct of an error reply: its message and its code.\<close>

definition error_fields :: "(string \<times> (string \<times> string) setter) list" where
  "error_fields = [(''error'', set_string (\<lambda>x (m, c). (x, c))), (''code'', set_string (\<lambda>x (m, c). (m, x)))]"

definition decode_error :: "string \<Rightarrow> (string \<times> string) \<times> goerr option" where
  "decode_error = Decode (decode_struct error_fields ([], [])) ([], [])"

section \<open>Backend types\<close>

type_synonym 'x factory = "string \<Rightarrow> goerr + 'x Backend"

text \<open>Registering a type twice panics: \<open>None\<close>.\<close>

definition RegisterBackendType :: "string \<Rightarrow> 'x factory \<Rightarrow> (string \<times> 'x factory) list
    \<Rightarrow> (string \<times> 'x factory) list option" where
  "RegisterBackendType typ f fs = (if map_of fs typ \<noteq> None then None else Some (AList.update typ f fs))"

definition lookupFactory :: "string \<Rightarrow> (string \<times> 'x factory) list \<Rightarrow> 'x factory option" where
  "lookupFactory typ fs = map_of fs typ"

text \<open>The configuration of the built-in type is a struct with one field.\<close>

definition tcpConfig_fields :: "(string \<times> string setter) list" where
  "tcpConfig_fields = [(''address'', set_string (\<lambda>x s. x))]"

definition decode_tcpConfig :: "string \<Rightarrow> goerr + string" where
  "decode_tcpConfig cfg = decoded (Unmarshal (decode_struct tcpConfig_fields []) [] cfg)"

definition tcp_factory :: "url_parser \<Rightarrow> (string \<Rightarrow> int option) \<Rightarrow> network \<Rightarrow> nat \<Rightarrow> 'x factory" where
  "tcp_factory url_Parse services net i cfg =
     (case decode_tcpConfig cfg of
        Inl err \<Rightarrow> Inl (Errorf ''tcp config: %w'' [] [err])
      | Inr address \<Rightarrow>
          if address = [] then Inl (Errorf ''tcp config: address is required'' [] [])
          else (case ParseTCP url_Parse services net i address of
              Inl err \<Rightarrow> Inl (Errorf ''tcp config: %w'' [] [err])
            | Inr b \<Rightarrow> Inr b))"

section \<open>What survives the wire\<close>

text \<open>A raw configuration that can be sent inside \<open>n\<close> more levels; what the daemon stores is sent back inside two, the
  list of routes and its element.\<close>

definition config_within :: "nat \<Rightarrow> string \<Rightarrow> bool" where
  "config_within n c \<longleftrightarrow> c = [] \<or>
     (case json_parse c of None \<Rightarrow> False | Some (v, r) \<Rightarrow> skip_ws r = [] \<and> json_depth v + n \<le> maxNestingDepth)"

definition config_ok :: "string \<Rightarrow> bool" where
  "config_ok c \<longleftrightarrow> config_within 2 c"

definition wire_config :: "string \<Rightarrow> string" where
  "wire_config c = (if c = [] then [] else case compact c of Some t \<Rightarrow> t | None \<Rightarrow> c)"

definition wire_spec :: "RouteSpec \<Rightarrow> RouteSpec" where
  "wire_spec sp = \<lparr>sp_name = to_valid (sp_name sp), sp_type = to_valid (sp_type sp), sp_config = wire_config (sp_config sp)\<rparr>"

definition wire_info :: "RouteInfo \<Rightarrow> RouteInfo" where
  "wire_info i = \<lparr>ri_name = to_valid (ri_name i), ri_type = to_valid (ri_type i), ri_addr = to_valid (ri_addr i),
     ri_config = wire_config (ri_config i)\<rparr>"

text \<open>A specification that the wire carries unchanged.\<close>

definition wire_clean :: "RouteSpec \<Rightarrow> bool" where
  "wire_clean sp \<longleftrightarrow> config_ok (sp_config sp) \<and> wire_spec sp = sp"

lemma config_within_cases:
  assumes "config_within n c"
  obtains "c = []" | v r where "c \<noteq> []" "json_parse c = Some (v, r)" "skip_ws r = []" "json_ok v" "json_depth v + n \<le> maxNestingDepth"
    "wire_config c = json_print (json_html v)" "raw_omitempty k c = Some [(k, json_html v)]"
proof (cases "c = []")
  case False
  with assms obtain v r where v: "json_parse c = Some (v, r)" "skip_ws r = []" "json_depth v + n \<le> maxNestingDepth"
    by (auto simp: config_within_def split: option.splits)
  with json_parse_ok [OF v(1)] False that(2) [of v r] show thesis
    by (simp add: wire_config_def compact_def raw_omitempty_def)
qed (rule that(1))

lemmas config_ok_cases = config_within_cases [where n = 2, folded config_ok_def]

lemma config_within_mono: "config_within n c \<Longrightarrow> m \<le> n \<Longrightarrow> config_within m c"
  by (auto simp: config_within_def split: option.splits)

lemma fields_found [simp]:
  "find_field RouteSpec_fields ''name'' = Some (set_string (\<lambda>x s. s\<lparr>sp_name := x\<rparr>))"
  "find_field RouteSpec_fields ''type'' = Some (set_string (\<lambda>x s. s\<lparr>sp_type := x\<rparr>))"
  "find_field RouteSpec_fields ''config'' = Some (set_raw (\<lambda>x s. s\<lparr>sp_config := x\<rparr>))"
  "find_field RouteInfo_fields ''name'' = Some (set_string (\<lambda>x s. s\<lparr>ri_name := x\<rparr>))"
  "find_field RouteInfo_fields ''type'' = Some (set_string (\<lambda>x s. s\<lparr>ri_type := x\<rparr>))"
  "find_field RouteInfo_fields ''addr'' = Some (set_string (\<lambda>x s. s\<lparr>ri_addr := x\<rparr>))"
  "find_field RouteInfo_fields ''config'' = Some (set_raw (\<lambda>x s. s\<lparr>ri_config := x\<rparr>))"
  "find_field Status_fields ''pid'' = Some (set_int (\<lambda>x s. s\<lparr>st_pid := x\<rparr>))"
  "find_field Status_fields ''version'' = Some (set_string (\<lambda>x s. s\<lparr>st_version := x\<rparr>))"
  "find_field Status_fields ''proxyAddr'' = Some (set_string (\<lambda>x s. s\<lparr>st_proxyAddr := x\<rparr>))"
  "find_field Status_fields ''routeCount'' = Some (set_int (\<lambda>x s. s\<lparr>st_routeCount := x\<rparr>))"
  "find_field Status_fields ''uptimeSec'' = Some (set_int (\<lambda>x s. s\<lparr>st_uptimeSec := x\<rparr>))"
  "find_field error_fields ''error'' = Some (set_string (\<lambda>x (m, c). (x, c)))"
  "find_field error_fields ''code'' = Some (set_string (\<lambda>x (m, c). (m, x)))"
  "find_field tcpConfig_fields ''address'' = Some (set_string (\<lambda>x s. x))"
  by (simp_all add: find_field_def RouteSpec_fields_def RouteInfo_fields_def Status_fields_def error_fields_def tcpConfig_fields_def)

section \<open>Round trips\<close>

lemma to_valid_ascii: "list_all (\<lambda>c. byte c < 128) s \<Longrightarrow> to_valid s = s"
  by (intro to_valid_valid ValidString_ascii) (simp add: list_all_iff)

lemma to_valid_keys [simp]: "to_valid ''name'' = ''name''" "to_valid ''type'' = ''type''" "to_valid ''config'' = ''config''"
  "to_valid ''addr'' = ''addr''" "to_valid ''pid'' = ''pid''" "to_valid ''version'' = ''version''"
  "to_valid ''proxyAddr'' = ''proxyAddr''" "to_valid ''routeCount'' = ''routeCount''" "to_valid ''uptimeSec'' = ''uptimeSec''"
  "to_valid ''error'' = ''error''" "to_valid ''code'' = ''code''" "to_valid ''address'' = ''address''"
  by (simp_all add: to_valid_ascii byte_def)

lemma max_depth_2: "2 \<le> maxNestingDepth"
  by (simp add: maxNestingDepth_def)

lemmas json_fields = string_field_def int_field_def string_omitempty_def

lemmas field_coding = members_texts_def json_fields set_string_def set_int_def set_raw_def atoi_itoa

lemma wire_clean_config: "config_ok c \<Longrightarrow> config_ok (wire_config c) \<and> wire_config (wire_config c) = wire_config c"
proof (erule config_ok_cases)
  fix v r
  assume v: "json_ok v" "json_depth v + 2 \<le> maxNestingDepth" and w: "wire_config c = json_print (json_html v)"
  from v have d: "json_depth (json_html v) \<le> maxNestingDepth" "json_ok (json_html v)" by simp_all
  then have "compact (wire_config c) = Some (wire_config c)" using compact_print [of "json_html v"] w by simp
  moreover have "json_parse (wire_config c) = Some (json_html v, [])" using json_parse_print [OF d(2,1), of "[]"] w by simp
  ultimately show ?thesis using v by (auto simp: config_ok_def config_within_def wire_config_def [of "wire_config c"])
qed (simp add: config_ok_def config_within_def wire_config_def)

lemma wire_spec_clean: "config_ok (sp_config sp) \<Longrightarrow> wire_clean (wire_spec sp)"
  using wire_clean_config [of "sp_config sp"] by (simp add: wire_clean_def wire_spec_def)

lemma decode_tcpConfig_address [simp, go_wire]: "decode_tcpConfig (json_print (address_json a)) = Inr (to_valid a)"
proof -
  have ok: "json_ok (address_json a)" "json_depth (address_json a) \<le> maxNestingDepth"
    using max_depth_2 by (simp_all add: address_json_def json_ok_object json_depth_object json_fields)
  have "decode_members tcpConfig_fields (members_texts (string_field ''address'' a)) [] = (to_valid a, True)"
    by (simp add: field_coding)
  with Unmarshal_print [OF ok, of "decode_struct tcpConfig_fields []" "[]"] ok(1) show ?thesis
    by (simp add: decode_tcpConfig_def decode_value_def decode_struct_print address_json_def decoded_def)
qed

lemma wire_config_address [simp, go_wire]: "wire_config (json_print (address_json a)) = json_print (address_json a)"
  and config_ok_address [simp, go_wire]: "config_ok (json_print (address_json a))"
proof -
  have ok: "json_ok (address_json a)" "json_depth (address_json a) = 1" "json_html (address_json a) = address_json a"
    by (simp_all add: address_json_def json_ok_object json_depth_object json_fields object_json_def)
  with max_depth_2 have d: "json_depth (address_json a) \<le> maxNestingDepth" by simp
  show "wire_config (json_print (address_json a)) = json_print (address_json a)"
    using compact_print [OF ok(1) d] ok(3) by (simp add: wire_config_def)
  show "config_ok (json_print (address_json a))"
    using json_parse_print [OF ok(1) d, of "[]"] ok(2) by (simp add: config_ok_def config_within_def maxNestingDepth_def)
qed

lemma RouteSpec_within:
  assumes "config_within 1 (sp_config sp)"
  shows "\<exists>b. marshal_RouteSpec sp = Inr b \<and> decode_RouteSpec b = Inr (wire_spec sp)"
proof -
  let ?ms = "string_field ''name'' (sp_name sp) @ string_field ''type'' (sp_type sp)"
  have dec: "decode_RouteSpec (json_print (object_json ms)) = Inr sp'"
    if ok: "json_ok (object_json ms)" "json_depth (object_json ms) \<le> maxNestingDepth"
      and m: "decode_members RouteSpec_fields (members_texts ms) no_spec = (sp', True)" for ms sp'
    using Decode_print [OF ok, of "[]" "decode_struct RouteSpec_fields no_spec" no_spec] ok(1) m
    by (simp add: decode_RouteSpec_def decode_value_def decode_struct_print decoded_def)
  from assms show ?thesis
  proof (rule config_within_cases [where k = "''config''"])
    assume c: "sp_config sp = []"
    have "decode_members RouteSpec_fields (members_texts (?ms @ [])) no_spec = (wire_spec sp, True)"
      by (simp add: field_coding wire_spec_def wire_config_def c no_spec_def)
    moreover have "json_ok (object_json (?ms @ []))" "json_depth (object_json (?ms @ [])) \<le> maxNestingDepth"
      using max_depth_2 by (simp_all add: json_ok_object json_depth_object json_fields)
    ultimately show ?thesis using dec c by (simp add: marshal_RouteSpec_def RouteSpec_json_def raw_omitempty_def)
  next
    fix v r
    assume v: "json_ok v" "json_depth v + 1 \<le> maxNestingDepth" and w: "wire_config (sp_config sp) = json_print (json_html v)"
      and r: "raw_omitempty ''config'' (sp_config sp) = Some [(''config'', json_html v)]"
    let ?c = "[(''config'', json_html v)]"
    have "decode_members RouteSpec_fields (members_texts (?ms @ ?c)) no_spec = (wire_spec sp, True)"
      by (simp add: field_coding wire_spec_def w no_spec_def)
    moreover have "json_ok (object_json (?ms @ ?c))" "json_depth (object_json (?ms @ ?c)) \<le> maxNestingDepth"
      using v by (simp_all add: json_ok_object json_depth_object json_fields)
    ultimately show ?thesis using dec r by (simp add: marshal_RouteSpec_def RouteSpec_json_def)
  qed
qed

lemma RouteSpec_roundtrip:
  "config_ok (sp_config sp) \<Longrightarrow> \<exists>b. marshal_RouteSpec sp = Inr b \<and> decode_RouteSpec b = Inr (wire_spec sp)"
  by (rule RouteSpec_within, rule config_within_mono [of 2]) (simp_all add: config_ok_def)

text \<open>The listing: a body of the server, with the line end that \<open>Encode\<close> adds.\<close>

lemma RouteInfo_roundtrip:
  assumes "config_ok (ri_config i)"
  shows "\<exists>v. RouteInfo_json i = Some v \<and> json_ok v \<and> Suc (json_depth v) \<le> maxNestingDepth \<and>
    decode_struct RouteInfo_fields no_info (json_print v) v = (wire_info i, True)"
proof -
  let ?ms = "string_field ''name'' (ri_name i) @ string_field ''type'' (ri_type i) @ string_omitempty ''addr'' (ri_addr i)"
  from assms show ?thesis
  proof (rule config_ok_cases [where k = "''config''"])
    assume c: "ri_config i = []"
    have ok: "json_ok (object_json ?ms)" by (simp add: json_ok_object json_fields)
    have "decode_members RouteInfo_fields (members_texts ?ms) no_info = (wire_info i, True)"
      by (simp add: field_coding wire_info_def wire_config_def c no_info_def)
    moreover have "Suc (json_depth (object_json ?ms)) \<le> maxNestingDepth"
      using max_depth_2 by (simp add: json_depth_object json_fields)
    ultimately show ?thesis using c ok decode_struct_print [OF ok, of RouteInfo_fields no_info] by (simp add: RouteInfo_json_def raw_omitempty_def)
  next
    fix v r
    assume v: "json_ok v" "json_depth v + 2 \<le> maxNestingDepth" and w: "wire_config (ri_config i) = json_print (json_html v)"
      and r: "raw_omitempty ''config'' (ri_config i) = Some [(''config'', json_html v)]"
    let ?all = "?ms @ [(''config'', json_html v)]"
    have ok: "json_ok (object_json ?all)" using v by (simp add: json_ok_object json_fields)
    have "decode_members RouteInfo_fields (members_texts ?all) no_info = (wire_info i, True)"
      by (simp add: field_coding wire_info_def w no_info_def)
    moreover have "Suc (json_depth (object_json ?all)) \<le> maxNestingDepth"
      using v by (simp add: json_depth_object json_fields)
    ultimately show ?thesis using r ok decode_struct_print [OF ok, of RouteInfo_fields no_info] by (simp add: RouteInfo_json_def)
  qed
qed

lemma foldr_max_le: "foldr max xs 0 \<le> (n :: nat) \<longleftrightarrow> (\<forall>x \<in> set xs. x \<le> n)"
  by (induction xs) auto

lemma ends_number_newline [simp]: "ends_number (CHR 0x0A # s)"
  by (simp add: ends_number_def is_digit_def byte_def)

lemma RouteInfos_roundtrip:
  assumes "\<forall>i \<in> set is. config_ok (ri_config i)"
  shows "\<exists>v. RouteInfos_json is = Some v \<and> decode_RouteInfos (json_print v @ [CHR 0x0A]) = (map wire_info is, None)"
proof -
  let ?f = "\<lambda>i. the (RouteInfo_json i)"
  have i: "RouteInfo_json i = Some (?f i) \<and> json_ok (?f i) \<and> Suc (json_depth (?f i)) \<le> maxNestingDepth \<and>
      decode_struct RouteInfo_fields no_info (json_print (?f i)) (?f i) = (wire_info i, True)" if "i \<in> set is" for i
    using RouteInfo_roundtrip assms that by fastforce
  let ?v = "JArr (map ?f is)"
  have ok: "json_ok ?v" using i by (simp add: list_all_iff)
  have "json_depth ?v \<le> maxNestingDepth"
  proof -
    have "foldr max (map json_depth (map ?f is)) 0 \<le> maxNestingDepth - 1" using i by (auto simp: foldr_max_le) (metis Suc_le_eq Suc_pred diff_Suc_1 gr_zeroI less_Suc_eq_le not_less_zero)
    with max_depth_2 show ?thesis by simp
  qed
  then have "decode_RouteInfos (json_print ?v @ [CHR 0x0A]) =
      decode_value (decode_slice (decode_struct RouteInfo_fields no_info)) (json_print ?v) ?v"
    unfolding decode_RouteInfos_def by (intro Decode_print [OF ok]) simp_all
  also have "\<dots> = (map wire_info is, None)"
    using elems_of_print [OF ok] i by (simp add: decode_value_def decode_slice_def comp_def list_all_iff del: json_print.simps)
  finally have "decode_RouteInfos (json_print ?v @ [CHR 0x0A]) = (map wire_info is, None)" .
  moreover have "RouteInfos_json is = Some ?v" using i by (auto simp: RouteInfos_json_def list_all_iff comp_def) 
  ultimately show ?thesis by blast
qed

lemma error_roundtrip: "decode_error (json_print (error_json code msg) @ [CHR 0x0A]) = ((to_valid msg, to_valid code), None)"
proof -
  have ok: "json_ok (error_json code msg)" "json_depth (error_json code msg) \<le> maxNestingDepth"
    using max_depth_2 by (simp_all add: error_json_def json_ok_object json_depth_object json_fields)
  have "decode_members error_fields (members_texts (string_field ''code'' code @ string_field ''error'' msg)) ([], []) =
      ((to_valid msg, to_valid code), True)"
    by (simp add: field_coding)
  with Decode_print [OF ok, of "[CHR 0x0A]" "decode_struct error_fields ([], [])" "([], [])"] ok(1) show ?thesis
    by (simp add: decode_error_def decode_value_def decode_struct_print error_json_def)
qed

definition in_int64 :: "int \<Rightarrow> bool" where
  "in_int64 i \<longleftrightarrow> - (2 ^ 63) \<le> i \<and> i < 2 ^ 63"

lemma in_int64 [simp]: "in_int64 (int64 x)"
proof -
  have "0 \<le> (x + 2 ^ 63) mod 2 ^ 64" "(x + 2 ^ 63) mod 2 ^ 64 < (2 ^ 64 :: int)" by simp_all
  then show ?thesis by (simp add: in_int64_def int64_def)
qed

lemma Status_roundtrip:
  assumes "in_int64 (st_pid st)" "in_int64 (st_routeCount st)" "in_int64 (st_uptimeSec st)"
  shows "decode_Status (json_print (Status_json st) @ [CHR 0x0A]) =
    (st\<lparr>st_version := to_valid (st_version st), st_proxyAddr := to_valid (st_proxyAddr st)\<rparr>, None)"
proof -
  let ?ms = "int_field ''pid'' (st_pid st) @ string_field ''version'' (st_version st)
     @ string_omitempty ''proxyAddr'' (st_proxyAddr st) @ int_field ''routeCount'' (st_routeCount st)
     @ int_field ''uptimeSec'' (st_uptimeSec st)"
  have ok: "json_ok (object_json ?ms)" "json_depth (object_json ?ms) \<le> maxNestingDepth"
    using max_depth_2 by (simp_all add: json_ok_object json_depth_object json_fields number_ok_itoa)
  have "decode_members Status_fields (members_texts ?ms) no_status =
      (st\<lparr>st_version := to_valid (st_version st), st_proxyAddr := to_valid (st_proxyAddr st)\<rparr>, True)"
    using assms by (simp add: field_coding in_int64_def no_status_def)
  with Decode_print [OF ok, of "[CHR 0x0A]" "decode_struct Status_fields no_status" no_status] ok(1) show ?thesis
    by (simp add: decode_Status_def decode_value_def decode_struct_print Status_json_def)
qed

text \<open>A configuration one level too deep for the listing is accepted, and then no client can read the listing.\<close>

lemma RouteInfo_json_ok: "RouteInfo_json i = Some v \<Longrightarrow> json_ok v"
  by (auto simp: RouteInfo_json_def raw_omitempty_def json_ok_object json_fields dest!: json_parse_ok split: option.splits if_splits)

lemma RouteInfos_json_ok:
  assumes "RouteInfos_json is = Some w"
  shows "json_ok w" and "i \<in> set is \<Longrightarrow> RouteInfo_json i = Some v \<Longrightarrow> json_depth v < json_depth w"
proof -
  from assms have w: "w = JArr (map (the \<circ> RouteInfo_json) is)" and all: "\<forall>i \<in> set is. RouteInfo_json i \<noteq> None"
    by (auto simp: RouteInfos_json_def list_all_iff split: if_splits)
  from all show "json_ok w" unfolding w by (auto simp: list_all_iff intro: RouteInfo_json_ok)
  show "json_depth v < json_depth w" if "i \<in> set is" "RouteInfo_json i = Some v"
  proof -
    have "json_depth v \<in> set (map json_depth (map (the \<circ> RouteInfo_json) is))" using that by force
    then have "json_depth v \<le> foldr max (map json_depth (map (the \<circ> RouteInfo_json) is)) 0" using foldr_max_le by blast
    then show ?thesis by (simp add: w)
  qed
qed

lemma Decode_too_deep:
  assumes "json_ok v" "maxNestingDepth < json_depth v" "ends_number r"
  shows "Decode d zero (json_print v @ r) = (zero, Some syntax_error)"
proof -
  from assms(1) obtain c cs where "json_print v = c # cs" "\<not> json_space c" by (rule json_print_start)
  then have "json_print v \<noteq> []" by simp
  moreover have "json_value (2 * length (json_print v @ r) + 1) (json_print v @ r) = Some (v, r)"
    using reads_backD [OF json_ok_reads_back [OF assms(1)] _ assms(3)] by simp
  ultimately show ?thesis using assms by (simp add: Decode_def json_parse_def)
qed

theorem deep_config_breaks_listing:
  assumes v: "json_ok v" "json_depth v + 1 = maxNestingDepth" and c: "c = json_print v"
  shows "\<exists>b. marshal_RouteSpec (sp\<lparr>sp_config := c\<rparr>) = Inr b \<and> decode_RouteSpec b = Inr (wire_spec (sp\<lparr>sp_config := c\<rparr>))"
    and "i \<in> set is \<Longrightarrow> ri_config i = c \<Longrightarrow> RouteInfos_json is = Some w \<Longrightarrow>
      snd (decode_RouteInfos (json_print w @ [CHR 0x0A])) \<noteq> None"
proof -
  from v have p: "json_parse c = Some (v, [])" using json_parse_print [OF v(1), of "[]"] by (simp add: c)
  with v have "config_within 1 c" by (simp add: config_within_def)
  then show "\<exists>b. marshal_RouteSpec (sp\<lparr>sp_config := c\<rparr>) = Inr b \<and> decode_RouteSpec b = Inr (wire_spec (sp\<lparr>sp_config := c\<rparr>))"
    using RouteSpec_within [of "sp\<lparr>sp_config := c\<rparr>"] by simp
next
  assume i: "i \<in> set is" "ri_config i = c" and w: "RouteInfos_json is = Some w"
  from v have p: "json_parse c = Some (v, [])" using json_parse_print [OF v(1), of "[]"] by (simp add: c)
  from v(1) obtain d ds where "c = d # ds" "\<not> json_space d" unfolding c by (rule json_print_start)
  with p have r: "raw_omitempty ''config'' c = Some [(''config'', json_html v)]" by (simp add: raw_omitempty_def)
  then obtain u where u: "RouteInfo_json i = Some u" "json_depth v < json_depth u"
    using i(2) by (auto simp: RouteInfo_json_def json_depth_object less_Suc_eq_le json_fields)
  from RouteInfos_json_ok [OF w] i(1) u v(2) have "json_ok w" "maxNestingDepth < json_depth w" by fastforce+
  then show "snd (decode_RouteInfos (json_print w @ [CHR 0x0A])) \<noteq> None"
    unfolding decode_RouteInfos_def by (subst Decode_too_deep) simp_all
qed

lemma nested_depth: "json_ok (((\<lambda>v. JArr [v]) ^^ n) JNull) \<and> json_depth (((\<lambda>v. JArr [v]) ^^ n) JNull) = n"
  by (induction n) simp_all

section \<open>Properties\<close>

text \<open>C17: What one side of the control socket encodes the other side decodes to the same value: a route
  specification and a list of routes, whose raw configurations are absent or valid JSON that nests at least two levels
  less deeply than the decoder allows, a status, whose numbers fit in 64 bits, an error with its code, the
  configuration of a tcp route. Only two things may change, and they change once: bytes that are not UTF-8 become the
  replacement character, and a raw configuration is compacted; a specification that has been sent once is sent
  again unchanged.\<close>

theorem control_types_survive_json:
  assumes "config_ok (sp_config sp)" "\<forall>i \<in> set is. config_ok (ri_config i)"
    "in_int64 (st_pid st)" "in_int64 (st_routeCount st)" "in_int64 (st_uptimeSec st)"
  shows "(\<exists>b. marshal_RouteSpec sp = Inr b \<and> decode_RouteSpec b = Inr (wire_spec sp)) \<and>
    (\<exists>b. marshal_RouteSpec (wire_spec sp) = Inr b \<and> decode_RouteSpec b = Inr (wire_spec sp)) \<and>
    (\<exists>v. RouteInfos_json is = Some v \<and> decode_RouteInfos (json_print v @ [CHR 0x0A]) = (map wire_info is, None)) \<and>
    decode_Status (json_print (Status_json st) @ [CHR 0x0A]) =
      (st\<lparr>st_version := to_valid (st_version st), st_proxyAddr := to_valid (st_proxyAddr st)\<rparr>, None) \<and>
    decode_error (json_print (error_json code msg) @ [CHR 0x0A]) = ((to_valid msg, to_valid code), None) \<and>
    decode_tcpConfig (json_print (address_json addr)) = Inr (to_valid addr)"
proof (intro conjI)
  show "\<exists>b. marshal_RouteSpec sp = Inr b \<and> decode_RouteSpec b = Inr (wire_spec sp)"
    by (rule RouteSpec_roundtrip [OF assms(1)])
  have "config_ok (sp_config (wire_spec sp))" "wire_spec (wire_spec sp) = wire_spec sp"
    using wire_spec_clean [OF assms(1)] by (simp_all add: wire_clean_def)
  then show "\<exists>b. marshal_RouteSpec (wire_spec sp) = Inr b \<and> decode_RouteSpec b = Inr (wire_spec sp)"
    using RouteSpec_roundtrip [of "wire_spec sp"] by simp
qed (simp_all add: RouteInfos_roundtrip [OF assms(2)] Status_roundtrip [OF assms(3-5)] error_roundtrip)

text \<open>A name with a byte that is not UTF-8, a configuration with a space, a route without a configuration.\<close>

definition odd_spec :: RouteSpec where
  "odd_spec = \<lparr>sp_name = [CHR ''a'', CHR 0xFF], sp_type = ''tcp'', sp_config = ''{ }''\<rparr>"

definition small_status :: Status where
  "small_status = \<lparr>st_pid = 7, st_version = ''dev'', st_proxyAddr = [], st_routeCount = 1, st_uptimeSec = 0\<rparr>"

lemma spaced_config: "config_ok ''{ }''" "wire_config ''{ }'' = ''{}''"
proof -
  have "json_parse ''{ }'' = Some (JObj [], [])" by code_simp
  then show "config_ok ''{ }''" "wire_config ''{ }'' = ''{}''"
    by (simp_all add: config_ok_def config_within_def wire_config_def compact_def maxNestingDepth_def)
qed

theorem control_types_survive_json_witness:
  "(\<exists>b. marshal_RouteSpec odd_spec = Inr b \<and>
      decode_RouteSpec b = Inr \<lparr>sp_name = CHR ''a'' # RuneError, sp_type = ''tcp'', sp_config = ''{}''\<rparr>) \<and>
   decode_Status (json_print (Status_json small_status) @ [CHR 0x0A]) = (small_status, None)"
proof -
  have w: "wire_spec odd_spec = \<lparr>sp_name = CHR ''a'' # RuneError, sp_type = ''tcp'', sp_config = ''{}''\<rparr>"
  proof -
    have "to_valid [CHR ''a'', CHR 0xFF] = CHR ''a'' # RuneError" "to_valid ''tcp'' = ''tcp''" by code_simp+
    then show ?thesis by (simp add: wire_spec_def odd_spec_def spaced_config)
  qed
  have s: "small_status\<lparr>st_version := to_valid (st_version small_status),
      st_proxyAddr := to_valid (st_proxyAddr small_status)\<rparr> = small_status"
    by (simp add: small_status_def to_valid_ascii byte_def)
  from control_types_survive_json [of odd_spec "[]" small_status "[]" "[]" "[]"] spaced_config(1) w s
  show ?thesis by (simp add: odd_spec_def small_status_def in_int64_def)
qed

end
