(* ===== verification/Go_Time.thy ===== *)
theory Go_Time
  imports World
begin

text \<open>
  Durations in text, as package \<open>time\<close> writes and reads them: the daemon's client sends a timeout as
  \<open>Duration.String\<close>, the server reads it with \<open>ParseDuration\<close>. Durations are nanoseconds. The one floating-point
  product of \<open>ParseDuration\<close>, for digits after the point, is exact integer arithmetic here; the two agree when
  the unit is a multiple of the fraction's scale, as it is in every text that \<open>Duration.String\<close> writes.
\<close>

named_theorems go_time "rules of durations in text"

section \<open>Duration.String\<close>

text \<open>\<open>fmtFrac\<close>: the fraction of \<open>v / 10 ^ k\<close> without trailing zeros, before \<open>acc\<close>, and the integer part.\<close>

fun fmtFrac :: "nat \<Rightarrow> nat \<Rightarrow> bool \<Rightarrow> string \<Rightarrow> string \<times> nat" where
  "fmtFrac 0 v print acc = (if print then CHR ''.'' # acc else acc, v)"
| "fmtFrac (Suc k) v print acc =
     (let d = v mod 10; print' = (print \<or> d \<noteq> 0) in
      fmtFrac k (v div 10) print' (if print' then digit_char d # acc else acc))"

definition micro :: string where
  "micro = [CHR 0xC2, CHR 0xB5]"

definition small_duration :: "nat \<Rightarrow> nat \<Rightarrow> string \<Rightarrow> string" where
  "small_duration u prec unit = (case fmtFrac prec u False [] of (w, n) \<Rightarrow> itoa_nat n @ w @ unit)"

definition minutes_text :: "nat \<Rightarrow> string" where
  "minutes_text m =
     (if m = 0 then []
      else (if m div 60 = 0 then [] else itoa_nat (m div 60) @ ''h'') @ itoa_nat (m mod 60) @ ''m'')"

definition positive_duration :: "nat \<Rightarrow> string" where
  "positive_duration u =
     (if u = 0 then ''0s''
      else if u < 10 ^ 3 then small_duration u 0 ''ns''
      else if u < 10 ^ 6 then small_duration u 3 (micro @ ''s'')
      else if u < 10 ^ 9 then small_duration u 6 ''ms''
      else case fmtFrac 9 u False [] of (w, secs) \<Rightarrow> minutes_text (secs div 60) @ itoa_nat (secs mod 60) @ w @ ''s'')"

definition Duration_String :: "int \<Rightarrow> string" where
  "Duration_String d = (if d < 0 then CHR ''-'' # positive_duration (nat (- d)) else positive_duration (nat d))"

section \<open>ParseDuration\<close>

definition digit_nat :: "char \<Rightarrow> nat" where
  "digit_nat c = byte c - 48"

fun leadingInt :: "nat \<Rightarrow> string \<Rightarrow> (nat \<times> string) option" where
  "leadingInt x [] = Some (x, [])"
| "leadingInt x (c # cs) =
     (if \<not> is_digit c then Some (x, c # cs)
      else if 2 ^ 63 div 10 < x then None
      else if 2 ^ 63 < x * 10 + digit_nat c then None
      else leadingInt (x * 10 + digit_nat c) cs)"

text \<open>\<open>over\<close>: further digits are read and dropped.\<close>

fun leadingFraction :: "bool \<Rightarrow> nat \<Rightarrow> nat \<Rightarrow> string \<Rightarrow> nat \<times> nat \<times> string" where
  "leadingFraction over x scale [] = (x, scale, [])"
| "leadingFraction over x scale (c # cs) =
     (if \<not> is_digit c then (x, scale, c # cs)
      else if over then leadingFraction True x scale cs
      else if (2 ^ 63 - 1) div 10 < x then leadingFraction True x scale cs
      else if 2 ^ 63 < x * 10 + digit_nat c then leadingFraction True x scale cs
      else leadingFraction False (x * 10 + digit_nat c) (scale * 10) cs)"

definition unitMap :: "(string \<times> nat) list" where
  "unitMap = [(''ns'', 1), (''us'', 10 ^ 3), (micro @ ''s'', 10 ^ 3), ([CHR 0xCE, CHR 0xBC, CHR ''s''], 10 ^ 3),
     (''ms'', 10 ^ 6), (''s'', 10 ^ 9), (''m'', 60 * 10 ^ 9), (''h'', 3600 * 10 ^ 9)]"

definition numeric :: "char \<Rightarrow> bool" where
  "numeric c \<longleftrightarrow> c = CHR ''.'' \<or> is_digit c"

text \<open>The digits after the point, if there is one; the last result says whether there was any.\<close>

definition fraction_part :: "string \<Rightarrow> nat \<times> nat \<times> string \<times> bool" where
  "fraction_part s =
     (case s of
        [] \<Rightarrow> (0, 1, [], False)
      | c # cs \<Rightarrow>
          if c = CHR ''.'' then (case leadingFraction False 0 1 cs of (f, scale, rest) \<Rightarrow> (f, scale, rest, rest \<noteq> cs))
          else (0, 1, s, False))"

text \<open>One number with its unit: the nanoseconds and the rest, or the message of the error.\<close>

definition parse_segment :: "string \<Rightarrow> string + nat \<times> string" where
  "parse_segment s =
     (if s = [] \<or> \<not> numeric (hd s) then Inl ''time: invalid duration %q''
      else case leadingInt 0 s of
        None \<Rightarrow> Inl ''time: invalid duration %q''
      | Some (v, s1) \<Rightarrow>
          (case fraction_part s1 of (f, scale, s2, post) \<Rightarrow>
             if s1 = s \<and> \<not> post then Inl ''time: invalid duration %q''
             else let u = takeWhile (\<lambda>c. \<not> numeric c) s2; rest = dropWhile (\<lambda>c. \<not> numeric c) s2 in
               if u = [] then Inl ''time: missing unit in duration %q''
               else (case map_of unitMap u of
                  None \<Rightarrow> Inl ''time: unknown unit in duration %q''
                | Some unit \<Rightarrow>
                    if 2 ^ 63 div unit < v then Inl ''time: invalid duration %q''
                    else if 2 ^ 63 < v * unit + f * unit div scale then Inl ''time: invalid duration %q''
                    else Inr (v * unit + f * unit div scale, rest))))"

lemma leadingFraction_shorter: "leadingFraction over x scale s = (f, sc, rest) \<Longrightarrow> length rest \<le> length s"
  by (induction over x scale s rule: leadingFraction.induct) (auto split: if_splits)

lemma leadingInt_shorter: "leadingInt x s = Some (v, rest) \<Longrightarrow> length rest \<le> length s"
  by (induction x s rule: leadingInt.induct) (auto split: if_splits)

lemma fraction_part_shorter: "fraction_part s = (f, sc, rest, post) \<Longrightarrow> length rest \<le> length s"
  by (auto simp: fraction_part_def dest: leadingFraction_shorter split: list.splits if_splits prod.splits)

lemma parse_segment_shorter: "parse_segment s = Inr (v, rest) \<Longrightarrow> length rest < length s"
proof -
  assume p: "parse_segment s = Inr (v, rest)"
  then obtain n s1 f scale s2 post where i: "leadingInt 0 s = Some (n, s1)" and fr: "fraction_part s1 = (f, scale, s2, post)"
    and u: "takeWhile (\<lambda>c. \<not> numeric c) s2 \<noteq> []" and rest: "rest = dropWhile (\<lambda>c. \<not> numeric c) s2"
    by (auto simp: parse_segment_def Let_def split: if_splits option.splits prod.splits)
  have "length s2 = length (takeWhile (\<lambda>c. \<not> numeric c) s2) + length rest"
    unfolding rest by (metis length_append takeWhile_dropWhile_id)
  with u have "length rest < length s2" by simp
  with leadingInt_shorter [OF i] fraction_part_shorter [OF fr] show ?thesis by simp
qed

function parse_segments :: "nat \<Rightarrow> string \<Rightarrow> string + nat" where
  "parse_segments d s =
     (if s = [] then Inr d
      else case parse_segment s of
        Inl msg \<Rightarrow> Inl msg
      | Inr (v, rest) \<Rightarrow> if 2 ^ 63 < d + v then Inl ''time: invalid duration %q'' else parse_segments (d + v) rest)"
  by pat_completeness auto
termination by (relation "measure (\<lambda>(d, s). length s)") (auto dest: parse_segment_shorter)

declare parse_segments.simps [simp del]

definition ParseDuration :: "string \<Rightarrow> goerr + int" where
  "ParseDuration s =
     (case split_sign s of (neg, s1) \<Rightarrow>
        if s1 = ''0'' then Inr 0
        else if s1 = [] then Inl (Errorf ''time: invalid duration %q'' [s] [])
        else (case parse_segments 0 s1 of
           Inl msg \<Rightarrow> Inl (Errorf msg [s] [])
         | Inr d \<Rightarrow>
             if neg then Inr (- int d)
             else if 2 ^ 63 - 1 < d then Inl (Errorf ''time: invalid duration %q'' [s] [])
             else Inr (int d)))"

section \<open>Reading what was written\<close>

definition digits_nat :: "nat \<Rightarrow> string \<Rightarrow> nat" where
  "digits_nat x ds = foldl (\<lambda>x c. x * 10 + digit_nat c) x ds"

abbreviation all_digits :: "string \<Rightarrow> bool" where
  "all_digits ds \<equiv> list_all is_digit ds"

lemma digits_nat_simps [simp]: "digits_nat x [] = x" "digits_nat x (c # cs) = digits_nat (x * 10 + digit_nat c) cs"
  "digits_nat x (cs @ ds) = digits_nat (digits_nat x cs) ds"
  by (simp_all add: digits_nat_def)

lemma digit_nat_char [simp]: "d < 10 \<Longrightarrow> digit_nat (digit_char d) = d"
  by (simp add: digit_nat_def digit_char_def)

lemma digits_nat_mono: "x \<le> digits_nat x ds"
proof (induction ds arbitrary: x)
  case (Cons c cs)
  have "x \<le> x * 10 + digit_nat c" by simp
  also have "\<dots> \<le> digits_nat x (c # cs)" using Cons by simp
  finally show ?case .
qed simp

lemma digits_nat_itoa: "digits_nat 0 (itoa_nat n) = n"
proof (induction n rule: itoa_nat.induct)
  case (1 n)
  show ?case
  proof (cases "n < 10")
    case True
    then show ?thesis by (subst itoa_nat.simps) simp
  next
    case False
    with 1 have "digits_nat 0 (itoa_nat n) = n div 10 * 10 + n mod 10" by (subst itoa_nat.simps) simp
    then show ?thesis by simp
  qed
qed

lemma leadingInt_digits:
  assumes "all_digits ds" "digits_nat x ds \<le> 2 ^ 63" "r = [] \<or> \<not> is_digit (hd r)"
  shows "leadingInt x (ds @ r) = Some (digits_nat x ds, r)"
  using assms(1,2)
proof (induction ds arbitrary: x)
  case Nil
  with assms(3) show ?case by (cases r) auto
next
  case (Cons c cs)
  have "x * 10 + digit_nat c \<le> 2 ^ 63" using digits_nat_mono [of "x * 10 + digit_nat c" cs] Cons.prems by simp
  then have "\<not> 2 ^ 63 div 10 < x" "\<not> 2 ^ 63 < x * 10 + digit_nat c" by simp_all
  with Cons show ?case by simp
qed

lemma leadingFraction_digits:
  assumes "all_digits ds" "digits_nat x ds < 10 ^ 9" "r = [] \<or> \<not> is_digit (hd r)"
  shows "leadingFraction False x scale (ds @ r) = (digits_nat x ds, scale * 10 ^ length ds, r)"
  using assms(1,2)
proof (induction ds arbitrary: x scale)
  case Nil
  with assms(3) show ?case by (cases r) auto
next
  case (Cons c cs)
  have "x * 10 + digit_nat c < 10 ^ 9" using digits_nat_mono [of "x * 10 + digit_nat c" cs] Cons.prems by simp
  then have "\<not> (2 ^ 63 - 1) div 10 < x" "\<not> 2 ^ 63 < x * 10 + digit_nat c" by simp_all
  with Cons show ?case by (simp add: mult.assoc)
qed

text \<open>The fraction that \<open>fmtFrac\<close> writes: the last \<open>k\<close> digits of \<open>v\<close>, without their trailing zeros.\<close>

lemma fmtFrac_printing:
  "\<exists>ds. fmtFrac k v True acc = (CHR ''.'' # ds @ acc, v div 10 ^ k) \<and> length ds = k \<and> all_digits ds
     \<and> digits_nat 0 ds = v mod 10 ^ k"
proof (induction k arbitrary: v acc)
  case (Suc k)
  from Suc [of "v div 10" "digit_char (v mod 10) # acc"] obtain ds where
    ds: "fmtFrac k (v div 10) True (digit_char (v mod 10) # acc) = (CHR ''.'' # ds @ digit_char (v mod 10) # acc, v div 10 div 10 ^ k)"
      "length ds = k" "all_digits ds" "digits_nat 0 ds = v div 10 mod 10 ^ k" by auto
  have "v mod 10 ^ Suc k = 10 * (v div 10 mod 10 ^ k) + v mod 10" by (simp add: mod_mult2_eq)
  with ds show ?case by (intro exI [of _ "ds @ [digit_char (v mod 10)]"]) (simp add: div_mult2_eq)
qed simp

definition frac_of :: "nat \<Rightarrow> nat \<Rightarrow> string \<Rightarrow> bool" where
  "frac_of k m w \<longleftrightarrow> (m = 0 \<and> w = []) \<or>
     (\<exists>ds. w = CHR ''.'' # ds \<and> all_digits ds \<and> 0 < length ds \<and> length ds \<le> k \<and> digits_nat 0 ds * 10 ^ (k - length ds) = m)"

lemma fmtFrac_start: "\<exists>w. fmtFrac k v False [] = (w, v div 10 ^ k) \<and> frac_of k (v mod 10 ^ k) w"
proof (induction k arbitrary: v)
  case (Suc k)
  have m: "v mod 10 ^ Suc k = 10 * (v div 10 mod 10 ^ k) + v mod 10" by (simp add: mod_mult2_eq)
  show ?case
  proof (cases "v mod 10 = 0")
    case True
    from Suc [of "v div 10"] obtain w where w: "fmtFrac k (v div 10) False [] = (w, v div 10 div 10 ^ k)"
      and f: "frac_of k (v div 10 mod 10 ^ k) w" by blast
    from f have "frac_of (Suc k) (v mod 10 ^ Suc k) w"
      unfolding frac_of_def m using True by (auto simp: Suc_diff_le)
    with w True show ?thesis by (simp add: div_mult2_eq)
  next
    case False
    obtain ds where ds: "fmtFrac k (v div 10) True [digit_char (v mod 10)] = (CHR ''.'' # ds @ [digit_char (v mod 10)], v div 10 div 10 ^ k)"
      "length ds = k" "all_digits ds" "digits_nat 0 ds = v div 10 mod 10 ^ k"
      using fmtFrac_printing [of k "v div 10" "[digit_char (v mod 10)]"] by auto
    then have "frac_of (Suc k) (v mod 10 ^ Suc k) (CHR ''.'' # ds @ [digit_char (v mod 10)])"
      unfolding frac_of_def m by (intro disjI2 exI [of _ "ds @ [digit_char (v mod 10)]"]) simp
    with ds False show ?thesis by (simp add: div_mult2_eq)
  qed
qed (simp add: frac_of_def)

lemma fraction_part_frac:
  assumes "frac_of k m w" "m < 10 ^ 9" "k \<le> 9" "r \<noteq> []" "\<not> numeric (hd r)"
  shows "\<exists>f scale post. fraction_part (w @ r) = (f, scale, r, post) \<and> f * 10 ^ k div scale = m"
proof -
  from assms(1) consider "m = 0" "w = []"
    | ds where "w = CHR ''.'' # ds" "all_digits ds" "0 < length ds" "length ds \<le> k" "digits_nat 0 ds * 10 ^ (k - length ds) = m"
    unfolding frac_of_def by blast
  then show ?thesis
  proof cases
    case 1
    with assms(4,5) show ?thesis by (cases r) (auto simp: fraction_part_def numeric_def)
  next
    case 2
    have "digits_nat 0 ds * 1 \<le> digits_nat 0 ds * 10 ^ (k - length ds)" by (intro mult_le_mono2) simp
    then have "digits_nat 0 ds < 10 ^ 9" using 2 assms(2) by simp
    moreover have "\<not> is_digit (hd r)" using assms(5) by (simp add: numeric_def)
    ultimately have l: "leadingFraction False 0 1 (ds @ r) = (digits_nat 0 ds, 1 * 10 ^ length ds, r)"
      using 2(2) by (intro leadingFraction_digits) simp_all
    have "(10::nat) ^ k = 10 ^ (k - length ds) * 10 ^ length ds" using 2(4) by (simp flip: power_add)
    then have "digits_nat 0 ds * 10 ^ k div 10 ^ length ds = m" using 2(5) by (simp flip: mult.assoc)
    with l 2(1) show ?thesis by (simp add: fraction_part_def)
  qed
qed

text \<open>A segment that \<open>Duration.String\<close> writes.\<close>

definition unit_ok :: "string \<Rightarrow> nat \<Rightarrow> bool" where
  "unit_ok u unit \<longleftrightarrow> u \<noteq> [] \<and> list_all (\<lambda>c. \<not> numeric c) u \<and> map_of unitMap u = Some unit \<and> 0 < unit"

lemma itoa_nat_all_digits: "all_digits (itoa_nat n)"
  by (auto simp: list_all_iff dest: itoa_nat_digits)

lemma parse_segment_written:
  assumes w: "frac_of k m w" "m < 10 ^ 9" "k \<le> 9" and u: "unit_ok u unit" and k: "w \<noteq> [] \<Longrightarrow> unit = 10 ^ k"
    and r: "r = [] \<or> is_digit (hd r)" and le: "n * unit + m \<le> 2 ^ 63"
  shows "parse_segment (itoa_nat n @ w @ u @ r) = Inr (n * unit + m, r)"
proof -
  let ?s = "itoa_nat n @ w @ u @ r"
  have u0: "u \<noteq> []" "\<not> numeric (hd u)" "0 < unit" using u by (cases u; auto simp: unit_ok_def)+
  have n: "n \<le> 2 ^ 63" using le u0(3) by (metis add_leD1 le_trans mult_le_mono2 nat_mult_1_right Suc_leI One_nat_def)
  have nd: "w @ u @ r = [] \<or> \<not> is_digit (hd (w @ u @ r))"
    using w(1) u0 by (auto simp: frac_of_def numeric_def is_digit_def byte_def)
  have i: "leadingInt 0 ?s = Some (n, w @ u @ r)"
    using leadingInt_digits [OF itoa_nat_all_digits, of 0 n "w @ u @ r"] nd n by (simp add: digits_nat_itoa)
  obtain f scale post where f: "fraction_part (w @ u @ r) = (f, scale, u @ r, post)" "f * 10 ^ k div scale = m"
    using fraction_part_frac [OF w, of "u @ r"] u0 by auto
  have m: "f * unit div scale = m"
  proof (cases "w = []")
    case True
    then have "m = 0" using w(1) by (auto simp: frac_of_def)
    moreover have "f = 0" using f(1) True u0 by (cases u) (auto simp: fraction_part_def numeric_def)
    ultimately show ?thesis by simp
  qed (use k f in simp)
  have "takeWhile (\<lambda>c. \<not> numeric c) (u @ r) = u" "dropWhile (\<lambda>c. \<not> numeric c) (u @ r) = r"
    using u r by (cases r; auto simp: unit_ok_def list_all_iff numeric_def takeWhile_append dropWhile_append)+
  moreover have "numeric (hd ?s)"
    using itoa_nat_all_digits [of n] itoa_nat_nonempty [of n] by (cases "itoa_nat n") (auto simp: numeric_def)
  moreover have "w @ u @ r \<noteq> ?s" using itoa_nat_nonempty [of n] by (metis append_self_conv2)
  moreover have "\<not> 2 ^ 63 div unit < n"
    using le u0(3) by (metis add_leD1 leD less_eq_div_iff_mult_less_eq)
  moreover have "\<not> 2 ^ 63 < n * unit + m" using le by simp
  ultimately show ?thesis using i f m u by (simp add: parse_segment_def unit_ok_def Let_def)
qed

lemma unit_ok_units [simp]:
  "unit_ok ''ns'' (Suc 0)" "unit_ok (micro @ ''s'') 1000" "unit_ok ''ms'' 1000000" "unit_ok ''s'' 1000000000"
  "unit_ok ''m'' 60000000000" "unit_ok ''h'' 3600000000000"
  by (simp_all add: unit_ok_def unitMap_def micro_def numeric_def is_digit_def byte_def)

lemma frac_of_zero [simp]: "frac_of k 0 []"
  by (simp add: frac_of_def)

lemma parse_segments_step:
  "parse_segment s = Inr (v, rest) \<Longrightarrow> d + v \<le> 2 ^ 63 \<Longrightarrow> parse_segments d s = parse_segments (d + v) rest"
  by (subst parse_segments.simps) (auto simp: parse_segment_def)

lemma parse_segments_Nil [simp]: "parse_segments d [] = Inr d"
  by (subst parse_segments.simps) simp

lemma parse_minutes:
  assumes "r \<noteq> []" "is_digit (hd r)" "m * 60000000000 \<le> 2 ^ 63"
  shows "parse_segments 0 (minutes_text m @ r) = parse_segments (m * 60000000000) r"
proof (cases "m = 0")
  case False
  let ?m = "m mod 60 * 60000000000" and ?h = "m div 60 * 3600000000000"
  have hm: "?h + ?m = m * (60000000000 :: nat)" using div_mult_mod_eq [of m 60] by linarith
  have m: "parse_segment (itoa_nat (m mod 60) @ ''m'' @ r) = Inr (?m, r)"
    using parse_segment_written [of 0 0 "[]" "''m''" "60000000000" r "m mod 60"] assms hm by simp
  have step: "parse_segments d (itoa_nat (m mod 60) @ ''m'' @ r) = parse_segments (d + ?m) r" if "d + ?m \<le> 2 ^ 63" for d
    by (rule parse_segments_step [OF m that])
  show ?thesis
  proof (cases "m div 60 = 0")
    case True
    with step [of 0] hm assms(3) False show ?thesis by (simp add: minutes_text_def)
  next
    case h: False
    let ?r = "itoa_nat (m mod 60) @ ''m'' @ r"
    have "is_digit (hd ?r)" using itoa_nat_all_digits [of "m mod 60"] itoa_nat_nonempty [of "m mod 60"]
      by (cases "itoa_nat (m mod 60)") auto
    then have "parse_segment (itoa_nat (m div 60) @ ''h'' @ ?r) = Inr (?h, ?r)"
      using parse_segment_written [of 0 0 "[]" "''h''" "3600000000000" ?r "m div 60"] hm assms(3) by simp
    from parse_segments_step [OF this, of 0] step [of ?h] hm assms(3) h False show ?thesis
      by (simp add: minutes_text_def)
  qed
qed (simp add: minutes_text_def)

lemma small_duration_parses:
  assumes "unit_ok unit (10 ^ k)" "k \<le> 9" "u \<le> 2 ^ 63"
  shows "parse_segments 0 (small_duration u k unit) = Inr u"
proof -
  obtain w where w: "fmtFrac k u False [] = (w, u div 10 ^ k)" "frac_of k (u mod 10 ^ k) w" using fmtFrac_start by blast
  have "(10::nat) ^ k \<le> 10 ^ 9" using assms(2) by (intro power_increasing) simp_all
  then have m: "u mod 10 ^ k < 10 ^ 9" by (meson less_le_trans mod_less_divisor zero_less_numeral zero_less_power)
  have e: "u div 10 ^ k * 10 ^ k + u mod 10 ^ k = u" by (rule div_mult_mod_eq)
  have "parse_segment (itoa_nat (u div 10 ^ k) @ w @ unit @ []) = Inr (u div 10 ^ k * 10 ^ k + u mod 10 ^ k, [])"
    using assms e by (intro parse_segment_written [OF w(2) m assms(2,1)]) simp_all
  from parse_segments_step [OF this, of 0] assms(3) e w(1) show ?thesis by (simp add: small_duration_def)
qed

lemma minutes_seconds: "a * 60 + b = c \<Longrightarrow> c * 1000000000 + d = e \<Longrightarrow> a * 60000000000 + (b * 1000000000 + d) = (e :: nat)"
  by linarith

lemma positive_duration_parses:
  assumes "u \<le> 2 ^ 63"
  shows "parse_segments 0 (positive_duration u) = Inr u"
proof -
  consider "u = 0" | "0 < u" "u < 10 ^ 3" | "10 ^ 3 \<le> u" "u < 10 ^ 6" | "10 ^ 6 \<le> u" "u < 1000000000" | "1000000000 \<le> u" by linarith
  then show ?thesis
  proof cases
    case 1
    have "parse_segments 0 (itoa_nat 0 @ [] @ ''s'' @ []) = Inr 0"
      using parse_segment_written [of 0 0 "[]" "''s''" "1000000000" "[]" 0]
        parse_segments_step [of "itoa_nat 0 @ ''s''" 0 "[]" 0] by simp
    moreover have "itoa_nat 0 = ''0''" by code_simp
    ultimately show ?thesis using 1 by (simp add: positive_duration_def)
  next
    case 2
    then show ?thesis using small_duration_parses [of "''ns''" 0 u] assms by (simp add: positive_duration_def)
  next
    case 3
    then show ?thesis using small_duration_parses [of "micro @ ''s''" 3 u] assms by (simp add: positive_duration_def)
  next
    case 4
    then show ?thesis using small_duration_parses [of "''ms''" 6 u] assms by (simp add: positive_duration_def)
  next
    case 5
    let ?secs = "u div 1000000000" and ?m = "u div 1000000000 div 60 * 60000000000"
    obtain w where w: "fmtFrac 9 u False [] = (w, ?secs)" "frac_of 9 (u mod 1000000000) w"
      using fmtFrac_start [of 9 u] by auto
    have e: "?m + (?secs mod 60 * 1000000000 + u mod 1000000000) = u"
      using minutes_seconds [OF div_mult_mod_eq [of ?secs 60] div_mult_mod_eq [of u 1000000000]] .
    let ?r = "itoa_nat (?secs mod 60) @ w @ ''s''"
    have "is_digit (hd ?r)" using itoa_nat_all_digits [of "?secs mod 60"] itoa_nat_nonempty [of "?secs mod 60"]
      by (cases "itoa_nat (?secs mod 60)") auto
    then have "parse_segments 0 (minutes_text (?secs div 60) @ ?r) = parse_segments ?m ?r"
      using e assms by (intro parse_minutes) simp_all
    moreover have "parse_segment (itoa_nat (?secs mod 60) @ w @ ''s'' @ []) = Inr (?secs mod 60 * 1000000000 + u mod 1000000000, [])"
      using e assms by (intro parse_segment_written [OF w(2)]) simp_all
    then have "parse_segments ?m ?r = Inr u" using parse_segments_step [of ?r _ "[]" ?m] e assms by simp
    ultimately show ?thesis using w(1) 5 by (simp add: positive_duration_def)
  qed
qed

lemma positive_duration_shape: "positive_duration u \<noteq> []" "is_digit (hd (positive_duration u))" "last (positive_duration u) = CHR ''s''"
proof -
  have hd: "is_digit (hd (itoa_nat n @ x))" for n x
    using itoa_nat_all_digits [of n] itoa_nat_nonempty [of n] by (cases "itoa_nat n") auto
  have min: "is_digit (hd (minutes_text m @ itoa_nat n @ x))" for m n x
    using hd [of _ "_ @ _"] hd by (simp add: minutes_text_def)
  show "positive_duration u \<noteq> []"
    by (simp add: positive_duration_def small_duration_def split: prod.split)
  show "is_digit (hd (positive_duration u))"
    using hd min by (auto simp: positive_duration_def small_duration_def is_digit_def byte_def split: prod.split)
  show "last (positive_duration u) = CHR ''s''"
    by (simp add: positive_duration_def small_duration_def micro_def split: prod.split)
qed

lemma ParseDuration_String [go_time]:
  assumes "- (2 ^ 63) \<le> d" "d < 2 ^ 63"
  shows "ParseDuration (Duration_String d) = Inr d"
proof -
  have p: "positive_duration u \<noteq> ''0''" "split_sign (positive_duration u) = (False, positive_duration u)" for u
  proof -
    show "positive_duration u \<noteq> ''0''" using positive_duration_shape(3) [of u] by auto
    show "split_sign (positive_duration u) = (False, positive_duration u)"
      using positive_duration_shape(1,2) [of u] by (cases "positive_duration u") (auto simp: split_sign_def)
  qed
  show ?thesis
  proof (cases "d < 0")
    case True
    then have "split_sign (Duration_String d) = (True, positive_duration (nat (- d)))"
      by (simp add: Duration_String_def split_sign_def)
    moreover have "nat (- d) \<le> 2 ^ 63" using assms by simp
    ultimately show ?thesis
      using p(1) positive_duration_shape(1) positive_duration_parses [of "nat (- d)"] True by (simp add: ParseDuration_def)
  next
    case False
    then have "split_sign (Duration_String d) = (False, positive_duration (nat d))" using p(2) by (simp add: Duration_String_def)
    moreover have "nat d \<le> 2 ^ 63 - 1" using assms by simp
    ultimately show ?thesis
      using p(1) positive_duration_shape(1) positive_duration_parses [of "nat d"] False by (simp add: ParseDuration_def)
  qed
qed

end
