(* ===== verification/Control.thy ===== *)
theory Control
  imports Control_Spec Go_Time
begin

text \<open>
  The package \<open>control\<close>: the server's handlers over a registry (\<open>server.go\<close>) and the client's reading of the
  answers (\<open>client.go\<close>). A handler takes the decoded request and returns its reply as a value;
  \<open>respond\<close> writes it as the status and the bytes that go over the socket, and the client decodes those.
\<close>

named_theorems go_control "rules of the control API"

section \<open>server.go\<close>

record server =
  sv_specs :: "(string \<times> RouteSpec) list"
  sv_proxyAddr :: string
  sv_started :: int

text \<open>The address of the proxy is fixed when the daemon starts, so its function is its value.\<close>

definition WithProxyAddr :: "string \<Rightarrow> server \<Rightarrow> server" where
  "WithProxyAddr a s = s\<lparr>sv_proxyAddr := a\<rparr>"

definition NewServer :: "(server \<Rightarrow> server) list \<Rightarrow> int \<Rightarrow> server" where
  "NewServer opts t = foldl (\<lambda>s opt. opt s) \<lparr>sv_specs = [], sv_proxyAddr = [], sv_started = t\<rparr> opts"

definition server_Serve :: "goerr option \<Rightarrow> goerr option" where
  "server_Serve res = served res"

lemma NewServer_specs [simp]: "sv_specs (NewServer (map WithProxyAddr as) t) = []"
proof -
  have "sv_specs (foldl (\<lambda>s opt. opt s) s (map WithProxyAddr as)) = sv_specs s" for s
    by (induction as arbitrary: s) (simp_all add: WithProxyAddr_def)
  then show ?thesis by (simp add: NewServer_def)
qed

definition codeRouteExists :: string where "codeRouteExists = ''route_exists''"
definition codeRouteNotFound :: string where "codeRouteNotFound = ''route_not_found''"
definition codeNotReady :: string where "codeNotReady = ''not_ready''"
definition codeBadRequest :: string where "codeBadRequest = ''bad_request''"
definition codeInternal :: string where "codeInternal = ''internal''"

datatype api_reply =
    ApiError int string goerr
  | ApiStatus Status
  | ApiRoutes "RouteInfo list"
  | ApiText int string
  | ApiDone int

definition handleStatus :: "int \<Rightarrow> string \<Rightarrow> server \<Rightarrow> 'x Registry \<Rightarrow> 'x world \<Rightarrow> api_reply" where
  "handleStatus pid version s r w =
     ApiStatus \<lparr>st_pid = int64 pid, st_version = version, st_proxyAddr = sv_proxyAddr s,
       st_routeCount = int64 (int (length (Routes r))), st_uptimeSec = int64 ((now w - sv_started s) div nano_s)\<rparr>"

definition route_info :: "server \<Rightarrow> 'x world \<Rightarrow> 'x Route \<Rightarrow> RouteInfo" where
  "route_info s w rt =
     (let addr = (case Route_Addr rt w of (Some (NetAddr n t), True) \<Rightarrow> t | _ \<Rightarrow> []) in
      case map_of (sv_specs s) (to_lower (rt_name rt)) of
        Some spec \<Rightarrow> \<lparr>ri_name = rt_name rt, ri_type = sp_type spec, ri_addr = addr, ri_config = sp_config spec\<rparr>
      | None \<Rightarrow> \<lparr>ri_name = rt_name rt, ri_type = ''custom'', ri_addr = addr, ri_config = []\<rparr>)"

definition handleListRoutes :: "server \<Rightarrow> 'x Registry \<Rightarrow> 'x world \<Rightarrow> api_reply" where
  "handleListRoutes s r w = ApiRoutes (map (route_info s w) (Routes r))"

definition handleAddRoute :: "(string \<times> 'x factory) list \<Rightarrow> goerr + RouteSpec \<Rightarrow> ctx \<Rightarrow> server \<Rightarrow> 'x Registry
    \<Rightarrow> 'x world \<Rightarrow> api_reply \<times> server \<times> 'x Registry \<times> 'x world" where
  "handleAddRoute factories body ctx s r w =
     (case body of
        Inl err \<Rightarrow> (ApiError 400 codeBadRequest (Errorf ''decode spec: %w'' [] [err]), s, r, w)
      | Inr spec \<Rightarrow>
          if sp_name spec = [] \<or> sp_type spec = [] then
            (ApiError 400 codeBadRequest (ErrNew ''spec requires name and type''), s, r, w)
          else case lookupFactory (sp_type spec) factories of
            None \<Rightarrow> (ApiError 400 codeBadRequest (Errorf ''unknown backend type %q'' [sp_type spec] []), s, r, w)
          | Some factory \<Rightarrow>
              (case factory (sp_config spec) of
                 Inl err \<Rightarrow> (ApiError 400 codeBadRequest err, s, r, w)
               | Inr b \<Rightarrow>
                   (case Add r ctx (sp_name spec) (Some b) [] w of
                      (Inl err, r', w') \<Rightarrow>
                        (if err_is ErrRouteExists err then ApiError 409 codeRouteExists err
                         else ApiError 500 codeInternal err, s, r', w')
                    | (Inr rt, r', w') \<Rightarrow>
                        (ApiDone 201, s\<lparr>sv_specs := AList.update (to_lower (sp_name spec)) spec (sv_specs s)\<rparr>,
                         r', w'))))"

definition handleRemoveRoute :: "string \<Rightarrow> ctx \<Rightarrow> server \<Rightarrow> 'x Registry \<Rightarrow> 'x world
    \<Rightarrow> api_reply \<times> server \<times> 'x Registry \<times> 'x world" where
  "handleRemoveRoute name ctx s r w =
     (case Remove r ctx name w of
        (Some err, r', w') \<Rightarrow>
          (if err_is ErrRouteNotFound err then ApiError 404 codeRouteNotFound err
           else ApiError 500 codeInternal err, s, r', w')
      | (None, r', w') \<Rightarrow>
          (ApiDone 204, s\<lparr>sv_specs := AList.delete (to_lower name) (sv_specs s)\<rparr>, r', w'))"

text \<open>The query's timeout; an absent parameter is the empty text.\<close>

definition ready_ctx :: "string \<Rightarrow> ctx \<Rightarrow> 'x world \<Rightarrow> goerr + ctx" where
  "ready_ctx t ctx w =
     (if t = [] then Inr ctx
      else case ParseDuration t of
        Inl err \<Rightarrow> Inl (Errorf ''bad timeout: %w'' [] [err])
      | Inr d \<Rightarrow> Inr (WithTimeout ctx (now w) d))"

definition handleReady :: "string \<Rightarrow> string \<Rightarrow> ctx \<Rightarrow> 'x Registry \<Rightarrow> 'x world
    \<Rightarrow> (api_reply \<times> 'x world) option" where
  "handleReady name t ctx r w =
     (case Lookup r name of
        None \<Rightarrow> Some (ApiError 404 codeRouteNotFound (Errorf ''route %q: %w'' [name] [Sentinel ErrRouteNotFound]), w)
      | Some rt \<Rightarrow>
          (case ready_ctx t ctx w of
             Inl err \<Rightarrow> Some (ApiError 400 codeBadRequest err, w)
           | Inr ctx' \<Rightarrow>
               (case Route_Ready (r_cfg r) rt ctx' w of
                  None \<Rightarrow> None
                | Some (None, w') \<Rightarrow> Some (ApiDone 200, w')
                | Some (Some err, w') \<Rightarrow>
                    Some (ApiError (if err_is CtxDeadlineExceeded err then 504 else 502) codeNotReady err, w'))))"

section \<open>server.go: replies on the wire\<close>

record wire_response =
  wr_status :: int
  wr_body :: string

definition newline :: char where
  "newline = CHR 0x0A"

text \<open>The encoder writes a value and a line end, or nothing when the value cannot be encoded.\<close>

definition writeJSON :: "int \<Rightarrow> json option \<Rightarrow> wire_response" where
  "writeJSON code v =
     \<lparr>wr_status = code, wr_body = (case v of None \<Rightarrow> [] | Some x \<Rightarrow> json_print x @ [newline])\<rparr>"

text \<open>\<open>etext\<close> is \<open>err.Error()\<close>.\<close>

definition httpError :: "(goerr \<Rightarrow> string) \<Rightarrow> int \<Rightarrow> string \<Rightarrow> goerr \<Rightarrow> wire_response" where
  "httpError etext status code err = writeJSON status (Some (error_json code (etext err)))"

definition respond :: "(goerr \<Rightarrow> string) \<Rightarrow> api_reply \<Rightarrow> wire_response" where
  "respond etext reply =
     (case reply of
        ApiError status code err \<Rightarrow> httpError etext status code err
      | ApiStatus st \<Rightarrow> writeJSON 200 (Some (Status_json st))
      | ApiRoutes is \<Rightarrow> writeJSON 200 (RouteInfos_json is)
      | ApiText status msg \<Rightarrow> \<lparr>wr_status = status, wr_body = msg @ [newline]\<rparr>
      | ApiDone status \<Rightarrow> \<lparr>wr_status = status, wr_body = []\<rparr>)"

section \<open>client.go\<close>

definition sentinelFor :: "string \<Rightarrow> int \<Rightarrow> goerr" where
  "sentinelFor code status =
     (if code = ''route_exists'' then Sentinel ErrRouteExists
      else if code = ''route_not_found'' then Sentinel ErrRouteNotFound
      else Errorf ''http status %d'' [itoa status] [])"

text \<open>\<open>http.Response.Status\<close>, for the statuses of this server.\<close>

definition StatusText :: "int \<Rightarrow> string" where
  "StatusText n =
     (if n = 400 then ''Bad Request'' else if n = 404 then ''Not Found'' else if n = 405 then ''Method Not Allowed''
      else if n = 409 then ''Conflict'' else if n = 500 then ''Internal Server Error'' else if n = 502 then ''Bad Gateway''
      else if n = 504 then ''Gateway Timeout'' else [])"

definition response_status :: "int \<Rightarrow> string" where
  "response_status n = itoa n @ '' '' @ StatusText n"

text \<open>
  \<open>do\<close> without a result, on the answer to a request: the transport's error or a response. The code of an error
  reply counts even when the rest of the body does not decode.
\<close>

definition client_do :: "string \<Rightarrow> string \<Rightarrow> goerr + wire_response \<Rightarrow> goerr option" where
  "client_do method path answer =
     (case answer of
        Inl err \<Rightarrow> Some (Errorf ''control: %s %s: %w'' [method, path] [err])
      | Inr rs \<Rightarrow>
          if 400 \<le> wr_status rs then
            (case decode_error (wr_body rs) of
               ((msg, code), err) \<Rightarrow>
                 Some (Errorf ''control: %s %s: %s: %w''
                   [method, path, if err = None \<and> msg \<noteq> [] then msg else response_status (wr_status rs)]
                   [sentinelFor code (wr_status rs)]))
          else None)"

text \<open>\<open>do\<close> with a result: the body of a good response is decoded into \<open>out\<close>.\<close>

definition client_get :: "(string \<Rightarrow> 'a \<times> goerr option) \<Rightarrow> string \<Rightarrow> string \<Rightarrow> goerr + wire_response \<Rightarrow> goerr + 'a" where
  "client_get out method path answer =
     (case client_do method path answer of
        Some err \<Rightarrow> Inl err
      | None \<Rightarrow> (case answer of Inl err \<Rightarrow> Inl err | Inr rs \<Rightarrow> decoded (out (wr_body rs))))"

text \<open>The context \<open>WaitReady\<close> gives its request: the timeout plus a grace margin.\<close>

definition wait_ready_ctx :: "ctx \<Rightarrow> 'x world \<Rightarrow> int \<Rightarrow> ctx" where
  "wait_ready_ctx ctx w timeout = WithTimeout ctx (now w) (timeout + 5 * nano_s)"

section \<open>Requests in sequence\<close>

datatype api_op = ApiAdd RouteSpec | ApiRemove string

fun api_exec :: "(string \<times> 'x factory) list \<Rightarrow> ctx \<Rightarrow> server \<times> 'x Registry \<times> 'x world \<Rightarrow> api_op
    \<Rightarrow> api_reply \<times> server \<times> 'x Registry \<times> 'x world" where
  "api_exec fs ctx (s, r, w) (ApiAdd spec) = handleAddRoute fs (Inr spec) ctx s r w"
| "api_exec fs ctx (s, r, w) (ApiRemove name) = handleRemoveRoute name ctx s r w"

section \<open>The specs agree with the registry\<close>

definition spec_built :: "(string \<times> 'x factory) list \<Rightarrow> RouteSpec \<Rightarrow> 'x Route \<Rightarrow> bool" where
  "spec_built fs spec rt \<longleftrightarrow> sp_name spec = rt_name rt \<and>
     (\<exists>f. lookupFactory (sp_type spec) fs = Some f \<and> f (sp_config spec) = Inr (rt_backend rt))"

definition api_ok :: "'x config \<Rightarrow> (string \<times> 'x factory) list \<Rightarrow> server \<times> 'x Registry \<times> 'x world \<Rightarrow> bool" where
  "api_ok cfg fs = (\<lambda>(s, r, w). table_ok cfg (r, w) \<and>
     (\<forall>k rt. published r k = Some rt \<longrightarrow> (\<exists>spec. map_of (sv_specs s) k = Some spec \<and> spec_built fs spec rt)))"

lemma add_route_ok:
  assumes ok: "api_ok cfg fs (s, r, w)" and h: "handleAddRoute fs body ctx s r w = (reply, s', r', w')"
  shows "api_ok cfg fs (s', r', w')"
proof -
  from ok have t: "table_ok cfg (r, w)" and q: "quiescent r" by (simp_all add: api_ok_def table_ok_def)
  show ?thesis
  proof (cases "r' = r \<and> s' = s")
    case True
    with ok show ?thesis by (auto simp: api_ok_def table_ok_def)
  next
    case False
    with h obtain spec f b res w2 where body: "body = Inr spec" and f: "lookupFactory (sp_type spec) fs = Some f"
      and b: "f (sp_config spec) = Inr b" and add: "Add r ctx (sp_name spec) (Some b) [] w = (res, r', w2)"
      and s': "s' = (if isl res then s
        else s\<lparr>sv_specs := AList.update (to_lower (sp_name spec)) spec (sv_specs s)\<rparr>)"
      by (auto simp: handleAddRoute_def split: sum.splits if_splits option.splits prod.splits)
    have "table_ok cfg (r', w2)"
      using reg_exec_ok [OF t, of "OpAdd ctx (sp_name spec) (Some b) []"] add by simp
    then have t': "table_ok cfg (r', w')" by (simp add: table_ok_def)
    from Add_published [OF q add] show ?thesis
      using ok t' s' f b by (cases res) (auto simp: api_ok_def spec_built_def)
  qed
qed

lemma remove_route_ok:
  assumes ok: "api_ok cfg fs (s, r, w)" and h: "handleRemoveRoute name ctx s r w = (reply, s', r', w')"
  shows "api_ok cfg fs (s', r', w')"
proof -
  from ok have t: "table_ok cfg (r, w)" by (simp add: api_ok_def)
  from h obtain e where rm: "Remove r ctx name w = (e, r', w')"
    and s': "s' = (case e of Some _ \<Rightarrow> s | None \<Rightarrow> s\<lparr>sv_specs := AList.delete (to_lower name) (sv_specs s)\<rparr>)"
    by (auto simp: handleRemoveRoute_def split: prod.splits option.splits)
  have "table_ok cfg (r', w')" using reg_exec_ok [OF t, of "OpRemove ctx name"] rm by simp
  with Remove_published [OF rm] ok s' show ?thesis
    by (cases e) (auto simp: api_ok_def)
qed

lemma api_exec_ok:
  "api_ok cfg fs st \<Longrightarrow> api_exec fs ctx st p = (reply, st') \<Longrightarrow> api_ok cfg fs st'"
proof -
  assume "api_ok cfg fs st" and "api_exec fs ctx st p = (reply, st')"
  moreover obtain s r w s' r' w' where "st = (s, r, w)" "st' = (s', r', w')" by (metis prod_cases3)
  ultimately show ?thesis by (cases p) (auto intro: add_route_ok remove_route_ok)
qed

lemma api_run_ok:
  "api_ok cfg fs st \<Longrightarrow> exec_all (api_exec fs ctx) st ops = (outs, st') \<Longrightarrow> api_ok cfg fs st'"
  by (induction ops arbitrary: st outs) (auto split: prod.splits dest: api_exec_ok)

lemma api_ok_New: "api_ok (New_config opts) fs (NewServer (map WithProxyAddr as) t, registry_New opts, w)"
  using table_ok_New [of opts w] by (simp add: api_ok_def registry_New_def published_def)

text \<open>What the client makes of each kind of reply, whatever bytes the texts of its errors are.\<close>

lemma to_valid_codes [simp]: "to_valid codeRouteExists = codeRouteExists" "to_valid codeRouteNotFound = codeRouteNotFound"
  "to_valid codeNotReady = codeNotReady" "to_valid codeBadRequest = codeBadRequest" "to_valid codeInternal = codeInternal"
  by (simp_all add: to_valid_ascii byte_def codeRouteExists_def codeRouteNotFound_def codeNotReady_def codeBadRequest_def
      codeInternal_def)

lemma client_do_error [go_control]:
  "400 \<le> st \<Longrightarrow> client_do m p (Inr (respond etext (ApiError st code err))) =
     Some (Errorf ''control: %s %s: %s: %w'' [m, p, if etext err = [] then response_status st else to_valid (etext err)]
       [sentinelFor (to_valid code) st])"
  using error_roundtrip [of code "etext err"] by (simp add: client_do_def respond_def httpError_def writeJSON_def newline_def)

lemma client_do_ok [simp, go_control]:
  "client_do m p (Inr (respond etext (ApiRoutes is))) = None" "client_do m p (Inr (respond etext (ApiStatus x))) = None"
  "client_do m p (Inr (respond etext (ApiDone 200))) = None" "client_do m p (Inr (respond etext (ApiDone 201))) = None"
  "client_do m p (Inr (respond etext (ApiDone 204))) = None" "client_do m p (Inl err) \<noteq> None"
  by (simp_all add: client_do_def respond_def writeJSON_def)

lemma client_do_text: "400 \<le> st \<Longrightarrow> \<exists>e. client_do m p (Inr (respond etext (ApiText st msg))) = Some e"
  by (simp add: client_do_def respond_def split: prod.splits)

lemma code_names [simp]: "codeRouteExists \<noteq> codeRouteNotFound" "codeInternal \<noteq> codeRouteNotFound" "codeInternal \<noteq> codeRouteExists"
  "codeRouteNotFound \<noteq> codeRouteExists"
  by (simp_all add: codeRouteExists_def codeRouteNotFound_def codeInternal_def)

lemma sentinelFor_is [simp]:
  "err_is ErrRouteExists (sentinelFor code st) = (code = codeRouteExists)"
  "err_is ErrRouteNotFound (sentinelFor code st) = (code = codeRouteNotFound)"
  by (auto simp: sentinelFor_def codeRouteExists_def codeRouteNotFound_def)

section \<open>The listing\<close>

text \<open>A server lists a route rightly: with a type and a configuration that its backend was built from.\<close>

definition listing_right :: "(string \<times> 'x factory) list \<Rightarrow> server \<Rightarrow> 'x Registry \<Rightarrow> 'x world \<Rightarrow> bool" where
  "listing_right fs s r w \<longleftrightarrow> (\<forall>rt \<in> set (Routes r). \<exists>f. lookupFactory (ri_type (route_info s w rt)) fs = Some f \<and>
     f (ri_config (route_info s w rt)) = Inr (rt_backend rt))"

lemma route_info_name [simp]: "ri_name (route_info s w rt) = rt_name rt"
  by (simp add: route_info_def Let_def split: option.split)

lemma api_ok_listing: "api_ok cfg fs (s, r, w) \<Longrightarrow> listing_right fs s r w"
  unfolding listing_right_def
proof
  fix rt :: "'a Route" assume ok: "api_ok cfg fs (s, r, w)" and rt: "rt \<in> set (Routes r)"
  then have inv: "reg_inv r" by (simp add: api_ok_def table_ok_def)
  from rt Routes_published [OF inv] obtain k where k: "published r k = Some rt" by (auto simp: ran_def)
  then have "k = to_lower (rt_name rt)"
    using reg_invD(3) [OF inv] by (simp add: published_Some_iff route_ok_def route_key_def)
  with k ok obtain spec where "map_of (sv_specs s) (to_lower (rt_name rt)) = Some spec" "spec_built fs spec rt"
    by (auto simp: api_ok_def)
  then show "\<exists>f. lookupFactory (ri_type (route_info s w rt)) fs = Some f \<and> f (ri_config (route_info s w rt)) = Inr (rt_backend rt)"
    by (auto simp: route_info_def spec_built_def Let_def)
qed

section \<open>A route that never becomes ready\<close>

abbreviation unset_error :: goerr where
  "unset_error \<equiv> RetryableError (ErrNew ''portless: future backend address not set yet'')"

abbreviation unset_route :: "string \<Rightarrow> network \<Rightarrow> nat \<Rightarrow> 'x Route" where
  "unset_route n net i \<equiv> plain_route n (FutureB net i [])"

lemma unset_attempt: "dial_attempt (unset_route n net i) ctx nw addr w = (Inl unset_error, w)"
  by (simp add: dial_attempt_def future_DialContext_def future_at_def Future_def Let_def)

lemma unset_wait:
  assumes "dial_wait ctx delay w = (k, w')" and "done_at w = None"
  shows "k \<noteq> WakeDone"
proof -
  have ne: "wait_channels ctx delay w \<noteq> []" by (simp add: wait_channels_def)
  from select_first_mem(1) [OF ne assms(1) [unfolded dial_wait_def]] assms(2) show ?thesis
    by (auto simp: mem_wait_channels)
qed

definition gave_up :: "string \<Rightarrow> ctx \<Rightarrow> goerr + conn \<Rightarrow> bool" where
  "gave_up n ctx res \<longleftrightarrow>
     (\<exists>t cause. ctx_Cause ctx t = Some cause \<and> res = Inl (dialWaitError n cause (Some unset_error)))"

lemma gave_upI:
  "ctx_Cause ctx t = Some cause \<Longrightarrow> gave_up n ctx (Inl (dialWaitError n cause (Some unset_error)))"
  unfolding gave_up_def by blast

lemma unset_round:
  assumes "done_at w = None"
    and "dial_round (New_config []) (unset_route n net i) ctx nw addr start k bo w = nxt"
  shows "case nxt of Inl (res, w') \<Rightarrow> gave_up n ctx res | Inr (bo', w') \<Rightarrow> done_at w' = None"
proof (cases "ctx_Cause ctx (now w)")
  case (Some cause)
  with assms(2) have "nxt = Inl (Inl (dialWaitError n cause (Some unset_error)), w)"
    by (auto simp: dial_round_def unset_attempt dial_fail_def)
  with gave_upI [OF Some] show ?thesis by simp
next
  case None
  obtain draw w3 where d: "take_draw w = (draw, w3)" by fastforce
  obtain delay bo' where b: "backoff_Next draw bo = (delay, bo')" by fastforce
  obtain wk w4 where s: "dial_wait ctx (sint delay) w3 = (wk, w4)" by fastforce
  have "done_at w3 = None" using take_draw_eqD [OF d] assms(1) by simp
  then have "wk \<noteq> WakeDone" "done_at w4 = None" using unset_wait [OF s] dial_wait_done_at [OF s] by simp_all
  moreover have "wk = WakeCtx \<Longrightarrow> ctx_Cause ctx (now w4) = Some (cause_now ctx w4)"
    using dial_wait_ctx_cause s by blast
  ultimately show ?thesis
    using assms(2) None d b s
    by (cases wk) (auto simp: dial_round_def unset_attempt dial_fail_def Let_def intro: gave_upI)
qed

lemma unset_dialRoute:
  fixes w :: "'x world"
  assumes "done_at w = None"
  shows "\<exists>res w'. dialRoute (New_config []) (unset_route n net i) ctx nw addr w = Some (res, w') \<and>
    gave_up n (dial_ctx (unset_route n net i) ctx w) res"
proof -
  let ?rt = "unset_route n net i :: 'x Route"
  let ?c = "dial_ctx ?rt ctx w"
  obtain res w' where r: "dialRoute (New_config []) ?rt ctx nw addr w = Some (res, w')"
    using future_route.dialRoute_returns by (metis surj_pair)
  then have "dial_loop (New_config []) ?rt ?c nw addr (now w) 0 dial_backoff w = Some (res, w')"
    by (simp add: dialRoute_def Let_def)
  then have "gave_up n ?c (fst (res, w'))"
  proof (rule dial_loop_invariant [where Q = "\<lambda>r. gave_up n ?c (fst r)" and I = "\<lambda>_ _ w. done_at w = None"])
    show "done_at w = None" by (rule assms)
  qed (drule (1) unset_round, auto split: prod.splits)+
  with r show ?thesis by auto
qed

lemma unset_Ready:
  fixes w :: "'x world"
  assumes "done_at w = None"
  shows "\<exists>t cause w'. Route_Ready (New_config []) (unset_route n net i) ctx w =
      Some (Some (dialWaitError n cause (Some unset_error)), w') \<and>
    ctx_Cause (dial_ctx (unset_route n net i :: 'x Route) ctx w) t = Some cause"
proof -
  let ?rt = "unset_route n net i :: 'x Route"
  obtain t cause w' where c: "ctx_Cause (dial_ctx ?rt ctx w) t = Some cause"
    and d: "dialRoute (New_config []) ?rt ctx ''tcp'' (JoinHostPort n (itoa (ready_port ?rt))) w =
      Some (Inl (dialWaitError n cause (Some unset_error)), w')"
    using unset_dialRoute [OF assms, of n net i ctx "''tcp''" "JoinHostPort n (itoa (ready_port ?rt))"]
    unfolding gave_up_def by blast
  have "Route_Ready (New_config []) ?rt ctx w = Some (Some (dialWaitError n cause (Some unset_error)), w')"
    by (simp add: Route_Ready_def d)
  with c show ?thesis by blast
qed

lemma timeout_cause:
  "ctx_Cause (dial_ctx (unset_route n net i) Background w) t = Some cause \<Longrightarrow> \<not> err_is CtxDeadlineExceeded cause"
  "ctx_Cause (dial_ctx (unset_route n net i) (WithTimeout Background t0 d) w) t = Some cause \<Longrightarrow>
     cause = Sentinel CtxDeadlineExceeded"
  by (auto simp: dial_ctx_def Background_def WithTimeout_def WithTimeoutCause_def ctx_Cause_def ctx_done_def
      split: if_splits)

section \<open>A small daemon\<close>

definition demo_spec :: RouteSpec where
  "demo_spec = \<lparr>sp_name = ''a'', sp_type = ''tcp'', sp_config = ''c''\<rparr>"

definition demo_fs :: "(string \<times> Event list factory) list" where
  "demo_fs = [(''tcp'', \<lambda>cfg. Inr (rt_backend demo_route))]"

definition demo_registry :: "Event list Registry" where
  "demo_registry = (registry_New [])\<lparr>r_routes := [(''a'', Some (plain_route ''a'' (rt_backend demo_route)))]\<rparr>"

lemma to_lower_a: "to_lower ''a'' = ''a''"
  by (simp add: to_lower_def lower_char_def byte_def)

lemma demo_run:
  "exec_all (api_exec demo_fs Background) (NewServer [] 0, registry_New [], demo_world) [ApiAdd demo_spec] =
     ([ApiDone 201], (NewServer [] 0)\<lparr>sv_specs := [(''a'', demo_spec)]\<rparr>, demo_registry, demo_world)"
proof -
  have "Add_check (New_config []) ''a'' (Some (rt_backend demo_route)) [] =
      Inr (plain_route ''a'' (rt_backend demo_route))"
    by (simp add: Add_check_def plain_route_def route_config_def validateHostRewrite_def Let_def)
  moreover have "Add_start (plain_route ''a'' (rt_backend demo_route)) ctx w = (None, w)" for ctx w
    by (simp add: Add_start_def demo_route_def simple_backend_def)
  moreover have "rc_hostRewrite (rt_cfg (plain_route ''a'' b)) = []" for b :: "Event list Backend"
    by (simp add: plain_route_def route_config_def)
  ultimately show ?thesis
    by (simp add: handleAddRoute_def demo_spec_def demo_fs_def lookupFactory_def Add_value registry_New_def
        to_lower_a with_flag_def demo_registry_def NewServer_def)
qed

text \<open>The same daemon with a backend that cannot be stopped.\<close>

definition stuck_backend :: "Event list Backend" where
  "stuck_backend = (simple_backend 1 (\<lambda>ctx nw addr w. (Inl (ErrNew ''down''), w)))
     \<lparr>bk_stop := Some (\<lambda>ctx w. (Some (ErrNew ''stuck''), w))\<rparr>"

definition stuck_fs :: "(string \<times> Event list factory) list" where
  "stuck_fs = [(''tcp'', \<lambda>cfg. Inr stuck_backend)]"

definition stuck_registry :: "Event list Registry" where
  "stuck_registry = (registry_New [])\<lparr>r_routes := [(''a'', Some (plain_route ''a'' stuck_backend))]\<rparr>"

lemma stuck_run:
  "exec_all (api_exec stuck_fs Background) (NewServer [] 0, registry_New [], demo_world) [ApiAdd demo_spec] =
     ([ApiDone 201], (NewServer [] 0)\<lparr>sv_specs := [(''a'', demo_spec)]\<rparr>, stuck_registry, demo_world)"
proof -
  have "Add_check (New_config []) ''a'' (Some stuck_backend) [] = Inr (plain_route ''a'' stuck_backend)"
    by (simp add: Add_check_def plain_route_def route_config_def validateHostRewrite_def Let_def)
  moreover have "Add_start (plain_route ''a'' stuck_backend) ctx w = (None, w)" for ctx w
    by (simp add: Add_start_def stuck_backend_def simple_backend_def)
  moreover have "rc_hostRewrite (rt_cfg (plain_route ''a'' b)) = []" for b :: "Event list Backend"
    by (simp add: plain_route_def route_config_def)
  ultimately show ?thesis
    by (simp add: handleAddRoute_def demo_spec_def stuck_fs_def lookupFactory_def Add_value registry_New_def
        to_lower_a with_flag_def stuck_registry_def NewServer_def)
qed

lemma stuck_remove:
  "Remove stuck_registry Background ''a'' demo_world =
     (Some (ErrNew ''stuck''), (registry_New []), demo_world)"
proof -
  have "published stuck_registry ''a'' = Some (plain_route ''a'' stuck_backend)"
    by (simp add: published_def stuck_registry_def)
  moreover have "r_cfg stuck_registry = New_config []" by (simp add: stuck_registry_def registry_New_def)
  moreover have "backend_Stop stuck_backend Background w = (Some (ErrNew ''stuck''), w)" for w
    by (simp add: backend_Stop_def stuck_backend_def simple_backend_def)
  ultimately show ?thesis by (simp add: Remove_value to_lower_a) (simp add: stuck_registry_def registry_New_def)
qed

section \<open>Properties\<close>

text \<open>The daemon's listing tells the truth: after any sequence of API requests to a new daemon, every route in
  the registry is listed with a type and a configuration from which that type's factory builds exactly the
  route's backend.\<close>

theorem listing_matches_registry:
  assumes "exec_all (api_exec fs ctx) (NewServer (map WithProxyAddr as) t, registry_New opts, w0) ops = (outs, s, r, w)"
  shows "handleListRoutes s r w = ApiRoutes (map (route_info s w) (Routes r)) \<and>
    (\<forall>rt \<in> set (Routes r). ri_name (route_info s w rt) = rt_name rt \<and>
       (\<exists>f. lookupFactory (ri_type (route_info s w rt)) fs = Some f \<and>
          f (ri_config (route_info s w rt)) = Inr (rt_backend rt)))"
  using api_ok_listing [OF api_run_ok [OF api_ok_New assms]] by (simp add: handleListRoutes_def listing_right_def)

text \<open>C13: Sentinel errors survive the wire: for the bytes of the server's JSON reply, and whatever bytes the texts
  of errors consist of, the client's error for an add or a remove is nil exactly when the daemon's registry call
  succeeded; for an add \<open>errors.Is\<close> finds \<open>ErrRouteExists\<close>, and for a remove \<open>ErrRouteNotFound\<close>, in it
  exactly when it finds it in the registry's own error, and it never finds the other of the two.\<close>

theorem sentinels_survive_wire:
  assumes "sp_name spec \<noteq> []" "sp_type spec \<noteq> []" "lookupFactory (sp_type spec) fs = Some f"
    "f (sp_config spec) = Inr b"
  shows "(case (Add r ctx (sp_name spec) (Some b) [] w, handleAddRoute fs (Inr spec) ctx s r w) of
      ((Inr rt, r', w'), (reply, s', st')) \<Rightarrow> client_do m p (Inr (respond etext reply)) = None \<and> st' = (r', w')
    | ((Inl err, r', w'), (reply, s', st')) \<Rightarrow> st' = (r', w') \<and> s' = s \<and> (\<exists>e. client_do m p (Inr (respond etext reply)) = Some e \<and>
        err_is ErrRouteExists e = err_is ErrRouteExists err \<and> \<not> err_is ErrRouteNotFound e)) \<and>
   (case (Remove r ctx name w, handleRemoveRoute name ctx s r w) of
      ((None, r', w'), (reply, s', st')) \<Rightarrow> client_do m p (Inr (respond etext reply)) = None \<and> st' = (r', w')
    | ((Some err, r', w'), (reply, s', st')) \<Rightarrow> st' = (r', w') \<and> s' = s \<and> (\<exists>e. client_do m p (Inr (respond etext reply)) = Some e \<and>
        err_is ErrRouteNotFound e = err_is ErrRouteNotFound err \<and> \<not> err_is ErrRouteExists e))"
proof -
  obtain res r1 w1 where add: "Add r ctx (sp_name spec) (Some b) [] w = (res, r1, w1)" by (metis prod_cases3)
  obtain e r2 w2 where rm: "Remove r ctx name w = (e, r2, w2)" by (metis prod_cases3)
  show ?thesis
    using assms
    by (cases res; cases e)
       (auto simp: add rm handleAddRoute_def handleRemoveRoute_def client_do_error)
qed

theorem listing_matches_registry_witness:
  "\<exists>outs s r. exec_all (api_exec demo_fs Background) (NewServer [] 0, registry_New [], demo_world)
       [ApiAdd demo_spec] = (outs, s, r, demo_world) \<and>
     handleListRoutes s r demo_world = ApiRoutes (map (route_info s demo_world) (Routes r)) \<and> length (Routes r) = 1"
proof -
  have "length (Routes demo_registry) = 1" by (simp add: demo_registry_def Routes_def map_filter_def)
  with listing_matches_registry [where as = "[]", unfolded list.map, OF demo_run] demo_run show ?thesis by blast
qed

theorem sentinels_survive_wire_witness:
  "\<exists>e. client_do ''DELETE'' ''/v1/routes/a'' (Inr (respond (\<lambda>e. ''gone'') (fst (handleRemoveRoute ''a'' Background
      (NewServer [] 0) (registry_New []) demo_world)))) = Some e \<and> err_is ErrRouteNotFound e"
proof -
  have h: "sp_name demo_spec \<noteq> []" "sp_type demo_spec \<noteq> []"
    "lookupFactory (sp_type demo_spec) demo_fs = Some (\<lambda>cfg. Inr (rt_backend demo_route))"
    "(\<lambda>cfg. Inr (rt_backend demo_route)) (sp_config demo_spec) = Inr (rt_backend demo_route)"
    by (simp_all add: demo_spec_def demo_fs_def lookupFactory_def)
  obtain m where rm: "Remove (registry_New []) Background ''a'' demo_world =
      (Some (Errorf m [''a''] [Sentinel ErrRouteNotFound]), registry_New [], demo_world)"
    by (simp add: Remove_value registry_New_def published_def)
  obtain reply s' st' where hr: "handleRemoveRoute ''a'' Background (NewServer [] 0) (registry_New []) demo_world =
      (reply, s', st')" by (metis prod_cases3)
  from sentinels_survive_wire [OF h, where m = "''DELETE''" and p = "''/v1/routes/a''" and name = "''a''" and etext = "\<lambda>e. ''gone''"
      and ctx = Background and s = "NewServer [] 0" and r = "registry_New []" and w = demo_world]
  show ?thesis by (auto simp: rm hr split: prod.splits sum.splits)
qed

text \<open>A remove whose backend fails to stop is half done: the route is gone from the registry and cannot be
  dialed any more, the client is told 500, and the daemon keeps the specification of the vanished route.\<close>

theorem failed_stop_keeps_spec:
  assumes "exec_all (api_exec fs ctx0) (NewServer (map WithProxyAddr as) t, registry_New opts, w0) ops = (outs, s, r, w)"
    and "Lookup r name = Some rt" and "Remove r ctx name w = (Some err, r', w')"
    and "\<not> err_is ErrRouteNotFound err"
  shows "handleRemoveRoute name ctx s r w = (ApiError 500 codeInternal err, s, r', w') \<and>
    Lookup r' name = None \<and> map_of (sv_specs s) (to_lower name) \<noteq> None"
proof -
  have ok: "api_ok (New_config opts) fs (s, r, w)" by (rule api_run_ok [OF api_ok_New assms(1)])
  with assms(2) have "map_of (sv_specs s) (to_lower name) \<noteq> None"
    by (auto simp: api_ok_def Lookup_published)
  moreover have "Lookup r' name = None" using Remove_published [OF assms(3)] by (simp add: Lookup_published)
  ultimately show ?thesis using assms(3,4) by (simp add: handleRemoveRoute_def)
qed

theorem failed_stop_keeps_spec_witness:
  "handleRemoveRoute ''a'' Background ((NewServer [] 0)\<lparr>sv_specs := [(''a'', demo_spec)]\<rparr>) stuck_registry demo_world =
     (ApiError 500 codeInternal (ErrNew ''stuck''), (NewServer [] 0)\<lparr>sv_specs := [(''a'', demo_spec)]\<rparr>,
      registry_New [], demo_world)"
proof -
  have "Lookup stuck_registry ''a'' = Some (plain_route ''a'' stuck_backend)"
    by (simp add: Lookup_def stuck_registry_def to_lower_a)
  from failed_stop_keeps_spec [where as = "[]", unfolded list.map, OF stuck_run this stuck_remove] show ?thesis by simp
qed

text \<open>The readiness endpoint answers a timeout differently by who set it: for a future whose address never
  comes, a request with a \<open>timeout\<close> parameter ends in 504, one without it ends, after the route's ready
  timeout, in 502, because the cause of that timeout is no \<open>DeadlineExceeded\<close>.\<close>

theorem ready_timeout_status:
  assumes "Lookup r name = Some (unset_route n net i)" and "r_cfg r = New_config []" and "done_at w = None"
    and "t \<noteq> []" and "ParseDuration t = Inr d"
  shows "(\<exists>e w'. handleReady name [] Background r w = Some (ApiError 502 codeNotReady e, w')) \<and>
    (\<exists>e w'. handleReady name t Background r w = Some (ApiError 504 codeNotReady e, w'))"
proof -
  let ?c = "WithTimeout Background (now w) d"
  obtain t1 cause1 w1 where r1: "Route_Ready (New_config []) (unset_route n net i) Background w =
      Some (Some (dialWaitError n cause1 (Some unset_error)), w1)"
    and c1: "ctx_Cause (dial_ctx (unset_route n net i :: 'a Route) Background w) t1 = Some cause1"
    using unset_Ready [OF assms(3)] by blast
  obtain t2 cause2 w2 where r2: "Route_Ready (New_config []) (unset_route n net i) ?c w =
      Some (Some (dialWaitError n cause2 (Some unset_error)), w2)"
    and c2: "ctx_Cause (dial_ctx (unset_route n net i :: 'a Route) ?c w) t2 = Some cause2"
    using unset_Ready [OF assms(3)] by blast
  from timeout_cause(1) [OF c1] timeout_cause(2) [OF c2] assms r1 r2 show ?thesis
    by (simp add: handleReady_def ready_ctx_def)
qed

theorem ready_timeout_status_witness:
  "\<exists>e w'. handleReady ''f'' [] Background
     ((registry_New [])\<lparr>r_routes := [(''f'', Some (unset_route ''f'' (booting_net 0 1 [] (Conn 1 True None)) 1))]\<rparr>)
     demo_world = Some (ApiError 502 codeNotReady e, w')"
proof -
  let ?r = "(registry_New [])\<lparr>r_routes := [(''f'', Some (unset_route ''f'' (booting_net 0 1 [] (Conn 1 True None)) 1))]\<rparr>
    :: Event list Registry"
  have "Lookup ?r ''f'' = Some (unset_route ''f'' (booting_net 0 1 [] (Conn 1 True None)) 1)"
    by (simp add: Lookup_def to_lower_def lower_char_def byte_def)
  moreover have "r_cfg ?r = New_config []" by (simp add: registry_New_def)
  moreover have "done_at demo_world = None" by (simp add: demo_world_def)
  moreover have "ParseDuration (Duration_String 1) = Inr 1" by (rule ParseDuration_String) simp_all
  moreover from this have "Duration_String 1 \<noteq> []" by (auto simp: ParseDuration_def split_sign_def)
  ultimately show ?thesis using ready_timeout_status by blast
qed

end
