(* ===== verification/Paths.thy ===== *)
theory Paths
  imports World
begin

text \<open>
  Where the program keeps its files: the functions of \<open>path/filepath\<close> it calls, on Unix, then
  \<open>control/socket.go\<close> and \<open>DefaultStateDir\<close> of \<open>ca/ca.go\<close>. Environment variables, the user directories
  and the outcomes of system calls are inputs.
\<close>

named_theorems go_path "rules of slash-separated paths"

section \<open>path/filepath\<close>

text \<open>One component onto the stack of components kept so far, innermost first.\<close>

definition clean_step :: "bool \<Rightarrow> string list \<Rightarrow> string \<Rightarrow> string list" where
  "clean_step rooted st c =
     (if c = [] \<or> c = ''.'' then st
      else if c = ''..'' then
        (case st of
           [] \<Rightarrow> if rooted then [] else [c]
         | t # st' \<Rightarrow> if t = ''..'' then c # st else st')
      else c # st)"

definition rooted :: "string \<Rightarrow> bool" where
  "rooted p \<longleftrightarrow> has_prefix p ''/''"

definition components :: "string \<Rightarrow> string list" where
  "components p = rev (foldl (clean_step (rooted p)) [] (split_on (CHR ''/'') p))"

definition unclean :: "bool \<Rightarrow> string list \<Rightarrow> string" where
  "unclean r cs = (if r then CHR ''/'' # join_with ''/'' cs
     else if cs = [] then ''.'' else join_with ''/'' cs)"

definition filepath_Clean :: "string \<Rightarrow> string" where
  "filepath_Clean p = (if p = [] then ''.'' else unclean (rooted p) (components p))"

definition filepath_Join :: "string list \<Rightarrow> string" where
  "filepath_Join elems = (case dropWhile (\<lambda>e. e = []) elems of [] \<Rightarrow> [] | es \<Rightarrow> filepath_Clean (join_with ''/'' es))"

definition filepath_Dir :: "string \<Rightarrow> string" where
  "filepath_Dir p = filepath_Clean (case last_index_byte (CHR ''/'') p of None \<Rightarrow> [] | Some i \<Rightarrow> take (Suc i) p)"

section \<open>control/socket.go\<close>

record os_env =
  env_get :: "string \<Rightarrow> string"       \<comment> \<open>\<open>os.Getenv\<close>: empty when unset\<close>
  env_goos :: string
  env_cache :: "string option"          \<comment> \<open>\<open>os.UserCacheDir\<close>, when it succeeds\<close>
  env_config :: "string option"         \<comment> \<open>\<open>os.UserConfigDir\<close>\<close>
  env_tmp :: string
  env_uid :: nat

definition DefaultSocketPath :: "os_env \<Rightarrow> string" where
  "DefaultSocketPath e =
     (let p = env_get e ''PORTLESS_SOCKET''; d = env_get e ''XDG_RUNTIME_DIR'' in
      if p \<noteq> [] then p
      else if d \<noteq> [] then filepath_Join [d, ''portless.sock'']
      else case (if env_goos e = ''darwin'' then env_cache e else None) of
        Some c \<Rightarrow> filepath_Join [c, ''portless'', ''portless.sock'']
      | None \<Rightarrow> filepath_Join [env_tmp e, ''portless-'' @ itoa_nat (env_uid e), ''portless.sock''])"

text \<open>What \<open>Lstat\<close> finds at a path: nothing, a socket, something else.\<close>

datatype entry = NoEntry | SocketFile | OtherFile

text \<open>\<open>mkdir\<close> and \<open>remove\<close> are the outcomes of the two system calls; the result has the entry it leaves.\<close>

definition EnsureSocketDir :: "string \<Rightarrow> (string \<Rightarrow> goerr option) \<Rightarrow> goerr option \<Rightarrow> entry \<Rightarrow> goerr option \<times> entry" where
  "EnsureSocketDir path mkdir remove found =
     (case mkdir (filepath_Dir path) of
        Some err \<Rightarrow> (Some (Errorf ''control: create socket dir: %w'' [] [err]), found)
      | None \<Rightarrow>
          if found = NoEntry then (None, NoEntry)
          else if found \<noteq> SocketFile then (Some (Errorf ''control: %s exists and is not a socket'' [path] []), found)
          else (case remove of
              Some err \<Rightarrow> (Some (Errorf ''control: remove stale socket: %w'' [] [err]), found)
            | None \<Rightarrow> (None, NoEntry)))"

text \<open>\<open>ca.DefaultStateDir\<close>.\<close>

definition DefaultStateDir :: "os_env \<Rightarrow> string" where
  "DefaultStateDir e =
     (if env_get e ''PORTLESS_STATE_DIR'' \<noteq> [] then env_get e ''PORTLESS_STATE_DIR''
      else case env_config e of
        Some d \<Rightarrow> filepath_Join [d, ''portless'']
      | None \<Rightarrow> filepath_Join [env_tmp e, ''portless''])"

section \<open>Lemmas\<close>

text \<open>A component that stands for itself, and a list of components in normal form (outermost first).\<close>

definition plain :: "string \<Rightarrow> bool" where
  "plain c \<longleftrightarrow> c \<noteq> [] \<and> c \<noteq> ''.'' \<and> c \<noteq> ''..'' \<and> CHR ''/'' \<notin> set c"

definition normal :: "bool \<Rightarrow> string list \<Rightarrow> bool" where
  "normal r cs \<longleftrightarrow> (\<exists>k ps. cs = replicate k ''..'' @ ps \<and> list_all plain ps \<and> (r \<longrightarrow> k = 0))"

declare split_on_append [go_path] split_on_none [go_path]

lemma clean_step_plain [simp, go_path]: "plain c \<Longrightarrow> clean_step r st c = c # st"
  by (auto simp: clean_step_def plain_def)

lemma plain_dots [simp]: "\<not> plain []" "\<not> plain ''.''" "\<not> plain ''..''"
  by (simp_all add: plain_def)

lemma replicate_Nil_iff: "([] = replicate k x @ ps) = (k = 0 \<and> ps = [])"
  by auto

lemma normal_step:
  assumes "normal r cs" and "CHR ''/'' \<notin> set c"
  shows "normal r (rev (clean_step r (rev cs) c))"
proof -
  from assms(1) obtain k ps where cs: "cs = replicate k ''..'' @ ps" "list_all plain ps" "r \<longrightarrow> k = 0"
    by (auto simp: normal_def)
  consider "c = [] \<or> c = ''.''" | "c = ''..''" "ps = []" | "c = ''..''" "ps \<noteq> []" | "plain c"
    using assms(2) by (auto simp: plain_def)
  then show ?thesis
  proof cases
    case 1
    with assms show ?thesis by (auto simp: clean_step_def)
  next
    case 2
    have "clean_step r (replicate k ''..'') ''..'' = (if r then [] else replicate (Suc k) ''..'')"
      using cs(3) by (cases k) (auto simp: clean_step_def)
    with 2 cs have "rev (clean_step r (rev cs) c) = (if r then [] else replicate (Suc k) ''..'')"
      by (simp del: replicate_Suc)
    then show ?thesis unfolding normal_def
      by (intro exI [of _ "if r then 0 else Suc k"] exI [of _ "[]"]) auto
  next
    case 3
    then obtain qs q where ps: "ps = qs @ [q]" by (metis rev_exhaust)
    then have "q \<noteq> ''..''" using cs(2) by auto
    then have "rev (clean_step r (rev cs) c) = replicate k ''..'' @ qs" using 3 cs ps by (simp add: clean_step_def)
    with cs ps show ?thesis by (auto simp: normal_def)
  next
    case 4
    then have "rev (clean_step r (rev cs) c) = replicate k ''..'' @ (ps @ [c])" using cs by simp
    with 4 cs show ?thesis unfolding normal_def by (intro exI [of _ k] exI [of _ "ps @ [c]"]) auto
  qed
qed

lemma normal_foldl:
  "normal r (rev st) \<Longrightarrow> \<forall>c \<in> set cs. CHR ''/'' \<notin> set c \<Longrightarrow> normal r (rev (foldl (clean_step r) st cs))"
proof (induction cs arbitrary: st)
  case (Cons c cs)
  then have "normal r (rev (clean_step r st c))" using normal_step [of r "rev st" c] by simp
  with Cons show ?case by simp
qed simp

lemma normal_Nil [simp]: "normal r []"
  unfolding normal_def by (intro exI [of _ 0] exI [of _ "[]"]) simp

lemma normal_components: "normal (rooted p) (components p)"
  unfolding components_def by (intro normal_foldl) (auto dest: split_on_parts)

text \<open>Components in normal form survive cleaning.\<close>

lemma foldl_plain: "list_all plain ps \<Longrightarrow> foldl (clean_step r) st ps = rev ps @ st"
  by (induction ps arbitrary: st) auto

lemma foldl_dots: "foldl (clean_step False) (replicate j ''..'') (replicate k ''..'') = replicate (k + j) ''..''"
proof (induction k arbitrary: j)
  case (Suc k)
  have "clean_step False (replicate j ''..'') ''..'' = replicate (Suc j) ''..''"
    by (cases j) (auto simp: clean_step_def)
  with Suc [of "Suc j"] show ?case by simp
qed simp

lemma foldl_normal:
  assumes "normal r cs"
  shows "foldl (clean_step r) [] cs = rev cs"
proof -
  from assms obtain k ps where cs: "cs = replicate k ''..'' @ ps" "list_all plain ps" "r \<longrightarrow> k = 0"
    by (auto simp: normal_def)
  show ?thesis
  proof (cases "k = 0")
    case True
    with cs show ?thesis by (simp add: foldl_plain)
  next
    case False
    with cs have "\<not> r" by simp
    then have "foldl (clean_step r) [] (replicate k ''..'') = replicate k ''..''"
      using foldl_dots [of 0 k] by simp
    with cs show ?thesis by (simp add: foldl_plain)
  qed
qed

lemma normal_no_slash: "normal r cs \<Longrightarrow> c \<in> set cs \<Longrightarrow> c \<noteq> [] \<and> CHR ''/'' \<notin> set c"
proof -
  assume "normal r cs" and c: "c \<in> set cs"
  then obtain k ps where cs: "cs = replicate k ''..'' @ ps" and ps: "list_all plain ps"
    unfolding normal_def by blast
  from c consider "c = ''..''" | "c \<in> set ps" unfolding cs by (metis Un_iff in_set_replicate set_append)
  then show ?thesis
  proof cases
    case 1
    then show ?thesis by simp
  next
    case 2
    with ps have "plain c" by (simp add: list_all_iff)
    then show ?thesis by (simp add: plain_def)
  qed
qed

lemma split_join:
  "cs \<noteq> [] \<Longrightarrow> \<forall>c \<in> set cs. CHR ''/'' \<notin> set c \<Longrightarrow> split_on (CHR ''/'') (join_with ''/'' cs) = cs"
proof (induction cs rule: rev_induct)
  case (snoc c cs)
  have "join_with ''/'' (cs @ [c]) = (if cs = [] then c else join_with ''/'' cs @ CHR ''/'' # c)"
    by (induction cs rule: induct_list012) auto
  with snoc show ?case by (simp add: split_on_append split_on_none)
qed simp

lemma join_with_snoc:
  "join_with sep (cs @ [c]) = (if cs = [] then c else join_with sep cs @ sep @ c)"
  by (induction cs rule: induct_list012) auto

lemma components_unclean:
  assumes "normal r cs"
  shows "rooted (unclean r cs) = r \<and> components (unclean r cs) = cs"
proof -
  have ns: "\<forall>c \<in> set cs. c \<noteq> [] \<and> CHR ''/'' \<notin> set c" using normal_no_slash [OF assms] by blast
  show ?thesis
  proof (cases "cs = []")
    case True
    then show ?thesis by (auto simp: unclean_def rooted_def components_def clean_step_def)
  next
    case False
    then obtain c cs' where cs: "cs = c # cs'" by (cases cs) auto
    have "c \<noteq> []" "CHR ''/'' \<notin> set c" using ns cs by auto
    then obtain x xs where "c = x # xs" "x \<noteq> CHR ''/''" by (cases c) auto
    then have "rooted (join_with ''/'' cs) = False" by (cases cs') (simp_all add: cs rooted_def)
    moreover have "split_on (CHR ''/'') (join_with ''/'' cs) = cs" using split_join [OF False] ns by blast
    moreover have "foldl (clean_step r) [] cs = rev cs" using assms by (rule foldl_normal)
    moreover have "clean_step r [] [] = []" by (simp add: clean_step_def)
    ultimately show ?thesis using False by (auto simp: unclean_def rooted_def components_def)
  qed
qed

lemma unclean_not_Nil [simp]: "normal r cs \<Longrightarrow> unclean r cs \<noteq> []"
  using normal_no_slash [of r cs "hd cs"] by (cases cs; cases "tl cs") (auto simp: unclean_def)

lemma Clean_unclean: "normal r cs \<Longrightarrow> filepath_Clean (unclean r cs) = unclean r cs"
  using components_unclean [of r cs] by (simp add: filepath_Clean_def)

lemma Clean_idem [simp, go_path]: "filepath_Clean (filepath_Clean p) = filepath_Clean p"
proof (cases "p = []")
  case True
  then show ?thesis by (simp add: filepath_Clean_def rooted_def components_def clean_step_def unclean_def)
next
  case False
  then have "filepath_Clean p = unclean (rooted p) (components p)" by (simp add: filepath_Clean_def)
  then show ?thesis using Clean_unclean [OF normal_components] by simp
qed

lemma rooted_append [simp, go_path]: "d \<noteq> [] \<Longrightarrow> rooted (d @ x) = rooted d"
  by (cases d) (simp_all add: rooted_def)

lemma components_snoc:
  assumes "plain f" and "d \<noteq> []"
  shows "components (d @ CHR ''/'' # f) = components d @ [f]"
proof -
  have "CHR ''/'' \<notin> set f" using assms(1) by (simp add: plain_def)
  then show ?thesis using assms by (simp add: components_def split_on_append)
qed

text \<open>A trailing slash changes nothing.\<close>

lemma components_slash: "d \<noteq> [] \<Longrightarrow> filepath_Clean (d @ ''/'') = filepath_Clean d"
  by (simp add: filepath_Clean_def components_def split_on_append clean_step_def [of _ _ "[]"])

lemma Dir_Join [go_path]:
  assumes "d \<noteq> []" and "plain f"
  shows "filepath_Dir (filepath_Join [d, f]) = filepath_Clean d"
proof -
  let ?r = "rooted d" and ?cs = "components d"
  have f: "CHR ''/'' \<notin> set f" "f \<noteq> []" using assms(2) by (auto simp: plain_def)
  have j: "filepath_Join [d, f] = unclean ?r (?cs @ [f])"
    using components_snoc [OF assms(2,1)] assms(1) by (simp add: filepath_Join_def filepath_Clean_def)
  have cl: "filepath_Clean d = unclean ?r ?cs" using assms by (simp add: filepath_Clean_def)
  show ?thesis
  proof (cases "?cs = []")
    case True
    have n: "last_index_byte (CHR ''/'') f = None" using f(1) by simp
    have i: "last_index_byte (CHR ''/'') (CHR ''/'' # f) = Some 0"
      using last_index_byte_append [OF f(1), of "[]"] by simp
    from True show ?thesis
      by (simp add: j cl unclean_def filepath_Dir_def n i)
        (simp add: filepath_Clean_def unclean_def rooted_def components_def clean_step_def)
  next
    case False
    then have u: "unclean ?r (?cs @ [f]) = unclean ?r ?cs @ CHR ''/'' # f"
      by (simp add: unclean_def join_with_snoc)
    have "filepath_Dir (unclean ?r ?cs @ CHR ''/'' # f) = filepath_Clean (unclean ?r ?cs @ ''/'')"
      by (simp add: filepath_Dir_def last_index_byte_append [OF f(1)])
    also have "\<dots> = filepath_Clean (unclean ?r ?cs)"
      by (rule components_slash) (simp add: normal_components)
    also have "\<dots> = filepath_Clean d" using Clean_unclean [OF normal_components] cl by simp
    finally show ?thesis by (simp add: j u)
  qed
qed

lemma Join_three: "t \<noteq> [] \<Longrightarrow> filepath_Join [t, a, f] = filepath_Join [t @ ''/'' @ a, f]"
  by (simp add: filepath_Join_def)

lemma plain_sock [simp]: "plain ''portless.sock''"
  by (simp add: plain_def)

section \<open>Properties\<close>

text \<open>The control socket's directory: \<open>EnsureSocketDir\<close> succeeds only with the parent directory made and
  nothing left at the path, it removes nothing but a socket, and a failure leaves the entry as it was; the
  parent of the default path is the runtime directory or a directory of the user's own under the temporary
  directory, so another user's sockets are never touched.\<close>

theorem socket_dir_is_safe:
  assumes "env_get e ''PORTLESS_SOCKET'' = []" and "env_tmp e \<noteq> []"
  shows "(case EnsureSocketDir path mkdir remove found of
      (None, left) \<Rightarrow> left = NoEntry \<and> found \<noteq> OtherFile \<and> mkdir (filepath_Dir path) = None
    | (Some err, left) \<Rightarrow> left = found) \<and>
    (env_get e ''XDG_RUNTIME_DIR'' \<noteq> [] \<longrightarrow>
       filepath_Dir (DefaultSocketPath e) = filepath_Clean (env_get e ''XDG_RUNTIME_DIR'')) \<and>
    (env_get e ''XDG_RUNTIME_DIR'' = [] \<and> env_goos e \<noteq> ''darwin'' \<longrightarrow>
       filepath_Dir (DefaultSocketPath e) = filepath_Join [env_tmp e, ''portless-'' @ itoa_nat (env_uid e)])"
proof (intro conjI impI)
  show "case EnsureSocketDir path mkdir remove found of
      (None, left) \<Rightarrow> left = NoEntry \<and> found \<noteq> OtherFile \<and> mkdir (filepath_Dir path) = None
    | (Some err, left) \<Rightarrow> left = found"
    by (simp add: EnsureSocketDir_def split: option.split entry.split)
  show "filepath_Dir (DefaultSocketPath e) = filepath_Clean (env_get e ''XDG_RUNTIME_DIR'')"
    if "env_get e ''XDG_RUNTIME_DIR'' \<noteq> []"
    using that assms(1) by (simp add: DefaultSocketPath_def Dir_Join)
  assume "env_get e ''XDG_RUNTIME_DIR'' = [] \<and> env_goos e \<noteq> ''darwin''"
  then have "DefaultSocketPath e =
      filepath_Join [env_tmp e @ ''/'' @ ''portless-'' @ itoa_nat (env_uid e), ''portless.sock'']"
    using assms by (simp add: DefaultSocketPath_def Join_three)
  then show "filepath_Dir (DefaultSocketPath e) = filepath_Join [env_tmp e, ''portless-'' @ itoa_nat (env_uid e)]"
    using assms(2) by (simp add: Dir_Join) (simp add: filepath_Join_def)
qed

theorem socket_dir_is_safe_witness:
  "filepath_Dir (DefaultSocketPath \<lparr>env_get = \<lambda>v. if v = ''XDG_RUNTIME_DIR'' then ''/run/user/'' else [],
     env_goos = ''linux'', env_cache = None, env_config = None, env_tmp = ''/tmp'', env_uid = 7\<rparr>) = ''/run/user''"
proof -
  let ?e = "\<lparr>env_get = \<lambda>v. if v = ''XDG_RUNTIME_DIR'' then ''/run/user/'' else [],
     env_goos = ''linux'', env_cache = None, env_config = None, env_tmp = ''/tmp'', env_uid = 7\<rparr>"
  have "env_get ?e ''PORTLESS_SOCKET'' = []" "env_tmp ?e \<noteq> []" by simp_all
  from socket_dir_is_safe [OF this] show ?thesis
    by (simp add: filepath_Clean_def components_def rooted_def clean_step_def unclean_def)
qed

end
