(* ===== verification/Wire.thy ===== *)
theory Wire
  imports Control Paths Go_Time
begin

text \<open>
  The path of a control request: the client's request lines (\<open>control/client.go\<close>), the escaping of \<open>net/url\<close>
  and the patterns of the server's \<open>http.ServeMux\<close> (\<open>control/server.go\<close>), which matches a request path
  segment by segment after unescaping each.
\<close>

named_theorems go_url "rules of URL escaping"

section \<open>net/url\<close>

definition hex_digit :: "nat \<Rightarrow> char" where
  "hex_digit n = (if n < 10 then char_of (48 + n) else char_of (55 + n))"

definition unreserved :: "char \<Rightarrow> bool" where
  "unreserved c \<longleftrightarrow> is_lower c \<or> is_upper c \<or> is_digit c \<or> c \<in> set ''-_.~''"

definition percent :: "char \<Rightarrow> string" where
  "percent c = [CHR ''%'', hex_digit (byte c div 16), hex_digit (byte c mod 16)]"

definition PathEscape :: "string \<Rightarrow> string" where
  "PathEscape s = concat (map (\<lambda>c. if unreserved c \<or> c \<in> set ''$&+:=@'' then [c] else percent c) s)"

definition QueryEscape :: "string \<Rightarrow> string" where
  "QueryEscape s = concat (map (\<lambda>c. if unreserved c then [c] else if c = CHR '' '' then ''+'' else percent c) s)"

text \<open>\<open>q\<close> says whether a plus sign stands for a space, as it does in a query.\<close>

fun unescape :: "bool \<Rightarrow> string \<Rightarrow> string option" where
  "unescape q [] = Some []"
| "unescape q (c # cs) =
     (if c = CHR ''%'' then
        (case cs of
           a # b # rest \<Rightarrow>
             (case (unhex a, unhex b) of
                (Some x, Some y) \<Rightarrow> map_option ((#) (char_of (16 * x + y))) (unescape q rest)
              | _ \<Rightarrow> None)
         | _ \<Rightarrow> None)
      else map_option ((#) (if q \<and> c = CHR ''+'' then CHR '' '' else c)) (unescape q cs))"

definition PathUnescape :: "string \<Rightarrow> string option" where
  "PathUnescape s = unescape False s"

text \<open>\<open>url.Values.Get\<close> on a raw query: the first pair with the key; pairs that do not parse are skipped.\<close>

definition query_pair :: "string \<Rightarrow> (string \<times> string) option" where
  "query_pair p =
     (if p = [] \<or> CHR '';'' \<in> set p then None
      else case (case cut_str p ''='' of Some kv \<Rightarrow> kv | None \<Rightarrow> (p, [])) of
        (k, v) \<Rightarrow> (case (unescape True k, unescape True v) of (Some k', Some v') \<Rightarrow> Some (k', v') | _ \<Rightarrow> None))"

definition query_get :: "string \<Rightarrow> string \<Rightarrow> string" where
  "query_get key q =
     (case map_of (List.map_filter query_pair (split_on (CHR ''&'') q)) key of Some v \<Rightarrow> v | None \<Rightarrow> [])"

section \<open>control/client.go: requests\<close>

record api_request =
  aq_method :: string
  aq_path :: string
  aq_query :: string

definition Status_request :: api_request where
  "Status_request = \<lparr>aq_method = ''GET'', aq_path = ''/v1/status'', aq_query = []\<rparr>"

definition Routes_request :: api_request where
  "Routes_request = \<lparr>aq_method = ''GET'', aq_path = ''/v1/routes'', aq_query = []\<rparr>"

definition AddRoute_request :: api_request where
  "AddRoute_request = \<lparr>aq_method = ''POST'', aq_path = ''/v1/routes'', aq_query = []\<rparr>"

definition RemoveRoute_request :: "string \<Rightarrow> api_request" where
  "RemoveRoute_request name = \<lparr>aq_method = ''DELETE'', aq_path = ''/v1/routes/'' @ PathEscape name, aq_query = []\<rparr>"

definition WaitReady_request :: "string \<Rightarrow> int \<Rightarrow> api_request" where
  "WaitReady_request name timeout = \<lparr>aq_method = ''GET'',
     aq_path = ''/v1/routes/'' @ PathEscape name @ ''/ready'', aq_query = ''timeout='' @ QueryEscape (Duration_String timeout)\<rparr>"

section \<open>The server's multiplexer\<close>

datatype endpoint = EpStatus | EpList | EpAdd | EpRemove string | EpReady string

datatype mux_result = MuxHandler endpoint | MuxRedirect string | MuxMethodNotAllowed | MuxNotFound

text \<open>\<open>cleanPath\<close>: the cleaned path, with a trailing slash kept.\<close>

definition mux_clean :: "string \<Rightarrow> string" where
  "mux_clean p =
     (if p = [] then ''/''
      else let p' = (if rooted p then p else CHR ''/'' # p); np = filepath_Clean p' in
        if last p' = CHR ''/'' \<and> np \<noteq> ''/'' then np @ ''/'' else np)"

definition mux_segments :: "string \<Rightarrow> string list" where
  "mux_segments p = map (\<lambda>s. case PathUnescape s of Some t \<Rightarrow> t | None \<Rightarrow> s) (tl (split_on (CHR ''/'') p))"

definition is_get :: "string \<Rightarrow> bool" where
  "is_get m \<longleftrightarrow> m = ''GET'' \<or> m = ''HEAD''"

text \<open>A single wildcard matches one segment, but no trailing slash; nor a segment that unescapes to a slash.\<close>

definition wild :: "string \<Rightarrow> bool" where
  "wild s \<longleftrightarrow> s \<noteq> [] \<and> s \<noteq> ''/''"

definition mux_match :: "string \<Rightarrow> string list \<Rightarrow> mux_result" where
  "mux_match m segs =
     (case segs of
        [a, b] \<Rightarrow>
          if a = ''v1'' \<and> b = ''status'' then (if is_get m then MuxHandler EpStatus else MuxMethodNotAllowed)
          else if a = ''v1'' \<and> b = ''routes'' then
            (if is_get m then MuxHandler EpList else if m = ''POST'' then MuxHandler EpAdd else MuxMethodNotAllowed)
          else MuxNotFound
      | [a, b, c] \<Rightarrow>
          if a = ''v1'' \<and> b = ''routes'' \<and> wild c then
            (if m = ''DELETE'' then MuxHandler (EpRemove c) else MuxMethodNotAllowed)
          else MuxNotFound
      | [a, b, c, d] \<Rightarrow>
          if a = ''v1'' \<and> b = ''routes'' \<and> wild c \<and> d = ''ready'' then
            (if is_get m then MuxHandler (EpReady c) else MuxMethodNotAllowed)
          else MuxNotFound
      | _ \<Rightarrow> MuxNotFound)"

definition mux :: "api_request \<Rightarrow> mux_result" where
  "mux q = (if mux_clean (aq_path q) \<noteq> aq_path q then MuxRedirect (mux_clean (aq_path q))
     else mux_match (aq_method q) (mux_segments (aq_path q)))"

text \<open>
  The client follows the redirect of the multiplexer. \<open>keep\<close> says whether the redirect's status makes it keep
  the method (307, in recent versions of \<open>net/http\<close>); after a 301 any method other than \<open>GET\<close> and \<open>HEAD\<close>
  becomes \<open>GET\<close>. A cleaned path is not redirected again.
\<close>

definition call :: "bool \<Rightarrow> api_request \<Rightarrow> mux_result" where
  "call keep q = (case mux q of
     MuxRedirect p \<Rightarrow> mux_match (if keep \<or> is_get (aq_method q) then aq_method q else ''GET'') (mux_segments p)
   | r \<Rightarrow> r)"

section \<open>Lemmas\<close>

lemma unhex_hex [simp, go_url]: "n < 16 \<Longrightarrow> unhex (hex_digit n) = Some n"
  by (simp add: unhex_def hex_digit_def)

lemma unescape_percent [simp, go_url]:
  "unescape q (percent c @ cs) = map_option ((#) c) (unescape q cs)"
proof -
  have "byte c div 16 < 16" using byte_less [of c] by (simp add: less_mult_imp_div_less)
  then show ?thesis by (simp add: percent_def)
qed

lemma unescape_keep [simp, go_url]:
  "c \<noteq> CHR ''%'' \<Longrightarrow> \<not> (q \<and> c = CHR ''+'') \<Longrightarrow> unescape q (c # cs) = map_option ((#) c) (unescape q cs)"
  by auto

lemma unreserved_marks [simp]: "\<not> unreserved (CHR ''%'')" "\<not> unreserved (CHR ''+'')"
  by (simp_all add: unreserved_def is_lower_def is_upper_def is_digit_def byte_def)

lemma unescape_PathEscape [simp, go_url]: "unescape False (PathEscape s) = Some s"
proof (induction s)
  case (Cons c s)
  have e: "PathEscape (c # s) = (if unreserved c \<or> c \<in> set ''$&+:=@'' then [c] else percent c) @ PathEscape s"
    by (simp add: PathEscape_def)
  show ?case
  proof (cases "unreserved c \<or> c \<in> set ''$&+:=@''")
    case True
    then have "c \<noteq> CHR ''%''" by auto
    with True Cons e show ?thesis by simp
  next
    case False
    with Cons e show ?thesis by (simp del: unescape.simps)
  qed
qed (simp add: PathEscape_def)

lemma unescape_QueryEscape [simp, go_url]: "unescape True (QueryEscape s) = Some s"
proof (induction s)
  case (Cons c s)
  have e: "QueryEscape (c # s) =
      (if unreserved c then [c] else if c = CHR '' '' then ''+'' else percent c) @ QueryEscape s"
    by (simp add: QueryEscape_def)
  consider "unreserved c" | "\<not> unreserved c" "c = CHR '' ''" | "\<not> unreserved c" "c \<noteq> CHR '' ''" by blast
  then show ?case
  proof cases
    case 1
    then have "c \<noteq> CHR ''%''" "c \<noteq> CHR ''+''" by auto
    with 1 Cons e show ?thesis by simp
  next
    case 2
    with Cons e show ?thesis by simp
  next
    case 3
    with Cons e show ?thesis by (simp del: unescape.simps)
  qed
qed (simp add: QueryEscape_def)

lemma unreserved_hex: "n < 16 \<Longrightarrow> unreserved (hex_digit n)"
  by (simp add: unreserved_def is_digit_def is_upper_def hex_digit_def)

lemma percent_set: "x \<in> set (percent c) \<Longrightarrow> x = CHR ''%'' \<or> unreserved x"
proof -
  have "unreserved (hex_digit (byte c div 16))" "unreserved (hex_digit (byte c mod 16))"
    using byte_less [of c] by (simp_all add: unreserved_hex less_mult_imp_div_less)
  then show "x \<in> set (percent c) \<Longrightarrow> ?thesis" unfolding percent_def by auto
qed

lemma unreserved_not: "c \<in> set ''/?#&;= '' \<Longrightarrow> \<not> unreserved c"
  by (auto simp: unreserved_def is_lower_def is_upper_def is_digit_def byte_def)

text \<open>An escaped text holds none of the characters that mean something to the parser that reads it.\<close>

lemma PathEscape_set: "c \<in> set ''/?#'' \<Longrightarrow> c \<notin> set (PathEscape s)"
  using unreserved_not [of c] by (auto simp: PathEscape_def dest!: percent_set split: if_splits)

lemma QueryEscape_set: "c \<in> set ''&;=#'' \<Longrightarrow> c \<notin> set (QueryEscape s)"
  using unreserved_not [of c] by (auto simp: QueryEscape_def dest!: percent_set split: if_splits)

lemma plain_PathEscape: "name \<notin> {[], ''.'', ''..''} \<Longrightarrow> plain (PathEscape name)"
proof -
  assume n: "name \<notin> {[], ''.'', ''..''}"
  have "x = name" if "PathEscape name = x" "unescape False x = Some x" for x
    using that unescape_PathEscape [of name] by simp
  with n have "PathEscape name \<noteq> []" "PathEscape name \<noteq> ''.''" "PathEscape name \<noteq> ''..''" by force+
  then show ?thesis using PathEscape_set [of "CHR ''/''" name] by (simp add: plain_def)
qed

text \<open>A path of plain segments is clean, and its segments are those it was made of.\<close>

lemma last_join: "cs \<noteq> [] \<Longrightarrow> list_all plain cs \<Longrightarrow> last (join_with ''/'' cs) \<noteq> CHR ''/'' \<and> join_with ''/'' cs \<noteq> []"
proof (induction cs rule: induct_list012)
  case (2 x)
  then show ?case by (auto simp: plain_def dest: last_in_set)
qed auto

lemma mux_plain:
  assumes "cs \<noteq> []" "list_all plain cs" "p = CHR ''/'' # join_with ''/'' cs"
  shows "mux_clean p = p"
    and "mux_segments p = map (\<lambda>s. case PathUnescape s of Some t \<Rightarrow> t | None \<Rightarrow> s) cs"
proof -
  have "normal True cs" using assms(2) unfolding normal_def by (intro exI [of _ 0] exI [of _ cs]) simp
  then have "filepath_Clean p = p" using Clean_unclean [of True cs] assms(3) by (simp add: unclean_def)
  moreover have "rooted p" unfolding assms(3) by (simp add: rooted_def)
  moreover have "last p \<noteq> CHR ''/''" using last_join [OF assms(1,2)] unfolding assms(3) by simp
  ultimately show "mux_clean p = p" using assms(3) by (simp add: mux_clean_def)
  have "\<forall>c \<in> set cs. CHR ''/'' \<notin> set c" using assms(2) by (simp add: list_all_iff plain_def)
  then show "mux_segments p = map (\<lambda>s. case PathUnescape s of Some t \<Rightarrow> t | None \<Rightarrow> s) cs"
    unfolding mux_segments_def assms(3) using split_join [OF assms(1)] by simp
qed

lemma plain_words [simp]: "plain ''v1''" "plain ''routes''" "plain ''ready''" "plain ''status''"
  by (simp_all add: plain_def)

lemma unescape_words [simp]: "unescape q ''v1'' = Some ''v1''" "unescape q ''routes'' = Some ''routes''"
  "unescape q ''ready'' = Some ''ready''" "unescape q ''status'' = Some ''status''"
  "unescape q ''timeout'' = Some ''timeout''"
  by simp_all

lemma query_get_timeout: "query_get ''timeout'' (''timeout='' @ QueryEscape t) = t"
proof -
  have "CHR ''&'' \<notin> set (''timeout='' @ QueryEscape t)" and s: "CHR '';'' \<notin> set (''timeout='' @ QueryEscape t)"
    using QueryEscape_set [of "CHR ''&''" t] QueryEscape_set [of "CHR '';''" t] by simp_all
  then have "split_on (CHR ''&'') (''timeout='' @ QueryEscape t) = [''timeout='' @ QueryEscape t]"
    by (intro split_on_none)
  moreover have "cut_str (''timeout='' @ QueryEscape t) ''='' = Some (''timeout'', QueryEscape t)"
    by simp
  ultimately show ?thesis using s
    by (simp add: query_get_def query_pair_def List.map_filter_def del: unescape.simps)
qed

lemma route_paths:
  "plain (PathEscape name) \<Longrightarrow> mux_clean (''/v1/routes/'' @ PathEscape name) = ''/v1/routes/'' @ PathEscape name
     \<and> mux_segments (''/v1/routes/'' @ PathEscape name) = [''v1'', ''routes'', name]"
  "plain (PathEscape name) \<Longrightarrow>
     mux_clean (''/v1/routes/'' @ PathEscape name @ ''/ready'') = ''/v1/routes/'' @ PathEscape name @ ''/ready''
     \<and> mux_segments (''/v1/routes/'' @ PathEscape name @ ''/ready'') = [''v1'', ''routes'', name, ''ready'']"
  using mux_plain [of "[''v1'', ''routes'', PathEscape name]" "''/v1/routes/'' @ PathEscape name"]
    mux_plain [of "[''v1'', ''routes'', PathEscape name, ''ready'']" "''/v1/routes/'' @ PathEscape name @ ''/ready''"]
  by (simp_all add: PathUnescape_def del: unescape.simps)

lemma fixed_paths:
  "mux_clean ''/v1/status'' = ''/v1/status'' \<and> mux_segments ''/v1/status'' = [''v1'', ''status'']"
  "mux_clean ''/v1/routes'' = ''/v1/routes'' \<and> mux_segments ''/v1/routes'' = [''v1'', ''routes'']"
  using mux_plain [of "[''v1'', ''status'']" "''/v1/status''"] mux_plain [of "[''v1'', ''routes'']" "''/v1/routes''"]
  by (simp_all add: PathUnescape_def del: unescape.simps)

lemmas request_defs = Status_request_def Routes_request_def AddRoute_request_def RemoveRoute_request_def
  WaitReady_request_def

abbreviation reachable_name :: "string \<Rightarrow> bool" where
  "reachable_name n \<equiv> n \<notin> {[], ''.'', ''..'', ''/''}"

lemma fixed_calls: "call keep Status_request = MuxHandler EpStatus" "call keep Routes_request = MuxHandler EpList"
  "call keep AddRoute_request = MuxHandler EpAdd"
  by (simp_all add: call_def mux_def request_defs fixed_paths mux_match_def is_get_def)

lemma named_calls:
  assumes "reachable_name n"
  shows "call keep (RemoveRoute_request n) = MuxHandler (EpRemove n)" "call keep (WaitReady_request n t) = MuxHandler (EpReady n)"
proof -
  from assms have "plain (PathEscape n)" by (intro plain_PathEscape) auto
  with assms route_paths [of n]
  show "call keep (RemoveRoute_request n) = MuxHandler (EpRemove n)" "call keep (WaitReady_request n t) = MuxHandler (EpReady n)"
    by (simp_all add: call_def mux_def request_defs mux_match_def is_get_def wild_def)
qed

section \<open>Properties\<close>

text \<open>C31: Every request of the client reaches the handler it is meant for, with the name and the timeout it was
  given. Escaping a route name into the path and unescaping it in the server's multiplexer is the identity, whatever
  characters the name has, and a 64-bit timeout that is written as text, escaped into the query, read from it and
  parsed is the same timeout. The names that do not get through are those whose escaped segment the multiplexer
  rewrites or refuses: the empty name, the two dot names and a lone slash.\<close>

theorem control_requests_reach_handlers:
  assumes n: "reachable_name name" and d: "- (2 ^ 63) \<le> d" "d < 2 ^ 63"
  shows "call keep Status_request = MuxHandler EpStatus \<and> call keep Routes_request = MuxHandler EpList
       \<and> call keep AddRoute_request = MuxHandler EpAdd
       \<and> call keep (RemoveRoute_request name) = MuxHandler (EpRemove name)
       \<and> call keep (WaitReady_request name d) = MuxHandler (EpReady name)
       \<and> ParseDuration (query_get ''timeout'' (aq_query (WaitReady_request name d))) = Inr d"
  using n query_get_timeout [of "Duration_String d"] ParseDuration_String [OF d]
  by (simp add: fixed_calls named_calls) (simp add: WaitReady_request_def)

theorem control_requests_reach_handlers_witness:
  "call True (RemoveRoute_request ''a/b?c'') = MuxHandler (EpRemove ''a/b?c'')
   \<and> ParseDuration (query_get ''timeout'' (aq_query (WaitReady_request ''../x'' 90500000000))) = Inr 90500000000"
  using control_requests_reach_handlers [of "''a/b?c''" 0 True]
    control_requests_reach_handlers [of "''../x''" 90500000000 True] by simp

text \<open>A route named by a dot can be added, but a request to remove it is redirected to the collection: a client
  that keeps the method is refused, one that changes it to \<open>GET\<close> lists the routes and reports success. The other
  names the multiplexer does not pass are not found.\<close>

theorem removing_a_dot_misses_the_route:
  "mux (RemoveRoute_request ''.'') = MuxRedirect ''/v1/routes''
   \<and> call True (RemoveRoute_request ''.'') = MuxMethodNotAllowed \<and> call False (RemoveRoute_request ''.'') = MuxHandler EpList
   \<and> call keep (RemoveRoute_request ''..'') = MuxNotFound \<and> call keep (RemoveRoute_request ''/'') = MuxNotFound"
  by (cases keep; simp only:; code_simp)

end
