(* ===== verification/Client.thy ===== *)
theory Client
  imports Wire
begin

text \<open>
  The client's calls end to end (\<open>control/client.go\<close>): a call builds its request, the multiplexer of the server
  picks the handler, the handler works on the daemon's registry, and the client reads the reply. The state is
  the daemon behind the socket, or \<open>None\<close> when nothing answers there.
\<close>

section \<open>The daemon behind a socket\<close>

record 'x daemon =
  dm_server :: server
  dm_reg :: "'x Registry"
  dm_world :: "'x world"

text \<open>
  \<open>ap_text\<close> is the text of an error (\<open>err.Error()\<close>), \<open>ap_unreachable\<close> the error of dialing a socket nobody
  listens on, \<open>ap_keep_method\<close> whether a redirect keeps the method of the request.
\<close>

record 'x api =
  ap_factories :: "(string \<times> 'x factory) list"
  ap_text :: "goerr \<Rightarrow> string"
  ap_pid :: int
  ap_version :: string
  ap_unreachable :: goerr
  ap_keep_method :: bool

definition update_daemon :: "api_reply \<times> server \<times> 'x Registry \<times> 'x world \<Rightarrow> api_reply \<times> 'x daemon" where
  "update_daemon x = (case x of (reply, s, r, w) \<Rightarrow> (reply, \<lparr>dm_server = s, dm_reg = r, dm_world = w\<rparr>))"

text \<open>The server's multiplexer and handlers, on the bytes of a request body. \<open>None\<close> is a request that is never
  answered.\<close>

definition serve_request :: "'x api \<Rightarrow> string \<Rightarrow> ctx \<Rightarrow> api_request \<Rightarrow> 'x daemon \<Rightarrow> (api_reply \<times> 'x daemon) option" where
  "serve_request a body ctx q d =
     (case call (ap_keep_method a) q of
        MuxHandler EpStatus \<Rightarrow>
          Some (handleStatus (ap_pid a) (ap_version a) (dm_server d) (dm_reg d) (dm_world d), d)
      | MuxHandler EpList \<Rightarrow> Some (handleListRoutes (dm_server d) (dm_reg d) (dm_world d), d)
      | MuxHandler EpAdd \<Rightarrow>
          Some (update_daemon (handleAddRoute (ap_factories a) (decode_RouteSpec body) ctx (dm_server d) (dm_reg d) (dm_world d)))
      | MuxHandler (EpRemove n) \<Rightarrow>
          Some (update_daemon (handleRemoveRoute n ctx (dm_server d) (dm_reg d) (dm_world d)))
      | MuxHandler (EpReady n) \<Rightarrow>
          map_option (\<lambda>(reply, w). (reply, d\<lparr>dm_world := w\<rparr>))
            (handleReady n (query_get ''timeout'' (aq_query q)) ctx (dm_reg d) (dm_world d))
      | MuxMethodNotAllowed \<Rightarrow> Some (ApiText 405 ''Method Not Allowed'', d)
      | MuxNotFound \<Rightarrow> Some (ApiText 404 ''404 page not found'', d)
      | MuxRedirect p \<Rightarrow> Some (ApiDone 301, d))"

text \<open>An unanswered request ends when the context that the client gave it expires.\<close>

definition ask :: "'x api \<Rightarrow> string \<Rightarrow> ctx \<Rightarrow> api_request \<Rightarrow> 'x daemon option \<Rightarrow> (goerr + wire_response) \<times> 'x daemon option" where
  "ask a body ctx q st =
     (case st of
        None \<Rightarrow> (Inl (ap_unreachable a), None)
      | Some d \<Rightarrow>
          (case serve_request a body ctx q d of
             None \<Rightarrow> (Inl (Sentinel CtxDeadlineExceeded), Some d)
           | Some (reply, d') \<Rightarrow> (Inr (respond (ap_text a) reply), Some d')))"

section \<open>control/client.go: calls\<close>

definition client_Status :: "'x api \<Rightarrow> ctx \<Rightarrow> 'x daemon option \<Rightarrow> (goerr + Status) \<times> 'x daemon option" where
  "client_Status a ctx st =
     (case ask a [] ctx Status_request st of (answer, st') \<Rightarrow> (client_get decode_Status ''GET'' ''/v1/status'' answer, st'))"

definition client_Routes :: "'x api \<Rightarrow> ctx \<Rightarrow> 'x daemon option \<Rightarrow> (goerr + RouteInfo list) \<times> 'x daemon option" where
  "client_Routes a ctx st =
     (case ask a [] ctx Routes_request st of (answer, st') \<Rightarrow>
        (client_get decode_RouteInfos ''GET'' ''/v1/routes'' answer, st'))"

definition client_AddRoute :: "'x api \<Rightarrow> ctx \<Rightarrow> RouteSpec \<Rightarrow> 'x daemon option \<Rightarrow> goerr option \<times> 'x daemon option" where
  "client_AddRoute a ctx spec st =
     (case marshal_RouteSpec spec of
        Inl err \<Rightarrow> (Some err, st)
      | Inr body \<Rightarrow>
          (case ask a body ctx AddRoute_request st of (answer, st') \<Rightarrow> (client_do ''POST'' ''/v1/routes'' answer, st')))"

definition client_RemoveRoute :: "'x api \<Rightarrow> ctx \<Rightarrow> string \<Rightarrow> 'x daemon option \<Rightarrow> goerr option \<times> 'x daemon option" where
  "client_RemoveRoute a ctx name st =
     (case ask a [] ctx (RemoveRoute_request name) st of (answer, st') \<Rightarrow>
        (client_do ''DELETE'' (aq_path (RemoveRoute_request name)) answer, st'))"

definition client_WaitReady :: "'x api \<Rightarrow> ctx \<Rightarrow> string \<Rightarrow> int \<Rightarrow> 'x daemon option \<Rightarrow> goerr option \<times> 'x daemon option" where
  "client_WaitReady a ctx name timeout st =
     (let q = WaitReady_request name timeout in
      case ask a [] (case st of None \<Rightarrow> ctx | Some d \<Rightarrow> wait_ready_ctx ctx (dm_world d) timeout) q st of
        (answer, st') \<Rightarrow> (client_do ''GET'' (aq_path q @ ''?'' @ aq_query q) answer, st'))"

section \<open>The table of routes\<close>

text \<open>A well-formed daemon; what it has stored came over the wire and goes back over it unchanged.\<close>

definition specs_clean :: "server \<Rightarrow> bool" where
  "specs_clean s \<longleftrightarrow> (\<forall>k sp. map_of (sv_specs s) k = Some sp \<longrightarrow> wire_clean sp)"

definition daemon_ok :: "'x config \<Rightarrow> 'x api \<Rightarrow> 'x daemon \<Rightarrow> bool" where
  "daemon_ok cfg a d \<longleftrightarrow> api_ok cfg (ap_factories a) (dm_server d, dm_reg d, dm_world d) \<and> specs_clean (dm_server d)"

text \<open>The table a client sees: which lower-case name has which specification.\<close>

definition table :: "'x daemon \<Rightarrow> string \<Rightarrow> RouteSpec option" where
  "table d k = (if published (dm_reg d) k = None then None else map_of (sv_specs (dm_server d)) k)"

definition listed :: "RouteInfo \<Rightarrow> RouteSpec \<Rightarrow> bool" where
  "listed i spec \<longleftrightarrow> ri_name i = sp_name spec \<and> ri_type i = sp_type spec \<and> ri_config i = sp_config spec"

section \<open>Lemmas\<close>

lemma table_Some_iff:
  "daemon_ok cfg a d \<Longrightarrow> (table d k = None) = (published (dm_reg d) k = None)"
  by (cases "published (dm_reg d) k") (simp_all add: table_def daemon_ok_def api_ok_def, metis option.distinct(1))

lemma client_AddRoute_value:
  "config_ok (sp_config spec) \<Longrightarrow>
   handleAddRoute (ap_factories a) (Inr (wire_spec spec)) ctx (dm_server d) (dm_reg d) (dm_world d) = (reply, s', r', w') \<Longrightarrow>
   client_AddRoute a ctx spec (Some d) =
     (client_do ''POST'' ''/v1/routes'' (Inr (respond (ap_text a) reply)), Some \<lparr>dm_server = s', dm_reg = r', dm_world = w'\<rparr>)"
  using RouteSpec_roundtrip [of spec]
  by (auto simp: client_AddRoute_def ask_def serve_request_def fixed_calls update_daemon_def)

lemma client_RemoveRoute_value:
  "reachable_name n \<Longrightarrow>
   handleRemoveRoute n ctx (dm_server d) (dm_reg d) (dm_world d) = (reply, s', r', w') \<Longrightarrow>
   client_RemoveRoute a ctx n (Some d) =
     (client_do ''DELETE'' (aq_path (RemoveRoute_request n)) (Inr (respond (ap_text a) reply)),
      Some \<lparr>dm_server = s', dm_reg = r', dm_world = w'\<rparr>)"
  by (simp add: client_RemoveRoute_def ask_def serve_request_def named_calls update_daemon_def)

lemma client_do_failed [simp]: "400 \<le> st \<Longrightarrow> client_do m p (Inr (respond t (ApiError st code err))) \<noteq> None"
  by (simp add: client_do_error)

lemma specs_clean_add:
  "specs_clean s \<Longrightarrow> wire_clean spec \<Longrightarrow> handleAddRoute fs (Inr spec) ctx s r w = (reply, s', r', w') \<Longrightarrow> specs_clean s'"
  by (auto simp: handleAddRoute_def specs_clean_def update_conv' split: if_splits option.splits sum.splits prod.splits)

lemma specs_clean_remove:
  "specs_clean s \<Longrightarrow> handleRemoveRoute n ctx s r w = (reply, s', r', w') \<Longrightarrow> specs_clean s'"
  by (auto simp: handleRemoveRoute_def specs_clean_def delete_conv' split: if_splits option.splits prod.splits)

lemma add_route_table:
  assumes ok: "daemon_ok cfg a d"
    and h: "handleAddRoute (ap_factories a) (Inr spec) ctx (dm_server d) (dm_reg d) (dm_world d) = (reply, s', r', w')"
    and d': "d' = \<lparr>dm_server = s', dm_reg = r', dm_world = w'\<rparr>"
  shows "if client_do m p (Inr (respond t reply)) = None
         then table d (to_lower (sp_name spec)) = None \<and> table d' = (table d)(to_lower (sp_name spec) \<mapsto> spec)
         else table d' = table d"
proof (cases "r' = dm_reg d \<and> s' = dm_server d")
  case True
  then have "table d' = table d" by (intro ext) (simp add: table_def d')
  moreover have "client_do m p (Inr (respond t reply)) \<noteq> None"
  proof
    assume "client_do m p (Inr (respond t reply)) = None"
    with h obtain f b rt r2 w2 where "Add (dm_reg d) ctx (sp_name spec) (Some b) [] (dm_world d) = (Inr rt, r', w2)"
      by (auto simp: handleAddRoute_def split: sum.splits if_splits option.splits prod.splits)
    from Add_published [OF _ this] ok True have "published (dm_reg d) (to_lower (sp_name spec)) = None"
      and "published (dm_reg d) = (published (dm_reg d))(to_lower (sp_name spec) \<mapsto> rt)"
      by (simp_all add: daemon_ok_def api_ok_def table_ok_def)
    then show False by (metis fun_upd_same option.distinct(1))
  qed
  ultimately show ?thesis by (simp only: if_False)
next
  case False
  with h obtain f b res w2 where add: "Add (dm_reg d) ctx (sp_name spec) (Some b) [] (dm_world d) = (res, r', w2)"
    and s': "s' = (if isl res then dm_server d
        else (dm_server d)\<lparr>sv_specs := AList.update (to_lower (sp_name spec)) spec (sv_specs (dm_server d))\<rparr>)"
    and reply: "isl res \<longleftrightarrow> client_do m p (Inr (respond t reply)) \<noteq> None"
    by (auto simp: handleAddRoute_def client_do_error split: sum.splits if_splits option.splits prod.splits)
  have q: "quiescent (dm_reg d)" using ok by (simp add: daemon_ok_def api_ok_def table_ok_def)
  show ?thesis
  proof (cases res)
    case (Inl e)
    with Add_published [OF q add] s' reply show ?thesis by (auto simp: table_def d' intro!: ext)
  next
    case (Inr rt)
    with Add_published [OF q add] s' reply show ?thesis by (auto simp: table_def d' update_conv' intro!: ext)
  qed
qed

lemma remove_route_table:
  assumes h: "handleRemoveRoute n ctx (dm_server d) (dm_reg d) (dm_world d) = (reply, s', r', w')"
    and d': "d' = \<lparr>dm_server = s', dm_reg = r', dm_world = w'\<rparr>"
  shows "table d' = (table d)(to_lower n := None)"
    and "published (dm_reg d) (to_lower n) = None \<Longrightarrow>
      \<exists>e. client_do m p (Inr (respond t reply)) = Some e \<and> err_is ErrRouteNotFound e \<and> d' = d"
proof -
  from h obtain e where rm: "Remove (dm_reg d) ctx n (dm_world d) = (e, r', w')"
    and s': "s' = (case e of Some _ \<Rightarrow> dm_server d
        | None \<Rightarrow> (dm_server d)\<lparr>sv_specs := AList.delete (to_lower n) (sv_specs (dm_server d))\<rparr>)"
    and reply: "reply = (case e of None \<Rightarrow> ApiDone 204 | Some err \<Rightarrow>
        if err_is ErrRouteNotFound err then ApiError 404 codeRouteNotFound err else ApiError 500 codeInternal err)"
    by (auto simp: handleRemoveRoute_def split: prod.splits option.splits)
  have pub: "published r' k = (if k = to_lower n then None else published (dm_reg d) k)" for k
    using Remove_published [OF rm] by simp
  from s' show "table d' = (table d)(to_lower n := None)"
    by (cases e) (simp_all add: table_def d' pub fun_eq_iff)
  assume "published (dm_reg d) (to_lower n) = None"
  with Remove_published [OF rm] obtain msg where "r' = dm_reg d" "w' = dm_world d"
    "e = Some (Errorf msg [n] [Sentinel ErrRouteNotFound])" by blast
  with s' reply show "\<exists>e. client_do m p (Inr (respond t reply)) = Some e \<and> err_is ErrRouteNotFound e \<and> d' = d"
    by (simp add: d' client_do_error)
qed

lemma list_table:
  assumes ok: "daemon_ok cfg a d"
  defines "infos \<equiv> map (route_info (dm_server d) (dm_world d)) (Routes (dm_reg d))"
  shows "i \<in> set infos \<Longrightarrow> \<exists>spec. table d (to_lower (ri_name i)) = Some spec \<and> listed i spec"
    and "table d k = Some spec \<Longrightarrow> \<exists>i \<in> set infos. to_lower (ri_name i) = k \<and> listed i spec"
proof -
  from ok have inv: "reg_inv (dm_reg d)" by (simp add: daemon_ok_def api_ok_def table_ok_def)
  have info: "\<exists>spec. table d (to_lower (rt_name rt)) = Some spec \<and> listed (route_info (dm_server d) (dm_world d) rt) spec
      \<and> ri_name (route_info (dm_server d) (dm_world d) rt) = rt_name rt \<and> k = to_lower (rt_name rt)"
    if k: "published (dm_reg d) k = Some rt" for k rt
  proof -
    from k have "k = to_lower (rt_name rt)"
      using reg_invD(3) [OF inv] by (simp add: published_Some_iff route_ok_def route_key_def)
    moreover from k ok obtain spec where "map_of (sv_specs (dm_server d)) k = Some spec"
      "spec_built (ap_factories a) spec rt" by (auto simp: daemon_ok_def api_ok_def)
    ultimately show ?thesis using k by (auto simp: table_def route_info_def spec_built_def listed_def Let_def)
  qed
  show "\<exists>spec. table d (to_lower (ri_name i)) = Some spec \<and> listed i spec" if i: "i \<in> set infos"
  proof -
    from i obtain rt where i: "i = route_info (dm_server d) (dm_world d) rt" and "rt \<in> set (Routes (dm_reg d))"
      by (auto simp: infos_def)
    then obtain k where "published (dm_reg d) k = Some rt" using Routes_published [OF inv] by (auto simp: ran_def)
    from info [OF this] i show ?thesis by auto
  qed
  show "\<exists>i \<in> set infos. to_lower (ri_name i) = k \<and> listed i spec" if t: "table d k = Some spec"
  proof -
    from t obtain rt where k: "published (dm_reg d) k = Some rt" by (auto simp: table_def split: if_splits)
    then have "rt \<in> set (Routes (dm_reg d))" using Routes_published [OF inv] by (auto simp: ran_def)
    moreover from info [OF k] t have "to_lower (ri_name (route_info (dm_server d) (dm_world d) rt)) = k"
      "listed (route_info (dm_server d) (dm_world d) rt) spec" by auto
    ultimately show ?thesis unfolding infos_def by auto
  qed
qed

text \<open>The infos of a well-formed daemon come back from the wire as they are, up to the repair of addresses.\<close>

lemma listing_wire:
  assumes ok: "daemon_ok cfg a d"
  defines "infos \<equiv> map (route_info (dm_server d) (dm_world d)) (Routes (dm_reg d))"
  shows "client_Routes a ctx (Some d) = (Inr (map wire_info infos), Some d)"
    and "i \<in> set infos \<Longrightarrow> ri_name (wire_info i) = ri_name i \<and> ri_type (wire_info i) = ri_type i \<and> ri_config (wire_info i) = ri_config i"
proof -
  have clean: "config_ok (ri_config i) \<and> to_valid (ri_name i) = ri_name i \<and> to_valid (ri_type i) = ri_type i
      \<and> wire_config (ri_config i) = ri_config i" if "i \<in> set infos" for i
  proof -
    from list_table(1) [OF ok that [unfolded infos_def]] obtain spec where
      "table d (to_lower (ri_name i)) = Some spec" and l: "listed i spec" by blast
    with ok have "wire_clean spec" by (auto simp: table_def daemon_ok_def specs_clean_def split: if_splits)
    then have "config_ok (sp_config spec)" "wire_spec spec = spec" by (simp_all add: wire_clean_def)
    moreover from this(2) have "to_valid (sp_name spec) = sp_name spec" "to_valid (sp_type spec) = sp_type spec"
      "wire_config (sp_config spec) = sp_config spec" by (metis RouteSpec.select_convs wire_spec_def)+
    ultimately show ?thesis using l by (simp add: listed_def)
  qed
  then show "i \<in> set infos \<Longrightarrow> ri_name (wire_info i) = ri_name i \<and> ri_type (wire_info i) = ri_type i \<and> ri_config (wire_info i) = ri_config i"
    by (simp add: wire_info_def)
  from clean obtain v where "RouteInfos_json infos = Some v" "decode_RouteInfos (json_print v @ [CHR 0x0A]) = (map wire_info infos, None)"
    using RouteInfos_roundtrip [of infos] by blast
  then show "client_Routes a ctx (Some d) = (Inr (map wire_info infos), Some d)"
    by (simp add: client_Routes_def ask_def serve_request_def fixed_calls handleListRoutes_def client_get_def infos_def
        respond_def writeJSON_def newline_def client_do_def decoded_def)
qed

lemma wire_spec_names [simp]: "sp_name (wire_spec spec) = to_valid (sp_name spec)" "sp_type (wire_spec spec) = to_valid (sp_type spec)"
  by (simp_all add: wire_spec_def)

section \<open>Properties\<close>

text \<open>C29: To its client the daemon is a table of route specifications under case-insensitive names. An add that
  returns nil stored the specification under a name that was free, and any other add leaves the table alone; a
  remove clears the name, whatever it returns, and says so when there was nothing; the listing shows exactly the
  table. This holds of adds whose raw configuration is absent or valid JSON that nests at least two levels less deeply
  than the decoder allows, and of removes of any name but the four that no request path can carry (the empty one, one
  dot, two dots, a slash). What is stored is the specification as JSON carries it: invalid UTF-8 in its texts
  repaired, its raw configuration compacted. Each such call keeps the daemon well-formed, so this holds of any
  sequence of such calls, through the bytes of the request, the multiplexer, the handler, the registry and the bytes
  of the reply.\<close>

theorem client_implements_route_table:
  assumes ok: "daemon_ok cfg a d" and raw: "config_ok (sp_config spec)" and name: "reachable_name name"
  shows "(case client_AddRoute a ctx spec (Some d) of (res, st) \<Rightarrow> \<exists>d'. st = Some d' \<and> daemon_ok cfg a d' \<and>
      (if res = None then table d (to_lower (to_valid (sp_name spec))) = None \<and>
           table d' = (table d)(to_lower (to_valid (sp_name spec)) \<mapsto> wire_spec spec)
       else table d' = table d)) \<and>
    (case client_RemoveRoute a ctx name (Some d) of (res, st) \<Rightarrow> \<exists>d'. st = Some d' \<and> daemon_ok cfg a d' \<and>
      table d' = (table d)(to_lower name := None) \<and>
      (table d (to_lower name) = None \<longrightarrow> (\<exists>e. res = Some e \<and> err_is ErrRouteNotFound e))) \<and>
    (\<exists>infos. client_Routes a ctx (Some d) = (Inr infos, Some d) \<and>
      (\<forall>i \<in> set infos. \<exists>sp. table d (to_lower (ri_name i)) = Some sp \<and> listed i sp) \<and>
      (\<forall>k sp. table d k = Some sp \<longrightarrow> (\<exists>i \<in> set infos. to_lower (ri_name i) = k \<and> listed i sp)))"
proof (intro conjI)
  obtain reply s' r' w' where h: "handleAddRoute (ap_factories a) (Inr (wire_spec spec)) ctx (dm_server d) (dm_reg d) (dm_world d)
      = (reply, s', r', w')" by (metis prod_cases4)
  have "daemon_ok cfg a \<lparr>dm_server = s', dm_reg = r', dm_world = w'\<rparr>"
    using add_route_ok [OF _ h, of cfg] specs_clean_add [OF _ wire_spec_clean [OF raw] h] ok by (simp add: daemon_ok_def)
  with add_route_table [OF ok h refl, of "''POST''" "''/v1/routes''" "ap_text a"] show "case client_AddRoute a ctx spec (Some d) of (res, st) \<Rightarrow>
      \<exists>d'. st = Some d' \<and> daemon_ok cfg a d' \<and>
      (if res = None then table d (to_lower (to_valid (sp_name spec))) = None \<and>
           table d' = (table d)(to_lower (to_valid (sp_name spec)) \<mapsto> wire_spec spec)
       else table d' = table d)"
    unfolding client_AddRoute_value [OF raw h] wire_spec_names by auto
next
  obtain reply s' r' w' where h: "handleRemoveRoute name ctx (dm_server d) (dm_reg d) (dm_world d)
      = (reply, s', r', w')" by (metis prod_cases4)
  have "daemon_ok cfg a \<lparr>dm_server = s', dm_reg = r', dm_world = w'\<rparr>"
    using remove_route_ok [OF _ h, of cfg "ap_factories a"] specs_clean_remove [OF _ h] ok by (simp add: daemon_ok_def)
  with remove_route_table(1) [OF h refl]
    remove_route_table(2) [OF h refl, where m = "''DELETE''" and p = "aq_path (RemoveRoute_request name)" and t = "ap_text a"]
  show "case client_RemoveRoute a ctx name (Some d) of (res, st) \<Rightarrow>
      \<exists>d'. st = Some d' \<and> daemon_ok cfg a d' \<and> table d' = (table d)(to_lower name := None) \<and>
      (table d (to_lower name) = None \<longrightarrow> (\<exists>e. res = Some e \<and> err_is ErrRouteNotFound e))"
    unfolding client_RemoveRoute_value [OF name h] table_Some_iff [OF ok] by auto
next
  let ?infos = "map (route_info (dm_server d) (dm_world d)) (Routes (dm_reg d))"
  have same: "listed (wire_info i) sp = listed i sp \<and> ri_name (wire_info i) = ri_name i" if "i \<in> set ?infos" for i sp
    using listing_wire(2) [OF ok that] by (simp add: listed_def)
  show "\<exists>infos. client_Routes a ctx (Some d) = (Inr infos, Some d) \<and>
      (\<forall>i \<in> set infos. \<exists>sp. table d (to_lower (ri_name i)) = Some sp \<and> listed i sp) \<and>
      (\<forall>k sp. table d k = Some sp \<longrightarrow> (\<exists>i \<in> set infos. to_lower (ri_name i) = k \<and> listed i sp))"
  proof (intro exI [of _ "map wire_info ?infos"] conjI)
    show "client_Routes a ctx (Some d) = (Inr (map wire_info ?infos), Some d)" by (rule listing_wire(1) [OF ok])
    show "\<forall>i \<in> set (map wire_info ?infos). \<exists>sp. table d (to_lower (ri_name i)) = Some sp \<and> listed i sp"
      using list_table(1) [OF ok] same unfolding set_map by (metis (no_types, lifting) imageE)
    show "\<forall>k sp. table d k = Some sp \<longrightarrow> (\<exists>i \<in> set (map wire_info ?infos). to_lower (ri_name i) = k \<and> listed i sp)"
      using list_table(2) [OF ok] same unfolding set_map by (metis (no_types, lifting) imageI)
  qed
qed

text \<open>A new daemon: the client adds a route, and removing another one finds nothing.\<close>

definition demo_api :: "Event list api" where
  "demo_api = \<lparr>ap_factories = demo_fs, ap_text = (\<lambda>e. ''error''), ap_pid = 1, ap_version = ''dev'',
     ap_unreachable = ErrNew ''no such file'', ap_keep_method = True\<rparr>"

definition demo_daemon :: "Event list daemon" where
  "demo_daemon = \<lparr>dm_server = NewServer [] 0, dm_reg = registry_New [], dm_world = demo_world\<rparr>"

lemma demo_daemon_ok: "daemon_ok (New_config []) demo_api demo_daemon"
  using api_ok_New [of "[]" demo_fs "[]" 0 demo_world]
  by (simp add: daemon_ok_def demo_daemon_def demo_api_def specs_clean_def NewServer_def)

text \<open>A configuration with a space in it, which the wire removes.\<close>

definition spaced_spec :: RouteSpec where
  "spaced_spec = \<lparr>sp_name = ''a'', sp_type = ''tcp'', sp_config = ''{ }''\<rparr>"

lemma demo_names [simp]: "to_valid ''a'' = ''a''" "to_valid ''tcp'' = ''tcp''"
  by (simp_all add: to_valid_ascii byte_def)

lemma demo_add: "fst (client_AddRoute demo_api Background spaced_spec (Some demo_daemon)) = None"
proof -
  have w: "wire_spec spaced_spec = demo_spec\<lparr>sp_config := ''{}''\<rparr>"
    by (simp add: wire_spec_def spaced_spec_def demo_spec_def spaced_config)
  have "\<exists>st. handleAddRoute demo_fs (Inr demo_spec) Background (NewServer [] 0) (registry_New []) demo_world = (ApiDone 201, st)"
    using demo_run by (auto split: prod.splits)
  then have "\<exists>st. handleAddRoute demo_fs (Inr (wire_spec spaced_spec)) Background (NewServer [] 0) (registry_New []) demo_world = (ApiDone 201, st)"
    unfolding w by (auto simp: handleAddRoute_def demo_fs_def demo_spec_def lookupFactory_def split: sum.splits prod.splits if_splits)
  then obtain s' r' w' where "handleAddRoute (ap_factories demo_api) (Inr (wire_spec spaced_spec)) Background
      (dm_server demo_daemon) (dm_reg demo_daemon) (dm_world demo_daemon) = (ApiDone 201, s', r', w')"
    by (auto simp: demo_api_def demo_daemon_def)
  from client_AddRoute_value [OF _ this] spaced_config(1) show ?thesis by (simp add: spaced_spec_def)
qed

theorem client_implements_route_table_witness:
  "(\<exists>d'. client_AddRoute demo_api Background spaced_spec (Some demo_daemon) = (None, Some d')
      \<and> map_option sp_config (table d' ''a'') = Some ''{}'')
   \<and> (\<exists>e. fst (client_RemoveRoute demo_api Background ''b'' (Some demo_daemon)) = Some e \<and> err_is ErrRouteNotFound e)"
proof -
  have "config_ok (sp_config spaced_spec)" and n: "sp_name spaced_spec = ''a''" and c: "sp_config (wire_spec spaced_spec) = ''{}''"
    and t: "table demo_daemon = (\<lambda>k. None)"
    using spaced_config by (simp_all add: wire_spec_def spaced_spec_def demo_daemon_def table_def published_def registry_New_def fun_eq_iff)
  from client_implements_route_table [OF demo_daemon_ok this(1), of "''b''" Background] demo_add to_lower_a n c t
  show ?thesis by (auto split: prod.splits)
qed

text \<open>Removing the route named by a dot never removes it, so the route that \<open>run\<close> added under that name outlives
  it; where a redirect changes the method, the client even reports success.\<close>

theorem removing_a_dot_leaves_the_route:
  "snd (client_RemoveRoute a ctx ''.'' (Some d)) = Some d
   \<and> (\<not> ap_keep_method a \<longrightarrow> fst (client_RemoveRoute a ctx ''.'' (Some d)) = None)"
proof -
  have "call True (RemoveRoute_request ''.'') = MuxMethodNotAllowed" "call False (RemoveRoute_request ''.'') = MuxHandler EpList"
    by code_simp+
  then show ?thesis
    by (cases "ap_keep_method a") (simp_all add: client_RemoveRoute_def ask_def serve_request_def handleListRoutes_def)
qed

end
