(* ===== verification/Flags.thy ===== *)
theory Flags
  imports Go_Time
begin

text \<open>
  Command lines: \<open>flag.FlagSet.Parse\<close> of the standard library, and the two ways the commands read flags and
  names in any order, \<open>splitName\<close> (\<open>cmd/portless/route.go\<close>) and \<open>parseFlags\<close> (\<open>daemon.go\<close>), with \<open>cut\<close>
  (\<open>run.go\<close>). A flag set is the list of its flags with their current values; the text
  that a failing \<open>Parse\<close> prints is left out.
\<close>

named_theorems go_flag "rules of flag parsing"

section \<open>Package flag\<close>

datatype flag_value = StringFlag string | BoolFlag bool | DurationFlag int

type_synonym flags = "(string \<times> flag_value) list"

definition ParseBool :: "string \<Rightarrow> bool option" where
  "ParseBool s =
     (if s \<in> {''1'', ''t'', ''T'', ''true'', ''TRUE'', ''True''} then Some True
      else if s \<in> {''0'', ''f'', ''F'', ''false'', ''FALSE'', ''False''} then Some False
      else None)"

text \<open>\<open>Value.Set\<close>: a flag keeps its kind.\<close>

fun flag_set :: "flag_value \<Rightarrow> string \<Rightarrow> goerr + flag_value" where
  "flag_set (StringFlag x) v = Inr (StringFlag v)"
| "flag_set (BoolFlag x) v = (case ParseBool v of Some b \<Rightarrow> Inr (BoolFlag b) | None \<Rightarrow> Inl (ErrNew ''parse error''))"
| "flag_set (DurationFlag x) v = (case ParseDuration v of Inr d \<Rightarrow> Inr (DurationFlag d) | Inl _ \<Rightarrow> Inl (ErrNew ''parse error''))"

fun is_bool_flag :: "flag_value \<Rightarrow> bool" where
  "is_bool_flag (BoolFlag b) = True"
| "is_bool_flag v = False"

text \<open>What is left of a flag after its dashes, split at an equals sign that is not its first character.\<close>

definition split_value :: "string \<Rightarrow> string \<times> string option" where
  "split_value name = (case cut_str (tl name) ''='' of
     Some (n, v) \<Rightarrow> (hd name # n, Some v) | None \<Rightarrow> (name, None))"

datatype parse_step = FlagSeen flags "string list" | FlagStop "string list" | FlagFail goerr

definition ErrHelp :: goerr where
  "ErrHelp = ErrNew ''flag: help requested''"

definition flag_assign :: "flags \<Rightarrow> string \<Rightarrow> flag_value \<Rightarrow> string \<Rightarrow> string list \<Rightarrow> parse_step" where
  "flag_assign fs name old v args =
     (case flag_set old v of
        Inr new \<Rightarrow> FlagSeen (AList.update name new fs) args
      | Inl err \<Rightarrow> FlagFail (Errorf (if is_bool_flag old then ''invalid boolean value %q for -%s: %v''
                              else ''invalid value %q for flag -%s: %v'') [v, name] []))"

definition parse_named :: "flags \<Rightarrow> string \<Rightarrow> string option \<Rightarrow> string list \<Rightarrow> parse_step" where
  "parse_named fs name value args =
     (case map_of fs name of
        None \<Rightarrow> FlagFail (if name = ''help'' \<or> name = ''h'' then ErrHelp
                          else Errorf ''flag provided but not defined: -%s'' [name] [])
      | Some old \<Rightarrow>
          (case (value, args) of
             (Some v, _) \<Rightarrow> flag_assign fs name old v args
           | (None, a # as) \<Rightarrow>
               if is_bool_flag old then flag_assign fs name old ''true'' args else flag_assign fs name old a as
           | (None, []) \<Rightarrow>
               if is_bool_flag old then flag_assign fs name old ''true'' []
               else FlagFail (Errorf ''flag needs an argument: -%s'' [name] [])))"

definition dashes :: "string \<Rightarrow> nat" where
  "dashes s = (if has_prefix s ''--'' then 2 else 1)"

definition parseOne :: "flags \<Rightarrow> string list \<Rightarrow> parse_step" where
  "parseOne fs args =
     (case args of
        [] \<Rightarrow> FlagStop []
      | s # rest \<Rightarrow>
          if length s < 2 \<or> hd s \<noteq> CHR ''-'' then FlagStop args
          else if s = ''--'' then FlagStop rest
          else let name = drop (dashes s) s in
            if name = [] \<or> hd name = CHR ''-'' \<or> hd name = CHR ''='' then FlagFail (Errorf ''bad flag syntax: %s'' [s] [])
            else let (n, v) = split_value name in parse_named fs n v rest)"

lemma parse_named_shorter: "parse_named fs n v args = FlagSeen fs' rest \<Longrightarrow> length rest \<le> length args"
  by (auto simp: parse_named_def flag_assign_def split: option.splits list.splits sum.splits if_splits)

lemma parseOne_shorter: "parseOne fs args = FlagSeen fs' rest \<Longrightarrow> length rest < length args"
  by (auto simp: parseOne_def Let_def less_Suc_eq_le dest: parse_named_shorter
    split: list.splits if_splits prod.splits)

text \<open>\<open>Parse\<close> returns the flags and the arguments that remain (\<open>fs.Args()\<close>).\<close>

function Parse :: "flags \<Rightarrow> string list \<Rightarrow> goerr + flags \<times> string list" where
  "Parse fs args =
     (case parseOne fs args of
        FlagSeen fs' rest \<Rightarrow> Parse fs' rest
      | FlagStop rest \<Rightarrow> Inr (fs, rest)
      | FlagFail err \<Rightarrow> Inl err)"
  by pat_completeness auto
termination by (relation "measure (\<lambda>(fs, args). length args)") (auto dest: parseOne_shorter)

declare Parse.simps [simp del]

lemma parseOne_stop_shorter: "parseOne fs args = FlagStop rest \<Longrightarrow> length rest \<le> length args"
  by (auto simp: parseOne_def parse_named_def flag_assign_def Let_def
    split: list.splits if_splits prod.splits option.splits sum.splits)

lemma Parse_shorter: "Parse fs args = Inr (fs', rest) \<Longrightarrow> length rest \<le> length args"
proof (induction fs args rule: Parse.induct)
  case (1 fs args)
  show ?case
  proof (cases "parseOne fs args")
    case (FlagSeen fs'' rest')
    with "1.prems" have "Parse fs'' rest' = Inr (fs', rest)" by (subst (asm) Parse.simps) simp
    with "1.IH" [OF FlagSeen] parseOne_shorter [OF FlagSeen] show ?thesis by simp
  next
    case (FlagStop rest')
    with "1.prems" have "rest' = rest" by (subst (asm) Parse.simps) simp
    with parseOne_stop_shorter [OF FlagStop] show ?thesis by simp
  next
    case (FlagFail err)
    with "1.prems" show ?thesis by (subst (asm) Parse.simps) simp
  qed
qed

text \<open>The value of a string flag.\<close>

definition flag_string :: "string \<Rightarrow> flags \<Rightarrow> string" where
  "flag_string n fs = (case map_of fs n of Some (StringFlag v) \<Rightarrow> v | _ \<Rightarrow> [])"

definition flag_bool :: "string \<Rightarrow> flags \<Rightarrow> bool" where
  "flag_bool n fs = (map_of fs n = Some (BoolFlag True))"

definition flag_duration :: "string \<Rightarrow> flags \<Rightarrow> int" where
  "flag_duration n fs = (case map_of fs n of Some (DurationFlag d) \<Rightarrow> d | _ \<Rightarrow> 0)"

section \<open>cmd/portless/route.go: names among flags\<close>

definition isFlagValue :: "string list \<Rightarrow> bool" where
  "isFlagValue fs =
     (if fs = [] then False
      else let l = last fs in
        if l = [] \<or> hd l \<noteq> CHR ''-'' then False
        else if CHR ''='' \<in> set l then False
        else l \<noteq> ''--json'' \<and> l \<noteq> ''-json'')"

definition split_step :: "string \<times> string list \<Rightarrow> string \<Rightarrow> string \<times> string list" where
  "split_step st a = (case st of (name, fs) \<Rightarrow>
     if a \<noteq> [] \<and> hd a \<noteq> CHR ''-'' \<and> name = [] \<and> \<not> isFlagValue fs then (a, fs) else (name, fs @ [a]))"

definition splitName :: "string list \<Rightarrow> goerr + string \<times> string list" where
  "splitName args = (case foldl split_step ([], []) args of (name, fs) \<Rightarrow>
     if name = [] then Inl (ErrNew ''route: NAME argument required'') else Inr (name, fs))"

section \<open>cmd/portless/daemon.go and run.go\<close>

function parseFlags :: "flags \<Rightarrow> string list \<Rightarrow> goerr + string list \<times> flags" where
  "parseFlags fs args =
     (case Parse fs args of
        Inl err \<Rightarrow> Inl err
      | Inr (fs', []) \<Rightarrow> Inr ([], fs')
      | Inr (fs', p # rest) \<Rightarrow> (case parseFlags fs' rest of Inl err \<Rightarrow> Inl err | Inr (ps, fs'') \<Rightarrow> Inr (p # ps, fs'')))"
  by pat_completeness auto
termination by (relation "measure (\<lambda>(fs, args). length args)") (auto dest: Parse_shorter)

declare parseFlags.simps [simp del]

fun cut :: "string list \<Rightarrow> string \<Rightarrow> string list \<times> string list \<times> bool" where
  "cut [] sep = ([], [], False)"
| "cut (a # as) sep = (if a = sep then ([], as, True)
     else case cut as sep of (before, after, found) \<Rightarrow> (a # before, after, found))"

section \<open>Well-formed command lines\<close>

text \<open>
  What a user writes: a flag with its value after an equals sign or in the next argument, a switch, or a
  positional argument; a flag has one dash or two (\<open>True\<close>).
\<close>

datatype item =
    Inline bool string string
  | Separate bool string string
  | Switch bool string
  | Positional string

definition dashed :: "bool \<Rightarrow> string \<Rightarrow> string" where
  "dashed two n = (if two then ''--'' @ n else ''-'' @ n)"

fun item_tokens :: "item \<Rightarrow> string list" where
  "item_tokens (Inline two n v) = [dashed two n @ ''='' @ v]"
| "item_tokens (Separate two n v) = [dashed two n, v]"
| "item_tokens (Switch two n) = [dashed two n]"
| "item_tokens (Positional p) = [p]"

definition item_args :: "item list \<Rightarrow> string list" where
  "item_args its = concat (map item_tokens its)"

definition bare :: "string \<Rightarrow> bool" where
  "bare s \<longleftrightarrow> s \<noteq> [] \<and> hd s \<noteq> CHR ''-''"

definition flag_name :: "string \<Rightarrow> bool" where
  "flag_name n \<longleftrightarrow> bare n \<and> CHR ''='' \<notin> set n"

definition accepts :: "flags \<Rightarrow> string \<Rightarrow> string \<Rightarrow> bool" where
  "accepts fs n v \<longleftrightarrow> (\<exists>old new. map_of fs n = Some old \<and> flag_set old v = Inr new)"

text \<open>A switch is \<open>--json\<close>, the only boolean flag of the commands that look for a name.\<close>

fun item_ok :: "flags \<Rightarrow> item \<Rightarrow> bool" where
  "item_ok fs (Inline two n v) \<longleftrightarrow> flag_name n \<and> accepts fs n v"
| "item_ok fs (Separate two n v) \<longleftrightarrow> flag_name n \<and> accepts fs n v \<and> n \<noteq> ''json'' \<and> (v = [] \<or> bare v)
     \<and> (\<forall>b. map_of fs n \<noteq> Some (BoolFlag b))"
| "item_ok fs (Switch two n) \<longleftrightarrow> n = ''json'' \<and> (\<exists>b. map_of fs n = Some (BoolFlag b))"
| "item_ok fs (Positional p) \<longleftrightarrow> bare p"

definition assign :: "string \<Rightarrow> string \<Rightarrow> flags \<Rightarrow> flags" where
  "assign n v fs = (case map_of fs n of
     Some old \<Rightarrow> (case flag_set old v of Inr new \<Rightarrow> AList.update n new fs | Inl _ \<Rightarrow> fs) | None \<Rightarrow> fs)"

fun item_apply :: "item \<Rightarrow> flags \<Rightarrow> flags" where
  "item_apply (Inline two n v) fs = assign n v fs"
| "item_apply (Separate two n v) fs = assign n v fs"
| "item_apply (Switch two n) fs = assign n ''true'' fs"
| "item_apply (Positional p) fs = fs"

fun is_positional :: "item \<Rightarrow> bool" where
  "is_positional (Positional p) = True"
| "is_positional i = False"

fun positional :: "item \<Rightarrow> string list" where
  "positional (Positional p) = [p]"
| "positional i = []"

definition apply_all :: "item list \<Rightarrow> flags \<Rightarrow> flags" where
  "apply_all its fs = foldl (\<lambda>fs i. item_apply i fs) fs its"

lemma apply_all_simps [simp]:
  "apply_all [] fs = fs" "apply_all (i # its) fs = apply_all its (item_apply i fs)"
  "item_args [] = []" "item_args (i # its) = item_tokens i @ item_args its"
  "item_args (xs @ ys) = item_args xs @ item_args ys"
  by (simp_all add: apply_all_def item_args_def)

section \<open>Lemmas\<close>

lemma cut_equals: "CHR ''='' \<notin> set n \<Longrightarrow> cut_str (n @ ''='' @ v) ''='' = Some (n, v)"
  "CHR ''='' \<notin> set n \<Longrightarrow> cut_str n ''='' = None"
  by (induction n) auto

lemma split_value_inline: "flag_name n \<Longrightarrow> split_value (n @ ''='' @ v) = (n, Some v)"
  using cut_equals(1) [of "tl n" v] by (cases n) (auto simp: split_value_def flag_name_def bare_def)

lemma split_value_none: "flag_name n \<Longrightarrow> split_value n = (n, None)"
  using cut_equals(2) [of "tl n"] by (cases n) (auto simp: split_value_def flag_name_def bare_def)

lemma flag_set_ok_kind:
  "flag_set x v = Inr y \<Longrightarrow> flag_set y v' = flag_set x v' \<and> is_bool_flag y = is_bool_flag x"
  by (cases x) (auto split: option.splits sum.splits)

lemma is_bool_flag_iff: "is_bool_flag x \<longleftrightarrow> (\<exists>b. x = BoolFlag b)"
  by (cases x) auto

lemma assign_map: "map_of (assign n v fs) m =
   (if m = n \<and> accepts fs n v then Some (projr (flag_set (the (map_of fs n)) v)) else map_of fs m)"
  by (auto simp: assign_def accepts_def update_conv' split: option.splits sum.splits)

lemma assign_accepts [simp]: "accepts (assign n v fs) m u = accepts fs m u"
  by (cases "m = n \<and> accepts fs n v")
    (auto simp: accepts_def assign_map flag_set_ok_kind)

lemma assign_bool [simp]:
  "(\<exists>b. map_of (assign n v fs) m = Some (BoolFlag b)) = (\<exists>b. map_of fs m = Some (BoolFlag b))"
proof (cases "m = n \<and> accepts fs n v")
  case True
  then obtain old new where o: "map_of fs n = Some old" "flag_set old v = Inr new"
    by (auto simp: accepts_def)
  then have "map_of (assign n v fs) n = Some new" using True by (simp add: assign_map)
  with o flag_set_ok_kind [OF o(2)] True show ?thesis by (auto simp: is_bool_flag_iff)
qed (auto simp: assign_map)

lemma item_apply_ok [simp]: "item_ok (item_apply i fs) = item_ok fs"
proof (rule ext)
  show "item_ok (item_apply i fs) j = item_ok fs j" for j
    using assign_bool by (cases i; cases j) (auto, (metis assign_bool)+)
qed

lemma dashed_simps [simp]:
  "dashed two n \<noteq> []" "hd (dashed two n) = CHR ''-''"
  "flag_name n \<Longrightarrow> drop (dashes (dashed two n @ x)) (dashed two n @ x) = n @ x"
  "flag_name n \<Longrightarrow> \<not> length (dashed two n) < 2"
  "flag_name n \<Longrightarrow> dashed two n @ x \<noteq> ''--''"
  by (cases n; auto simp: dashed_def dashes_def flag_name_def bare_def)+

lemma parseOne_flag [go_flag]:
  assumes "flag_name n"
  shows "parseOne fs ((dashed two n @ ''='' @ v) # rest) = parse_named fs n (Some v) rest"
    and "parseOne fs (dashed two n # rest) = parse_named fs n None rest"
proof -
  have n: "n \<noteq> []" "hd n \<noteq> CHR ''-''" "hd n \<noteq> CHR ''=''" "hd (n @ ''='' @ v) = hd n"
    using assms by (cases n; auto simp: flag_name_def bare_def)+
  have "dashed two n @ ''='' @ v \<noteq> ''--''" "\<not> length (dashed two n @ ''='' @ v) < 2"
    using dashed_simps(5) [OF assms] dashed_simps(4) [OF assms, of two] by auto
  with n show "parseOne fs ((dashed two n @ ''='' @ v) # rest) = parse_named fs n (Some v) rest"
    using dashed_simps(3) [OF assms, of two "''='' @ v"] split_value_inline [OF assms, of v]
    by (simp add: parseOne_def)
  show "parseOne fs (dashed two n # rest) = parse_named fs n None rest"
    using dashed_simps(3) [OF assms, of two "[]"] dashed_simps(4) [OF assms, of two]
      dashed_simps(5) [OF assms, of two "[]"] n split_value_none [OF assms]
    by (simp add: parseOne_def)
qed

lemma parse_named_accepts:
  assumes "accepts fs n v"
  shows "parse_named fs n (Some v) rest = FlagSeen (assign n v fs) rest"
    and "(\<forall>b. map_of fs n \<noteq> Some (BoolFlag b)) \<Longrightarrow> parse_named fs n None (v # rest) = FlagSeen (assign n v fs) rest"
  using assms
  by (auto simp: accepts_def parse_named_def flag_assign_def assign_def is_bool_flag_iff split: sum.splits)

lemma parse_named_switch:
  "map_of fs n = Some (BoolFlag b) \<Longrightarrow> parse_named fs n None rest = FlagSeen (assign n ''true'' fs) rest"
  by (cases rest) (simp_all add: parse_named_def flag_assign_def assign_def ParseBool_def)

lemma Parse_item:
  assumes "item_ok fs i" and "\<not> is_positional i"
  shows "Parse fs (item_tokens i @ rest) = Parse (item_apply i fs) rest"
proof -
  have "flag_name ''json''" by (simp add: flag_name_def bare_def)
  with assms have "parseOne fs (item_tokens i @ rest) = FlagSeen (item_apply i fs) rest"
    using parseOne_flag parse_named_accepts parse_named_switch by (cases i) auto
  then show ?thesis by (subst Parse.simps) simp
qed

lemma Parse_bare: "bare p \<Longrightarrow> Parse fs (p # rest) = Inr (fs, p # rest)"
  by (subst Parse.simps) (auto simp: parseOne_def bare_def)

lemma Parse_Nil [simp]: "Parse fs [] = Inr (fs, [])"
  by (subst Parse.simps) (simp add: parseOne_def)

lemma Parse_items:
  "list_all (item_ok fs) its \<Longrightarrow> list_all (\<lambda>i. \<not> is_positional i) its \<Longrightarrow>
   Parse fs (item_args its @ rest) = Parse (apply_all its fs) rest"
proof (induction its arbitrary: fs)
  case (Cons i its)
  then have "list_all (item_ok (item_apply i fs)) its" by simp
  with Cons show ?case by (simp add: Parse_item)
qed simp

lemma parseFlags_items:
  "list_all (item_ok fs) its \<Longrightarrow>
   parseFlags fs (item_args its) = Inr (concat (map positional its), apply_all its fs)"
proof (induction its arbitrary: fs)
  case Nil
  then show ?case by (subst parseFlags.simps) simp
next
  case (Cons i its)
  then have i: "item_ok fs i" and its: "list_all (item_ok (item_apply i fs)) its" by simp_all
  show ?case
  proof (cases i)
    case (Positional p)
    with i have "Parse fs (p # item_args its) = Inr (fs, p # item_args its)" by (simp add: Parse_bare)
    with Cons.IH [OF its] Positional show ?thesis by (subst parseFlags.simps) simp
  qed (use Parse_item [OF i, of "item_args its"] Cons.IH [OF its]
       in \<open>simp, subst (asm) parseFlags.simps, subst parseFlags.simps, simp\<close>)+
qed

lemma isFlagValue_snoc [simp]: "isFlagValue (fs @ [a]) \<longleftrightarrow>
   a \<noteq> [] \<and> hd a = CHR ''-'' \<and> CHR ''='' \<notin> set a \<and> a \<noteq> ''--json'' \<and> a \<noteq> ''-json''"
  by (auto simp: isFlagValue_def Let_def)

lemma dashed_json: "flag_name n \<Longrightarrow> dashed two n \<noteq> ''--json'' \<and> dashed two n \<noteq> ''-json'' \<longleftrightarrow> n \<noteq> ''json''"
  by (cases n) (auto simp: dashed_def flag_name_def bare_def)

lemma split_flags:
  "list_all (item_ok fs) its \<Longrightarrow> list_all (\<lambda>i. \<not> is_positional i) its \<Longrightarrow> \<not> isFlagValue toks \<Longrightarrow>
   foldl split_step (name, toks) (item_args its) = (name, toks @ item_args its) \<and> \<not> isFlagValue (toks @ item_args its)"
proof (induction its arbitrary: toks)
  case (Cons i its)
  then have i: "item_ok fs i" "\<not> is_positional i" by simp_all
  have "foldl split_step (name, toks) (item_tokens i) = (name, toks @ item_tokens i)
      \<and> \<not> isFlagValue (toks @ item_tokens i)"
  proof (cases i)
    case (Separate two n v)
    with i have n: "flag_name n" "n \<noteq> ''json''" and v: "v = [] \<or> bare v" by simp_all
    have "CHR ''='' \<notin> set (dashed two n)" using n(1) by (simp add: dashed_def flag_name_def)
    with n dashed_json [OF n(1)] have "isFlagValue (toks @ [dashed two n])" by simp
    moreover have "isFlagValue (toks @ [dashed two n, v]) = isFlagValue ((toks @ [dashed two n]) @ [v])" by simp
    ultimately show ?thesis using Separate v by (auto simp: split_step_def bare_def simp del: append_assoc)
  qed (use i in \<open>auto simp: split_step_def dashed_def\<close>)
  with Cons.IH [of "toks @ item_tokens i"] Cons.prems show ?case by simp
qed simp

lemma split_rest: "name \<noteq> [] \<Longrightarrow> foldl split_step (name, toks) as = (name, toks @ as)"
  by (induction as arbitrary: toks) (simp_all add: split_step_def)

section \<open>Properties\<close>

text \<open>C37: On a command line of well-formed flags with one bare name anywhere among them, the two ways the commands
  read it agree: \<open>splitName\<close> returns that name and the flags in their order, and parsing those leaves nothing over
  and sets the same values as \<open>parseFlags\<close>, which returns the name as its only positional argument.\<close>

theorem splitName_agrees_with_parseFlags:
  assumes pre: "list_all (item_ok fs) pre" "list_all (\<lambda>i. \<not> is_positional i) pre"
    and post: "list_all (item_ok fs) post" "list_all (\<lambda>i. \<not> is_positional i) post"
    and name: "bare name"
  shows "splitName (item_args pre @ name # item_args post) = Inr (name, item_args pre @ item_args post)
       \<and> Parse fs (item_args pre @ item_args post) = Inr (apply_all (pre @ post) fs, [])
       \<and> parseFlags fs (item_args pre @ name # item_args post) = Inr ([name], apply_all (pre @ post) fs)"
proof (intro conjI)
  have "\<not> isFlagValue []" by (simp add: isFlagValue_def)
  from split_flags [OF pre this, of "[]"] name
  show "splitName (item_args pre @ name # item_args post) = Inr (name, item_args pre @ item_args post)"
    by (simp add: splitName_def split_step_def bare_def split_rest)
  show "Parse fs (item_args pre @ item_args post) = Inr (apply_all (pre @ post) fs, [])"
    using Parse_items [of fs "pre @ post" "[]"] pre post by simp
  have "list_all (item_ok fs) (pre @ Positional name # post)" using pre post name by simp
  moreover have "concat (map positional its) = []" if "list_all (\<lambda>i. \<not> is_positional i) its" for its
    using that by (induction its) (simp_all, metis is_positional.simps(1) positional.elims)
  then have "concat (map positional pre) = []" "concat (map positional post) = []" using pre(2) post(2) by blast+
  ultimately show "parseFlags fs (item_args pre @ name # item_args post) = Inr ([name], apply_all (pre @ post) fs)"
    using parseFlags_items [of fs "pre @ Positional name # post"]
    by (simp add: apply_all_def del: concat_eq_Nil_conv)
qed

text \<open>Some flags of \<open>route add\<close>.\<close>

definition demo_flags :: flags where
  "demo_flags = [(''socket'', StringFlag ''/s''), (''tcp'', StringFlag []), (''json'', BoolFlag False)]"

theorem splitName_agrees_with_parseFlags_witness:
  "splitName [''--tcp'', ''h:1'', ''web'', ''--json'', ''-socket=/x''] = Inr (''web'', [''--tcp'', ''h:1'', ''--json'', ''-socket=/x''])
   \<and> parseFlags demo_flags [''--tcp'', ''h:1'', ''web'', ''--json'', ''-socket=/x'']
     = Inr ([''web''], [(''socket'', StringFlag ''/x''), (''tcp'', StringFlag ''h:1''), (''json'', BoolFlag True)])"
proof -
  have "list_all (item_ok demo_flags) [Separate True ''tcp'' ''h:1'']"
    "list_all (item_ok demo_flags) [Switch True ''json'', Inline False ''socket'' ''/x'']"
    by (auto simp: accepts_def flag_name_def bare_def demo_flags_def)
  from splitName_agrees_with_parseFlags [OF this(1) _ this(2), of "''web''"] show ?thesis
    by (simp add: dashed_def bare_def item_args_def apply_all_def assign_def demo_flags_def ParseBool_def)
qed

text \<open>The name is lost behind a flag value that starts with a dash, or behind the \<open>--\<close> that ends the flags.\<close>

theorem splitName_loses_the_name:
  "splitName [''--socket'', ''-s'', ''web''] = Inl (ErrNew ''route: NAME argument required'')
   \<and> splitName [''--'', ''web''] = Inl (ErrNew ''route: NAME argument required'')
   \<and> parseFlags demo_flags [''--socket'', ''-s'', ''web'']
     = Inr ([''web''], [(''socket'', StringFlag ''-s''), (''tcp'', StringFlag []), (''json'', BoolFlag False)])
   \<and> parseFlags demo_flags [''--'', ''web''] = Inr ([''web''], demo_flags)"
proof -
  have "Parse demo_flags [''--socket'', ''-s'', ''web''] =
      Inr ([(''socket'', StringFlag ''-s''), (''tcp'', StringFlag []), (''json'', BoolFlag False)], [''web''])"
    by code_simp
  moreover have "Parse demo_flags [''--'', ''web''] = Inr (demo_flags, [''web''])" by code_simp
  ultimately show ?thesis
    by (simp add: splitName_def split_step_def isFlagValue_def Let_def parseFlags.simps)
qed

end
