(* ===== verification/Cli.thy ===== *)
theory Cli
  imports Client Flags
begin

text \<open>
  The commands of \<open>cmd/portless\<close> that talk to a daemon: \<open>status.go\<close>, \<open>env.go\<close>, \<open>doctor.go\<close>, \<open>route.go\<close>,
  \<open>alias.go\<close>, \<open>run.go\<close> and \<open>ensureDaemon\<close> of \<open>daemon.go\<close>. The world outside is a state of any type; a platform
  is what the commands call on it: the control client, processes, the clock. A command returns its error and
  the state with the lines it printed; formatting is left to the format texts, which are kept.
\<close>

named_theorems go_cli "rules of the commands"

section \<open>Platform and state\<close>

text \<open>The methods of \<open>control.Client\<close>; the first argument is the socket path.\<close>

record 'd client =
  cl_Status :: "string \<Rightarrow> 'd \<Rightarrow> (goerr + Status) \<times> 'd"
  cl_Routes :: "string \<Rightarrow> 'd \<Rightarrow> (goerr + RouteInfo list) \<times> 'd"
  cl_AddRoute :: "string \<Rightarrow> RouteSpec \<Rightarrow> 'd \<Rightarrow> goerr option \<times> 'd"
  cl_RemoveRoute :: "string \<Rightarrow> string \<Rightarrow> 'd \<Rightarrow> goerr option \<times> 'd"
  cl_WaitReady :: "string \<Rightarrow> string \<Rightarrow> int \<Rightarrow> 'd \<Rightarrow> goerr option \<times> 'd"

text \<open>What \<open>child.Wait\<close> reports: success, an exit status, another error.\<close>

datatype child_result = ChildOk | ChildExit int | ChildErr goerr

record k8sConfig =
  kc_Kubeconfig :: string
  kc_Namespace :: string
  kc_Service :: string
  kc_Selector :: string
  kc_TargetPort :: string

definition k8s_empty :: k8sConfig where
  "k8s_empty = \<lparr>kc_Kubeconfig = [], kc_Namespace = [], kc_Service = [], kc_Selector = [], kc_TargetPort = []\<rparr>"

definition k8sConfig_json :: "k8sConfig \<Rightarrow> json" where
  "k8sConfig_json k = object_json (string_omitempty ''kubeconfig'' (kc_Kubeconfig k) @ string_field ''namespace'' (kc_Namespace k)
     @ string_omitempty ''service'' (kc_Service k) @ string_omitempty ''selector'' (kc_Selector k)
     @ string_omitempty ''targetPort'' (kc_TargetPort k))"

record 'd platform =
  pl_client :: "'d client"
  pl_env :: os_env
  pl_environ :: "string list"
  pl_url_Parse :: url_parser
  pl_services :: "string \<Rightarrow> int option"
  pl_clock :: "'d \<Rightarrow> int"
  pl_sleep :: "int \<Rightarrow> 'd \<Rightarrow> 'd"
  pl_executable :: "goerr + string"
  pl_devnull :: "goerr option"
  pl_spawn :: "string list \<Rightarrow> 'd \<Rightarrow> goerr option \<times> 'd"     \<comment> \<open>start a detached process\<close>
  pl_listen :: "string \<Rightarrow> 'd \<Rightarrow> (goerr + nat \<times> int) \<times> 'd"   \<comment> \<open>a listener and its port\<close>
  pl_close :: "nat \<Rightarrow> 'd \<Rightarrow> 'd"
  pl_start :: "string list \<Rightarrow> string list \<Rightarrow> 'd \<Rightarrow> goerr option \<times> 'd"   \<comment> \<open>arguments and environment of the child\<close>
  pl_wait :: "'d \<Rightarrow> child_result \<times> 'd"

datatype printed = Line string "string list" | ErrLine string "string list" goerr | JsonStatus Status | JsonRoutes "RouteInfo list"

record 'd sys =
  outside :: 'd
  stdout :: "printed list"
  stderr :: "printed list"

definition outside_do :: "('d \<Rightarrow> 'a \<times> 'd) \<Rightarrow> 'd sys \<Rightarrow> 'a \<times> 'd sys" where
  "outside_do f s = (case f (outside s) of (a, d) \<Rightarrow> (a, s\<lparr>outside := d\<rparr>))"

definition Println :: "printed \<Rightarrow> 'd sys \<Rightarrow> 'd sys" where
  "Println l s = s\<lparr>stdout := stdout s @ [l]\<rparr>"

definition Eprintln :: "printed \<Rightarrow> 'd sys \<Rightarrow> 'd sys" where
  "Eprintln l s = s\<lparr>stderr := stderr s @ [l]\<rparr>"

text \<open>The error of a command: an ordinary one, or \<open>run.go\<close>'s \<open>exitCodeError\<close>.\<close>

datatype cmd_error = CmdErr goerr | exitCodeError int

type_synonym 'd outcome = "cmd_error option \<times> 'd sys"

definition socket_flag :: "'d platform \<Rightarrow> string \<times> flag_value" where
  "socket_flag P = (''socket'', StringFlag (DefaultSocketPath (pl_env P)))"

section \<open>status.go, env.go, doctor.go\<close>

definition cmdStatus :: "'d platform \<Rightarrow> string list \<Rightarrow> 'd sys \<Rightarrow> 'd outcome" where
  "cmdStatus P args s =
     (case Parse [socket_flag P, (''json'', BoolFlag False)] args of
        Inl err \<Rightarrow> (Some (CmdErr err), s)
      | Inr (fs, _) \<Rightarrow>
          (case outside_do (cl_Status (pl_client P) (flag_string ''socket'' fs)) s of
             (Inl err, s1) \<Rightarrow> (Some (CmdErr err), s1)
           | (Inr st, s1) \<Rightarrow>
               (None, Println (if flag_bool ''json'' fs then JsonStatus st
                  else Line ''pid: %d version: %s proxy: %s routes: %d uptime: %ds''
                    [itoa (st_pid st), st_version st, st_proxyAddr st, itoa (st_routeCount st), itoa (st_uptimeSec st)]) s1)))"

definition noProxyList :: string where
  "noProxyList = ''localhost,127.0.0.1,::1''"

text \<open>The three lines of a shell format.\<close>

definition env_lines :: "string \<Rightarrow> string \<Rightarrow> goerr + printed list" where
  "env_lines shell proxyURL =
     (if shell = ''sh'' then
        Inr [Line ''export HTTP_PROXY=%s'' [proxyURL], Line ''export HTTPS_PROXY=%s'' [proxyURL], Line ''export NO_PROXY=%s'' [noProxyList]]
      else if shell = ''fish'' then
        Inr [Line ''set -gx HTTP_PROXY %s'' [proxyURL], Line ''set -gx HTTPS_PROXY %s'' [proxyURL], Line ''set -gx NO_PROXY %s'' [noProxyList]]
      else if shell = ''github'' then
        Inr [Line ''HTTP_PROXY=%s'' [proxyURL], Line ''HTTPS_PROXY=%s'' [proxyURL], Line ''NO_PROXY=%s'' [noProxyList]]
      else Inl (Errorf ''env: unknown shell %q (sh, fish, github)'' [shell] []))"

definition cmdEnv :: "'d platform \<Rightarrow> string list \<Rightarrow> 'd sys \<Rightarrow> 'd outcome" where
  "cmdEnv P args s =
     (case Parse [socket_flag P, (''shell'', StringFlag ''sh'')] args of
        Inl err \<Rightarrow> (Some (CmdErr err), s)
      | Inr (fs, _) \<Rightarrow>
          (case outside_do (cl_Status (pl_client P) (flag_string ''socket'' fs)) s of
             (Inl err, s1) \<Rightarrow> (Some (CmdErr err), s1)
           | (Inr st, s1) \<Rightarrow>
               if st_proxyAddr st = [] then
                 (Some (CmdErr (ErrNew ''env: daemon is running without a forward proxy (started with --no-proxy?)'')), s1)
               else (case env_lines (flag_string ''shell'' fs) (''http://'' @ st_proxyAddr st) of
                  Inl err \<Rightarrow> (Some (CmdErr err), s1)
                | Inr ls \<Rightarrow> (None, fold Println ls s1))))"

text \<open>\<open>Duration.Round\<close> of a duration that is not negative.\<close>

definition Round :: "int \<Rightarrow> int \<Rightarrow> int" where
  "Round d m = (let r = d mod m in if r + r < m then d - r else d + m - r)"

text \<open>The loop over the names; the result counts the failures.\<close>

fun doctor_loop :: "'d platform \<Rightarrow> string \<Rightarrow> int \<Rightarrow> string list \<Rightarrow> 'd sys \<Rightarrow> nat \<times> 'd sys" where
  "doctor_loop P socket timeout [] s = (0, s)"
| "doctor_loop P socket timeout (n # ns) s =
     (let start = pl_clock P (outside s) in
      case outside_do (cl_WaitReady (pl_client P) socket n timeout) s of
        (Some err, s1) \<Rightarrow>
          (case doctor_loop P socket timeout ns (Println (ErrLine ''%-30s NOT READY  %v'' [n] err) s1) of
             (failed, s2) \<Rightarrow> (Suc failed, s2))
      | (None, s1) \<Rightarrow>
          doctor_loop P socket timeout ns (Println (Line ''%-30s ready      %v''
            [n, Duration_String (Round (pl_clock P (outside s1) - start) nano_ms)]) s1))"

definition doctor_names :: "'d platform \<Rightarrow> string \<Rightarrow> string list \<Rightarrow> 'd sys \<Rightarrow> (goerr + string list) \<times> 'd sys" where
  "doctor_names P socket names s =
     (if names \<noteq> [] then (Inr names, s)
      else case outside_do (cl_Routes (pl_client P) socket) s of
        (Inl err, s1) \<Rightarrow> (Inl err, s1)
      | (Inr routes, s1) \<Rightarrow> (Inr (map ri_name routes), s1))"

definition cmdDoctor :: "'d platform \<Rightarrow> string list \<Rightarrow> 'd sys \<Rightarrow> 'd outcome" where
  "cmdDoctor P args s =
     (case Parse [socket_flag P, (''timeout'', DurationFlag (30 * nano_s))] args of
        Inl err \<Rightarrow> (Some (CmdErr err), s)
      | Inr (fs, rest) \<Rightarrow>
          (case doctor_names P (flag_string ''socket'' fs) rest s of
             (Inl err, s1) \<Rightarrow> (Some (CmdErr err), s1)
           | (Inr names, s1) \<Rightarrow>
               if names = [] then (None, Println (Line ''no routes registered'' []) s1)
               else (case doctor_loop P (flag_string ''socket'' fs) (flag_duration ''timeout'' fs) names s1 of
                  (failed, s2) \<Rightarrow>
                    (if failed > 0 then Some (CmdErr (Errorf ''doctor: %d route(s) not ready'' [itoa (int failed)] []))
                     else None, s2))))"

section \<open>route.go\<close>

definition route_add_flags :: "'d platform \<Rightarrow> flags" where
  "route_add_flags P = [socket_flag P, (''tcp'', StringFlag []), (''k8s-service'', StringFlag []),
     (''k8s-selector'', StringFlag []), (''k8s-namespace'', StringFlag []), (''target-port'', StringFlag []),
     (''kubeconfig'', StringFlag [])]"

text \<open>The specification that \<open>routeAdd\<close> builds from the parsed flags.\<close>

definition route_spec :: "'d platform \<Rightarrow> string \<Rightarrow> flags \<Rightarrow> goerr + RouteSpec" where
  "route_spec P name fs =
     (let tcp = flag_string ''tcp'' fs; svc = flag_string ''k8s-service'' fs; sel = flag_string ''k8s-selector'' fs;
          ns = flag_string ''k8s-namespace'' fs;
          k8s = k8s_empty\<lparr>kc_TargetPort := flag_string ''target-port'' fs, kc_Kubeconfig := flag_string ''kubeconfig'' fs\<rparr> in
      if tcp \<noteq> [] then
        (case ParseTCP_addr (pl_url_Parse P) (pl_services P) tcp of
           Inl err \<Rightarrow> Inl err
         | Inr _ \<Rightarrow> Inr \<lparr>sp_name = name, sp_type = ''tcp'', sp_config = json_print (address_json tcp)\<rparr>)
      else if svc \<noteq> [] then
        (case cut_str svc ''/'' of
           None \<Rightarrow> Inl (ErrNew ''route add: --k8s-service must be NS/NAME'')
         | Some (n, sv) \<Rightarrow> Inr \<lparr>sp_name = name, sp_type = ''k8s'',
             sp_config = json_print (k8sConfig_json (k8s\<lparr>kc_Namespace := n, kc_Service := sv\<rparr>))\<rparr>)
      else if sel \<noteq> [] then
        (if ns = [] then Inl (ErrNew ''route add: --k8s-selector requires --k8s-namespace'')
         else Inr \<lparr>sp_name = name, sp_type = ''k8s'', sp_config = json_print (k8sConfig_json (k8s\<lparr>kc_Namespace := ns, kc_Selector := sel\<rparr>))\<rparr>)
      else Inl (ErrNew ''route add: a backend flag is required (--tcp, --k8s-service, or --k8s-selector)''))"

definition as_outcome :: "goerr option \<times> 'd sys \<Rightarrow> 'd outcome" where
  "as_outcome x = (map_option CmdErr (fst x), snd x)"

definition routeAdd :: "'d platform \<Rightarrow> string list \<Rightarrow> 'd sys \<Rightarrow> 'd outcome" where
  "routeAdd P args s =
     (case splitName args of
        Inl err \<Rightarrow> (Some (CmdErr err), s)
      | Inr (name, flagArgs) \<Rightarrow>
          (case Parse (route_add_flags P) flagArgs of
             Inl err \<Rightarrow> (Some (CmdErr err), s)
           | Inr (fs, _) \<Rightarrow>
               (case route_spec P name fs of
                  Inl err \<Rightarrow> (Some (CmdErr err), s)
                | Inr spec \<Rightarrow> as_outcome (outside_do (cl_AddRoute (pl_client P) (flag_string ''socket'' fs) spec) s))))"

definition route_row :: "RouteInfo \<Rightarrow> printed" where
  "route_row rt = Line ''%s %s %s %s''
     [ri_name rt, ri_type rt, if ri_addr rt = [] then ''-'' else ri_addr rt, ri_config rt]"

definition routeList :: "'d platform \<Rightarrow> string list \<Rightarrow> 'd sys \<Rightarrow> 'd outcome" where
  "routeList P args s =
     (case Parse [socket_flag P, (''json'', BoolFlag False)] args of
        Inl err \<Rightarrow> (Some (CmdErr err), s)
      | Inr (fs, _) \<Rightarrow>
          (case outside_do (cl_Routes (pl_client P) (flag_string ''socket'' fs)) s of
             (Inl err, s1) \<Rightarrow> (Some (CmdErr err), s1)
           | (Inr routes, s1) \<Rightarrow>
               (None, if flag_bool ''json'' fs then Println (JsonRoutes routes) s1
                  else fold Println (Line ''NAME TYPE ADDR CONFIG'' [] # map route_row routes) s1)))"

definition routeRm :: "'d platform \<Rightarrow> string list \<Rightarrow> 'd sys \<Rightarrow> 'd outcome" where
  "routeRm P args s =
     (case splitName args of
        Inl err \<Rightarrow> (Some (CmdErr err), s)
      | Inr (name, flagArgs) \<Rightarrow>
          (case Parse [socket_flag P] flagArgs of
             Inl err \<Rightarrow> (Some (CmdErr err), s)
           | Inr (fs, _) \<Rightarrow>
               as_outcome (outside_do (cl_RemoveRoute (pl_client P) (flag_string ''socket'' fs) name) s)))"

definition cmdRoute :: "'d platform \<Rightarrow> string list \<Rightarrow> 'd sys \<Rightarrow> 'd outcome" where
  "cmdRoute P args s =
     (case args of
        [] \<Rightarrow> (Some (CmdErr (ErrNew ''route: expected subcommand add|list|rm'')), s)
      | sub # rest \<Rightarrow>
          if sub = ''add'' then routeAdd P rest s
          else if sub = ''list'' then routeList P rest s
          else if sub = ''rm'' then routeRm P rest s
          else (Some (CmdErr (Errorf ''route: unknown subcommand %q'' [sub] [])), s))"

section \<open>daemon.go\<close>

text \<open>The wait for the control socket; a loop whose end depends on the clock, so it may be undefined.\<close>

partial_function (option) wait_daemon :: "'d platform \<Rightarrow> string \<Rightarrow> int \<Rightarrow> 'd \<Rightarrow> (goerr option \<times> 'd) option" where
  "wait_daemon P socket deadline d =
     (case cl_Status (pl_client P) socket d of
        (Inr _, d1) \<Rightarrow> Some (None, d1)
      | (Inl _, d1) \<Rightarrow>
          if deadline < pl_clock P d1 then Some (Some (Errorf ''daemon did not become ready at %s'' [socket] []), d1)
          else wait_daemon P socket deadline (pl_sleep P (50 * nano_ms) d1))"

definition ensureDaemon :: "'d platform \<Rightarrow> string \<Rightarrow> 'd \<Rightarrow> (goerr option \<times> 'd) option" where
  "ensureDaemon P socket d =
     (case cl_Status (pl_client P) socket d of
        (Inr _, d1) \<Rightarrow> Some (None, d1)
      | (Inl _, d1) \<Rightarrow>
          (case pl_executable P of
             Inl err \<Rightarrow> Some (Some (Errorf ''locate self to start daemon: %w'' [] [err]), d1)
           | Inr self \<Rightarrow>
               (case pl_devnull P of
                  Some err \<Rightarrow> Some (Some err, d1)
                | None \<Rightarrow>
                    (case pl_spawn P [self, ''serve'', ''--socket'', socket] d1 of
                       (Some err, d2) \<Rightarrow> Some (Some (Errorf ''start daemon: %w'' [] [err]), d2)
                     | (None, d2) \<Rightarrow> wait_daemon P socket (pl_clock P d2 + 5 * nano_s) d2))))"

definition freePort :: "'d platform \<Rightarrow> 'd \<Rightarrow> (goerr + int) \<times> 'd" where
  "freePort P d =
     (case pl_listen P ''127.0.0.1:0'' d of
        (Inl err, d1) \<Rightarrow> (Inl err, d1)
      | (Inr (l, port), d1) \<Rightarrow> (Inr port, pl_close P l d1))"

text \<open>\<open>ensureDaemon\<close> as a step of a command: go on, or stop with its error.\<close>

definition with_daemon :: "'d platform \<Rightarrow> string \<Rightarrow> ('d sys \<Rightarrow> 'd outcome) \<Rightarrow> 'd sys \<Rightarrow> 'd outcome option" where
  "with_daemon P socket k s =
     (case ensureDaemon P socket (outside s) of
        None \<Rightarrow> None
      | Some (Some err, d) \<Rightarrow> Some (Some (CmdErr err), s\<lparr>outside := d\<rparr>)
      | Some (None, d) \<Rightarrow> Some (k (s\<lparr>outside := d\<rparr>)))"

section \<open>alias.go\<close>

definition tcp_spec :: "string \<Rightarrow> string \<Rightarrow> RouteSpec" where
  "tcp_spec name addr = \<lparr>sp_name = name, sp_type = ''tcp'', sp_config = json_print (address_json addr)\<rparr>"

definition alias_add :: "'d platform \<Rightarrow> string \<Rightarrow> string \<Rightarrow> string \<Rightarrow> 'd sys \<Rightarrow> 'd outcome" where
  "alias_add P socket name addr s =
     (case outside_do (cl_AddRoute (pl_client P) socket (tcp_spec name addr)) s of
        (Some err, s1) \<Rightarrow> (Some (CmdErr err), s1)
      | (None, s1) \<Rightarrow> (None, Println (Line ''%s -> %s'' [name, addr]) s1))"

definition cmdAlias :: "'d platform \<Rightarrow> string list \<Rightarrow> 'd sys \<Rightarrow> 'd outcome option" where
  "cmdAlias P args s =
     (case parseFlags [socket_flag P] args of
        Inl err \<Rightarrow> Some (Some (CmdErr err), s)
      | Inr (pos, fs) \<Rightarrow>
          (case pos of
             [name, addr] \<Rightarrow>
               (case ParseTCP_addr (pl_url_Parse P) (pl_services P) addr of
                  Inl err \<Rightarrow> Some (Some (CmdErr err), s)
                | Inr _ \<Rightarrow>
                    with_daemon P (flag_string ''socket'' fs) (alias_add P (flag_string ''socket'' fs) name addr) s)
           | _ \<Rightarrow> Some (Some (CmdErr (ErrNew ''usage: portless alias NAME HOST:PORT'')), s)))"

section \<open>run.go\<close>

text \<open>The child, from the hint about the proxy to its exit.\<close>

definition run_child :: "'d platform \<Rightarrow> string \<Rightarrow> string \<Rightarrow> string list \<Rightarrow> string \<Rightarrow> int \<Rightarrow> 'd sys \<Rightarrow> 'd outcome" where
  "run_child P socket name cmdArgs portEnv port s0 =
     (case outside_do (cl_Status (pl_client P) socket) s0 of (st, s) \<Rightarrow>
      (let s1 = (case st of
             Inr x \<Rightarrow> if st_proxyAddr x \<noteq> []
               then Eprintln (Line ''portless: %s -> http://%s (via proxy %s; run `portless env`)''
                 [name, name, st_proxyAddr x]) s
               else s
           | Inl _ \<Rightarrow> s) in
       case outside_do (pl_start P cmdArgs (pl_environ P @ [portEnv @ ''='' @ itoa port])) s1 of
         (Some err, s2) \<Rightarrow> (Some (CmdErr (Errorf ''start %q: %w'' [hd cmdArgs] [err])), s2)
       | (None, s2) \<Rightarrow>
           (case outside_do (pl_wait P) s2 of
              (ChildOk, s3) \<Rightarrow> (None, s3)
            | (ChildExit code, s3) \<Rightarrow> (Some (exitCodeError code), s3)
            | (ChildErr err, s3) \<Rightarrow> (Some (CmdErr err), s3))))"

text \<open>From the assigned port on; the deferred \<open>RemoveRoute\<close> runs on every way out once the route is added.\<close>

definition run_route :: "'d platform \<Rightarrow> string \<Rightarrow> string \<Rightarrow> string list \<Rightarrow> string \<Rightarrow> 'd sys \<Rightarrow> 'd outcome" where
  "run_route P socket name cmdArgs portEnv s =
     (case outside_do (freePort P) s of
        (Inl err, s1) \<Rightarrow> (Some (CmdErr (Errorf ''assign port: %w'' [] [err])), s1)
      | (Inr port, s1) \<Rightarrow>
          (case outside_do (cl_AddRoute (pl_client P) socket
                  (tcp_spec name (JoinHostPort ''127.0.0.1'' (itoa port)))) s1 of
             (Some err, s2) \<Rightarrow> (Some (CmdErr err), s2)
           | (None, s2) \<Rightarrow>
               (case run_child P socket name cmdArgs portEnv port s2 of
                  (res, s3) \<Rightarrow> (res, snd (outside_do (cl_RemoveRoute (pl_client P) socket name) s3)))))"

definition run_usage :: cmd_error where
  "run_usage = CmdErr (ErrNew ''usage: portless run NAME [flags] -- CMD [args...]'')"

definition cmdRun :: "'d platform \<Rightarrow> string list \<Rightarrow> 'd sys \<Rightarrow> 'd outcome option" where
  "cmdRun P args s =
     (case cut args ''--'' of (before, cmdArgs, hasSep) \<Rightarrow>
        if \<not> hasSep \<or> cmdArgs = [] then Some (Some run_usage, s)
        else (case parseFlags [socket_flag P, (''port-env'', StringFlag ''PORT'')] before of
                Inl err \<Rightarrow> Some (Some (CmdErr err), s)
              | Inr (pos, fs) \<Rightarrow>
                  (case pos of
                     [name] \<Rightarrow> with_daemon P (flag_string ''socket'' fs)
                       (run_route P (flag_string ''socket'' fs) name cmdArgs (flag_string ''port-env'' fs)) s
                   | _ \<Rightarrow> Some (Some run_usage, s))))"

end
