(* ===== verification/Cli_Props.thy ===== *)
theory Cli_Props
  imports Cli
begin

text \<open>
  What the commands of \<open>Cli\<close> promise: on their own, and with the daemon of \<open>Client\<close> as the world outside.
\<close>

section \<open>Waiting for a daemon\<close>

text \<open>
  A clock that sleeping moves forward, and that neither oversleeping nor a status call moves by more than \<open>\<delta>\<close>. A
  daemon that boots: from \<open>up\<close> on it answers, and neither waiting nor asking stops it; one that stays down never
  answers.
\<close>

definition clock_ok :: "'d platform \<Rightarrow> string \<Rightarrow> int \<Rightarrow> bool" where
  "clock_ok P socket \<delta> \<longleftrightarrow>
     (\<forall>n d. 0 \<le> n \<longrightarrow> pl_clock P d + n \<le> pl_clock P (pl_sleep P n d) \<and> pl_clock P (pl_sleep P n d) \<le> pl_clock P d + n + \<delta>) \<and>
     (\<forall>d r d'. cl_Status (pl_client P) socket d = (r, d') \<longrightarrow> pl_clock P d \<le> pl_clock P d' \<and> pl_clock P d' \<le> pl_clock P d + \<delta>)"

definition boots :: "'d platform \<Rightarrow> string \<Rightarrow> int \<Rightarrow> ('d \<Rightarrow> bool) \<Rightarrow> bool" where
  "boots P socket up booting \<longleftrightarrow>
     (\<forall>n d. booting d \<longrightarrow> booting (pl_sleep P n d)) \<and>
     (\<forall>d r d'. booting d \<and> cl_Status (pl_client P) socket d = (r, d') \<longrightarrow> booting d' \<and> (up \<le> pl_clock P d \<longrightarrow> \<not> isl r))"

definition stays_down :: "'d platform \<Rightarrow> string \<Rightarrow> ('d \<Rightarrow> bool) \<Rightarrow> bool" where
  "stays_down P socket down \<longleftrightarrow>
     (\<forall>n d. down d \<longrightarrow> down (pl_sleep P n d)) \<and>
     (\<forall>d r d'. down d \<and> cl_Status (pl_client P) socket d = (r, d') \<longrightarrow> down d' \<and> isl r)"

lemma clock_okD:
  assumes "clock_ok P socket \<delta>"
  shows "0 \<le> n \<Longrightarrow> pl_clock P d + n \<le> pl_clock P (pl_sleep P n d)"
    and "cl_Status (pl_client P) socket d = (r, d') \<Longrightarrow> pl_clock P d \<le> pl_clock P d' \<and> pl_clock P d' \<le> pl_clock P d + \<delta>"
    and "0 \<le> n \<Longrightarrow> pl_clock P (pl_sleep P n d) \<le> pl_clock P d + n + \<delta>"
  using assms by (auto simp: clock_ok_def)

lemma bootsD:
  assumes "boots P socket up booting" and "booting d"
  shows "booting (pl_sleep P n d)"
    and "cl_Status (pl_client P) socket d = (r, d') \<Longrightarrow> booting d' \<and> (up \<le> pl_clock P d \<longrightarrow> \<not> isl r)"
  using assms unfolding boots_def by blast+

text \<open>The wait ends one poll after the deadline at the latest, and gives up only after the deadline.\<close>

lemma wait_daemon_returns:
  assumes c: "clock_ok P socket \<delta>" and "pl_clock P d \<le> deadline + 50 * nano_ms + \<delta>"
  shows "\<exists>res d'. wait_daemon P socket deadline d = Some (res, d') \<and> pl_clock P d' \<le> deadline + 50 * nano_ms + 2 * \<delta> \<and>
    (res = None \<or> res = Some (Errorf ''daemon did not become ready at %s'' [socket] []) \<and> deadline < pl_clock P d')"
  using assms(2)
proof (induction "nat (deadline + 1 - pl_clock P d)" arbitrary: d rule: less_induct)
  case less
  obtain r d1 where s: "cl_Status (pl_client P) socket d = (r, d1)" by fastforce
  note late = clock_okD(2) [OF c s]
  show ?case
  proof (cases "isl r \<and> \<not> deadline < pl_clock P d1")
    case True
    let ?d = "pl_sleep P (50 * nano_ms) d1"
    have "pl_clock P d + 50 * nano_ms \<le> pl_clock P ?d"
      using clock_okD(1) [OF c, of "50 * nano_ms" d1] late by simp
    moreover have "pl_clock P d \<le> deadline" using late True by simp
    ultimately have "nat (deadline + 1 - pl_clock P ?d) < nat (deadline + 1 - pl_clock P d)" by simp
    moreover have "pl_clock P ?d \<le> deadline + 50 * nano_ms + \<delta>"
      using clock_okD(3) [OF c, of "50 * nano_ms" d1] True by simp
    ultimately show ?thesis using less.hyps [of ?d] s True by (subst wait_daemon.simps) (auto split: sum.splits)
  next
    case False
    with s late less.prems show ?thesis by (subst wait_daemon.simps) (auto split: sum.splits)
  qed
qed

lemma wait_daemon_gives_up:
  assumes c: "clock_ok P socket \<delta>" and down: "stays_down P socket down" and "down d"
  shows "wait_daemon P socket deadline d \<noteq> Some (None, d')"
  using \<open>down d\<close>
proof (induction "nat (deadline + 1 - pl_clock P d)" arbitrary: d rule: less_induct)
  case less
  obtain r d1 where s: "cl_Status (pl_client P) socket d = (r, d1)" by fastforce
  with down less.prems have r: "isl r" "down d1" and later: "down (pl_sleep P (50 * nano_ms) d1)"
    unfolding stays_down_def by blast+
  show ?case
  proof (cases "deadline < pl_clock P d1")
    case True
    with s r show ?thesis by (subst wait_daemon.simps) (auto split: sum.splits)
  next
    case False
    let ?d = "pl_sleep P (50 * nano_ms) d1"
    have "nat (deadline + 1 - pl_clock P ?d) < nat (deadline + 1 - pl_clock P d)"
      using clock_okD(1) [OF c, of "50 * nano_ms" d1] clock_okD(2) [OF c s] False by simp
    from less.hyps [OF this later] s r False show ?thesis by (subst wait_daemon.simps) (auto split: sum.splits)
  qed
qed

lemma wait_daemon_finds:
  assumes c: "clock_ok P socket \<delta>" and b: "boots P socket up booting" and "booting d" and t: "up + \<delta> \<le> deadline"
  shows "\<exists>d'. wait_daemon P socket deadline d = Some (None, d')"
  using \<open>booting d\<close>
proof (induction "nat (up - pl_clock P d)" arbitrary: d rule: less_induct)
  case less
  obtain r d1 where s: "cl_Status (pl_client P) socket d = (r, d1)" by fastforce
  show ?case
  proof (cases r)
    case (Inl err)
    with bootsD(2) [OF b less.prems s] have before: "pl_clock P d < up" and "booting d1" by auto
    let ?d = "pl_sleep P (50 * nano_ms) d1"
    have "pl_clock P d + 50 * nano_ms \<le> pl_clock P ?d" and "pl_clock P d1 \<le> deadline"
      using clock_okD(1) [OF c, of "50 * nano_ms" d1] clock_okD(2) [OF c s] before t by simp_all
    moreover have "booting ?d" by (rule bootsD(1) [OF b \<open>booting d1\<close>])
    ultimately show ?thesis using less.hyps [of ?d] before s Inl by (subst wait_daemon.simps) simp
  next
    case (Inr st)
    with s show ?thesis by (subst wait_daemon.simps) simp
  qed
qed

section \<open>The platform of a running daemon\<close>

definition api_client :: "'x api \<Rightarrow> ctx \<Rightarrow> 'x daemon option client" where
  "api_client a ctx = \<lparr>cl_Status = (\<lambda>_. client_Status a ctx), cl_Routes = (\<lambda>_. client_Routes a ctx),
     cl_AddRoute = (\<lambda>_. client_AddRoute a ctx), cl_RemoveRoute = (\<lambda>_. client_RemoveRoute a ctx),
     cl_WaitReady = (\<lambda>_. client_WaitReady a ctx)\<rparr>"

definition daemon_up :: "'x config \<Rightarrow> 'x api \<Rightarrow> 'x daemon option \<Rightarrow> bool" where
  "daemon_up cfg a st \<longleftrightarrow> (\<exists>d. st = Some d \<and> daemon_ok cfg a d)"

text \<open>Picking a port does not touch the daemon; the child may do with it what its API allows.\<close>

definition well_behaved :: "'x config \<Rightarrow> 'x api \<Rightarrow> ctx \<Rightarrow> 'x daemon option platform \<Rightarrow> bool" where
  "well_behaved cfg a ctx P \<longleftrightarrow> pl_client P = api_client a ctx \<and>
     (\<forall>x st. snd (pl_listen P x st) = st) \<and> (\<forall>l st. pl_close P l st = st) \<and>
     (\<forall>x e st. daemon_up cfg a st \<longrightarrow> daemon_up cfg a (snd (pl_start P x e st))) \<and>
     (\<forall>st. daemon_up cfg a st \<longrightarrow> daemon_up cfg a (snd (pl_wait P st)))"

lemma client_Status_up: "\<exists>x. client_Status a ctx (Some d) = (Inr x, Some d)"
proof -
  let ?st = "handleStatus (ap_pid a) (ap_version a) (dm_server d) (dm_reg d) (dm_world d)"
  obtain st where st: "?st = ApiStatus st" and "in_int64 (st_pid st)" "in_int64 (st_routeCount st)" "in_int64 (st_uptimeSec st)"
    by (simp add: handleStatus_def)
  from Status_roundtrip [OF this(2-4)] st show ?thesis
    by (simp add: client_Status_def ask_def serve_request_def fixed_calls client_get_def client_do_def respond_def
        writeJSON_def newline_def decoded_def)
qed

lemma ensureDaemon_up: "pl_client P = api_client a ctx \<Longrightarrow> ensureDaemon P socket (Some d) = Some (None, Some d)"
  using client_Status_up [of a ctx d] by (auto simp: ensureDaemon_def api_client_def)

lemma freePort_same: "well_behaved cfg a ctx P \<Longrightarrow> snd (freePort P st) = st"
  by (auto simp: freePort_def well_behaved_def split: prod.splits sum.splits) (metis snd_conv)+

lemma client_AddRoute_up:
  assumes "daemon_ok cfg a d" and "config_ok (sp_config spec)" and "ValidString (sp_name spec)"
  shows "\<exists>res d'. client_AddRoute a ctx spec (Some d) = (res, Some d') \<and> daemon_ok cfg a d' \<and>
      (if res = None then table d (to_lower (sp_name spec)) = None else table d' = table d)"
proof -
  obtain reply s' r' w' where h: "handleAddRoute (ap_factories a) (Inr (wire_spec spec)) ctx (dm_server d) (dm_reg d) (dm_world d)
      = (reply, s', r', w')" by (metis prod_cases4)
  have "daemon_ok cfg a \<lparr>dm_server = s', dm_reg = r', dm_world = w'\<rparr>"
    using add_route_ok [OF _ h, of cfg] specs_clean_add [OF _ wire_spec_clean [OF assms(2)] h] assms(1) by (simp add: daemon_ok_def)
  with add_route_table [OF assms(1) h refl, of "''POST''" "''/v1/routes''" "ap_text a"] client_AddRoute_value [OF assms(2) h] assms(3)
  show ?thesis by (auto split: if_splits)
qed

lemma client_RemoveRoute_up:
  assumes "daemon_up cfg a st" and "reachable_name n"
  shows "\<exists>d'. snd (client_RemoveRoute a ctx n st) = Some d' \<and> daemon_ok cfg a d' \<and> table d' (to_lower n) = None"
proof -
  from assms(1) obtain d where d: "st = Some d" "daemon_ok cfg a d" by (auto simp: daemon_up_def)
  obtain reply s' r' w' where h: "handleRemoveRoute n ctx (dm_server d) (dm_reg d) (dm_world d)
      = (reply, s', r', w')" by (metis prod_cases4)
  have "daemon_ok cfg a \<lparr>dm_server = s', dm_reg = r', dm_world = w'\<rparr>"
    using remove_route_ok [OF _ h, of cfg "ap_factories a"] specs_clean_remove [OF _ h] d by (simp add: daemon_ok_def)
  with remove_route_table(1) [OF h refl] client_RemoveRoute_value [OF assms(2) h] d show ?thesis by simp
qed

lemma run_child_up:
  assumes "well_behaved cfg a ctx P" and "daemon_up cfg a (outside s)"
  shows "daemon_up cfg a (outside (snd (run_child P socket name cmd env port s)))"
proof -
  from assms(2) obtain d where "outside s = Some d" by (auto simp: daemon_up_def)
  with client_Status_up [of a ctx d] assms have
    "daemon_up cfg a (outside (snd (outside_do (cl_Status (pl_client P) socket) s)))"
    by (auto simp: well_behaved_def api_client_def outside_do_def)
  with assms(1) show ?thesis
    by (auto simp: run_child_def outside_do_def well_behaved_def Eprintln_def Let_def
        split: prod.splits option.splits child_result.splits sum.splits if_splits) (metis snd_conv)+
qed

lemma run_route_table:
  assumes w: "well_behaved cfg a ctx P" and d: "outside s = Some d" "daemon_ok cfg a d" and n: "reachable_name name" and u: "ValidString name"
    and r: "run_route P socket name cmd env s = (res, s')"
  shows "\<exists>d'. outside s' = Some d' \<and> daemon_ok cfg a d' \<and> table d' (to_lower name) = table d (to_lower name) \<and>
      (table d (to_lower name) \<noteq> None \<longrightarrow> (\<exists>e. res = Some (CmdErr e)))"
proof -
  have c: "pl_client P = api_client a ctx" using w by (simp add: well_behaved_def)
  obtain p where fp: "outside_do (freePort P) s = (p, s)"
    using freePort_same [OF w, of "outside s"] by (cases "freePort P (outside s)") (simp add: outside_do_def)
  show ?thesis
  proof (cases p)
    case (Inl err)
    with r fp d show ?thesis by (auto simp: run_route_def)
  next
    case (Inr port)
    let ?spec = "tcp_spec name (JoinHostPort ''127.0.0.1'' (itoa port))"
    have "sp_name ?spec = name" "config_ok (sp_config ?spec)" by (simp_all add: tcp_spec_def)
    with u obtain e d1 where add: "client_AddRoute a ctx ?spec (Some d) = (e, Some d1)" and d1: "daemon_ok cfg a d1"
      and t1: "if e = None then table d (to_lower name) = None else table d1 = table d"
      using client_AddRoute_up [OF d(2), of ?spec ctx] by metis
    have add': "outside_do (cl_AddRoute (pl_client P) socket ?spec) s = (e, s\<lparr>outside := Some d1\<rparr>)"
      using add c d by (simp add: outside_do_def api_client_def)
    show ?thesis
    proof (cases e)
      case (Some err)
      with r fp add' Inr d1 t1 show ?thesis by (auto simp: run_route_def)
    next
      case None
      obtain res2 s3 where rc: "run_child P socket name cmd env port (s\<lparr>outside := Some d1\<rparr>) = (res2, s3)" by fastforce
      have "daemon_up cfg a (outside s3)"
        using run_child_up [OF w, of "s\<lparr>outside := Some d1\<rparr>" socket name cmd env port] d1 rc by (simp add: daemon_up_def)
      from client_RemoveRoute_up [OF this n, of ctx] r fp add' Inr None rc t1 c show ?thesis
        by (auto simp: run_route_def outside_do_def api_client_def split: prod.splits)
    qed
  qed
qed

section \<open>The specifications the commands send\<close>

text \<open>A specification that the wire carries as it is and whose backend the factory builds.\<close>

lemma spec_added:
  fixes a :: "'x api"
  assumes f: "lookupFactory (sp_type spec) (ap_factories a) = Some f" "f (sp_config spec) = Inr b"
    and spec: "sp_name spec \<noteq> []" "sp_type spec \<noteq> []" "wire_spec spec = spec" "config_ok (sp_config spec)"
  shows "\<exists>res d' out. client_AddRoute a ctx spec (Some d) = (res, Some d') \<and>
     Add (dm_reg d) ctx (sp_name spec) (Some b) [] (dm_world d) = (out, dm_reg d', dm_world d') \<and> (res = None \<longleftrightarrow> is_ok out)"
proof -
  obtain reply s' r' w' where h: "handleAddRoute (ap_factories a) (Inr (wire_spec spec)) ctx (dm_server d)
      (dm_reg d) (dm_world d) = (reply, s', r', w')" by (metis prod_cases4)
  note c = client_AddRoute_value [OF spec(4) h]
  obtain out r1 w1 where add: "Add (dm_reg d) ctx (sp_name spec) (Some b) [] (dm_world d) = (out, r1, w1)"
    by (metis prod_cases3)
  with h f spec have "r' = r1 \<and> w' = w1 \<and>
      reply = (case out of Inl err \<Rightarrow> if err_is ErrRouteExists err then ApiError 409 codeRouteExists err else ApiError 500 codeInternal err
        | Inr rt \<Rightarrow> ApiDone 201)"
    by (cases out) (auto simp: handleAddRoute_def split: if_splits)
  with c add show ?thesis by (cases out) (auto simp: client_do_error)
qed

lemma tcp_spec_added:
  fixes a :: "'x api"
  assumes f: "lookupFactory ''tcp'' (ap_factories a) = Some (tcp_factory url_Parse services net i)"
    and n: "name \<noteq> []" and u: "ValidString name" "ValidString addr"
    and p: "ParseTCP_addr url_Parse services addr = Inr norm"
  shows "\<exists>res d' out. client_AddRoute a ctx (tcp_spec name addr) (Some d) = (res, Some d') \<and>
     Add (dm_reg d) ctx name (Some (TCP net i norm)) [] (dm_world d) = (out, dm_reg d', dm_world d') \<and> (res = None \<longleftrightarrow> is_ok out)"
proof -
  have "addr \<noteq> []" using p by (auto simp: ParseTCP_addr_def trim_space_def trim_by_def)
  with p u have b: "tcp_factory url_Parse services net i (sp_config (tcp_spec name addr)) = Inr (TCP net i norm :: 'x Backend)"
    by (simp add: tcp_factory_def ParseTCP_def tcp_spec_def)
  have f': "lookupFactory (sp_type (tcp_spec name addr)) (ap_factories a) = Some (tcp_factory url_Parse services net i)"
    using f by (simp add: tcp_spec_def)
  have "wire_spec (tcp_spec name addr) = tcp_spec name addr" using u
    by (simp add: wire_spec_def tcp_spec_def to_valid_ascii byte_def)
  from spec_added [OF f' b _ _ this, of ctx d] n show ?thesis by (simp add: tcp_spec_def)
qed

section \<open>alias and route add\<close>

lemma Parse_two: "bare n \<Longrightarrow> bare x \<Longrightarrow> parseFlags fs [n, x] = Inr ([n, x], fs)"
  using parseFlags_items [of fs "[Positional n, Positional x]"] by simp

lemma route_add_tcp_flags:
  assumes "bare name" "bare addr"
  shows "splitName [name, ''--tcp'', addr] = Inr (name, [''--tcp'', addr])"
    and "\<exists>fl. Parse (route_add_flags P) [''--tcp'', addr] = Inr (fl, []) \<and> flag_string ''tcp'' fl = addr
          \<and> flag_string ''socket'' fl = DefaultSocketPath (pl_env P)"
proof -
  show "splitName [name, ''--tcp'', addr] = Inr (name, [''--tcp'', addr])"
    using assms by (simp add: splitName_def split_step_def bare_def isFlagValue_def)
  have "item_ok (route_add_flags P) (Separate True ''tcp'' addr)"
    using assms by (auto simp: accepts_def flag_name_def bare_def route_add_flags_def socket_flag_def)
  from Parse_item [OF this, of "[]"] show "\<exists>fl. Parse (route_add_flags P) [''--tcp'', addr] = Inr (fl, [])
      \<and> flag_string ''tcp'' fl = addr \<and> flag_string ''socket'' fl = DefaultSocketPath (pl_env P)"
    by (simp add: dashed_def assign_def route_add_flags_def socket_flag_def flag_string_def)
qed

section \<open>doctor\<close>

text \<open>The names whose wait fails, asked one after the other.\<close>

fun not_ready :: "'d platform \<Rightarrow> string \<Rightarrow> int \<Rightarrow> string list \<Rightarrow> 'd \<Rightarrow> string list" where
  "not_ready P socket timeout [] d = []"
| "not_ready P socket timeout (n # ns) d =
     (case cl_WaitReady (pl_client P) socket n timeout d of
        (err, d1) \<Rightarrow> (if err = None then [] else [n]) @ not_ready P socket timeout ns d1)"

fun is_failure_line :: "printed \<Rightarrow> bool" where
  "is_failure_line (ErrLine f as e) = True"
| "is_failure_line l = False"

fun line_name :: "printed \<Rightarrow> string" where
  "line_name (Line f as) = hd as"
| "line_name (ErrLine f as e) = hd as"
| "line_name l = []"

lemma doctor_loop_lines:
  "doctor_loop P socket timeout ns s = (failed, s') \<Longrightarrow>
   \<exists>ls. stdout s' = stdout s @ ls \<and> map line_name ls = ns \<and>
     map line_name (filter is_failure_line ls) = not_ready P socket timeout ns (outside s) \<and>
     failed = length (filter is_failure_line ls)"
proof (induction ns arbitrary: s failed s')
  case (Cons n ns)
  obtain e d1 where w: "cl_WaitReady (pl_client P) socket n timeout (outside s) = (e, d1)" by fastforce
  define l where "l = (case e of Some err \<Rightarrow> ErrLine ''%-30s NOT READY  %v'' [n] err
    | None \<Rightarrow> Line ''%-30s ready      %v'' [n, Duration_String (Round (pl_clock P d1 - pl_clock P (outside s)) nano_ms)])"
  let ?s = "Println l (s\<lparr>outside := d1\<rparr>)"
  obtain f s2 where r: "doctor_loop P socket timeout ns ?s = (f, s2)" by fastforce
  have l: "line_name l = n" "is_failure_line l = (e \<noteq> None)" by (simp_all add: l_def split: option.splits)
  from Cons.prems w r have eq: "failed = (if e = None then f else Suc f)" "s' = s2"
    by (auto simp: outside_do_def Println_def l_def Let_def split: option.splits)
  from Cons.IH [OF r] obtain ls where ls: "stdout s2 = stdout s @ l # ls" "map line_name ls = ns"
    "map line_name (filter is_failure_line ls) = not_ready P socket timeout ns d1" "f = length (filter is_failure_line ls)"
    by (auto simp: Println_def)
  show ?case using ls l eq w by (intro exI [of _ "l # ls"]) auto
qed simp

section \<open>A platform of constants\<close>

definition demo_env :: os_env where
  "demo_env = \<lparr>env_get = (\<lambda>_. []), env_goos = ''linux'', env_cache = None, env_config = None, env_tmp = ''/tmp'', env_uid = 7\<rparr>"

text \<open>The port is 4242 and the child exits with status 3.\<close>

definition demo_platform :: "'d client \<Rightarrow> ('d \<Rightarrow> int) \<Rightarrow> (int \<Rightarrow> 'd \<Rightarrow> 'd) \<Rightarrow> 'd platform" where
  "demo_platform c clk slp = \<lparr>pl_client = c, pl_env = demo_env, pl_environ = [],
     pl_url_Parse = (\<lambda>_. Inl (ErrNew [])), pl_services = (\<lambda>_. None),
     pl_clock = clk, pl_sleep = slp,
     pl_executable = Inr ''portless'', pl_devnull = None, pl_spawn = (\<lambda>_ d. (None, d)),
     pl_listen = (\<lambda>_ d. (Inr (1, 4242), d)), pl_close = (\<lambda>_ d. d), pl_start = (\<lambda>_ _ d. (None, d)),
     pl_wait = (\<lambda>d. (ChildExit 3, d))\<rparr>"

definition demo_status :: Status where
  "demo_status = \<lparr>st_pid = 1, st_version = ''dev'', st_proxyAddr = [], st_routeCount = 0, st_uptimeSec = 0\<rparr>"

text \<open>A world that is only a clock: the daemon answers from one second on, and the route \<open>b\<close> is never ready.\<close>

definition clock_client :: "int client" where
  "clock_client = \<lparr>cl_Status = (\<lambda>_ d. (if nano_s \<le> d then Inr demo_status else Inl (ErrNew ''refused''), d)),
     cl_Routes = (\<lambda>_ d. (Inr [], d)), cl_AddRoute = (\<lambda>_ _ d. (None, d)), cl_RemoveRoute = (\<lambda>_ _ d. (None, d)),
     cl_WaitReady = (\<lambda>_ n _ d. (if n = ''b'' then Some (ErrNew ''down'') else None, d))\<rparr>"

definition dead_client :: "int client" where
  "dead_client = clock_client\<lparr>cl_Status := (\<lambda>_ d. (Inl (ErrNew ''refused''), d))\<rparr>"

definition clock_platform :: "int platform" where
  "clock_platform = demo_platform clock_client (\<lambda>d. d) (\<lambda>n d. d + n)"

definition clock_sys :: "int \<Rightarrow> int sys" where
  "clock_sys t = \<lparr>outside = t, stdout = [], stderr = []\<rparr>"

definition api_platform :: "Event list daemon option platform" where
  "api_platform = demo_platform (api_client demo_api Background) (\<lambda>_. 0) (\<lambda>_ d. d)"

section \<open>Properties\<close>

text \<open>C36: \<open>ensureDaemon\<close> always returns, on every clock that sleeping moves forward, and it waits for the daemon it
  started for five seconds and no longer: it returns before another poll (50 ms, and the time two calls take) is
  over, with a client and no error when the daemon answers from some instant on, one status call before the five
  seconds are over, and with the error that it did not become ready, after the five seconds, when it never
  answers.\<close>

theorem ensureDaemon_waits_for_daemon:
  assumes "clock_ok P socket \<delta>"
  shows "\<exists>res d'. ensureDaemon P socket d = Some (res, d') \<and>
    (\<forall>err d1 self d2. cl_Status (pl_client P) socket d = (Inl err, d1) \<and> pl_executable P = Inr self \<and> pl_devnull P = None \<and>
        pl_spawn P [self, ''serve'', ''--socket'', socket] d1 = (None, d2) \<longrightarrow>
      pl_clock P d' \<le> pl_clock P d2 + 5 * nano_s + 50 * nano_ms + 2 * \<delta> \<and>
      (\<forall>up booting. boots P socket up booting \<and> booting d2 \<and> up + \<delta> \<le> pl_clock P d2 + 5 * nano_s \<longrightarrow> res = None) \<and>
      (\<forall>down. stays_down P socket down \<and> down d2 \<longrightarrow>
         res = Some (Errorf ''daemon did not become ready at %s'' [socket] []) \<and> pl_clock P d2 + 5 * nano_s < pl_clock P d'))"
proof (cases "\<exists>err d1 self d2. cl_Status (pl_client P) socket d = (Inl err, d1) \<and> pl_executable P = Inr self \<and>
    pl_devnull P = None \<and> pl_spawn P [self, ''serve'', ''--socket'', socket] d1 = (None, d2)")
  case True
  then obtain err d1 self d2 where start: "cl_Status (pl_client P) socket d = (Inl err, d1)" "pl_executable P = Inr self"
    "pl_devnull P = None" "pl_spawn P [self, ''serve'', ''--socket'', socket] d1 = (None, d2)" by blast
  let ?deadline = "pl_clock P d2 + 5 * nano_s"
  have e: "ensureDaemon P socket d = wait_daemon P socket ?deadline d2" using start by (simp add: ensureDaemon_def)
  have "0 \<le> \<delta>" using clock_okD(2) [OF assms start(1)] by simp
  then obtain res d' where r: "wait_daemon P socket ?deadline d2 = Some (res, d')"
    and t: "pl_clock P d' \<le> ?deadline + 50 * nano_ms + 2 * \<delta>"
      "res = None \<or> res = Some (Errorf ''daemon did not become ready at %s'' [socket] []) \<and> ?deadline < pl_clock P d'"
    using wait_daemon_returns [OF assms, of d2 ?deadline] by auto
  have "res = None" if "boots P socket up booting" "booting d2" "up + \<delta> \<le> ?deadline" for up booting
    using wait_daemon_finds [OF assms that] r by simp
  moreover have "res \<noteq> None" if "stays_down P socket down" "down d2" for down
    using wait_daemon_gives_up [OF assms that, of ?deadline d'] r by auto
  ultimately have "\<forall>up booting. boots P socket up booting \<and> booting d2 \<and> up + \<delta> \<le> ?deadline \<longrightarrow> res = None"
    "\<forall>down. stays_down P socket down \<and> down d2 \<longrightarrow>
         res = Some (Errorf ''daemon did not become ready at %s'' [socket] []) \<and> ?deadline < pl_clock P d'"
    using t(2) by blast+
  with e r t(1) start show ?thesis by auto
next
  case False
  then show ?thesis by (auto simp: ensureDaemon_def split: prod.splits sum.splits option.splits)
qed

text \<open>C30: \<open>run\<close> cleans up after itself: with a daemon running, and a route name that is valid UTF-8 and none of the
  four that no request path can carry (the empty one, one dot, two dots, a slash), whatever the child does short of
  stopping or corrupting the daemon, however it ends, and also when no port is free or the name is taken, the
  daemon's table has for the route's name afterwards what it had before; a name in use fails the command and
  leaves its route alone.\<close>

theorem run_restores_table:
  assumes w: "well_behaved cfg a ctx P" and d: "outside s = Some d" "daemon_ok cfg a d" and n: "reachable_name name" and u: "ValidString name"
    and args: "cut args ''--'' = (before, cmd, True)" "cmd \<noteq> []"
      "parseFlags [socket_flag P, (''port-env'', StringFlag ''PORT'')] before = Inr ([name], fl)"
  shows "\<exists>res s' d'. cmdRun P args s = Some (res, s') \<and> outside s' = Some d' \<and> daemon_ok cfg a d' \<and>
     table d' (to_lower name) = table d (to_lower name) \<and>
     (table d (to_lower name) \<noteq> None \<longrightarrow> (\<exists>e. res = Some (CmdErr e)))"
proof -
  have "pl_client P = api_client a ctx" using w by (simp add: well_behaved_def)
  then have "cmdRun P args s = Some (run_route P (flag_string ''socket'' fl) name cmd (flag_string ''port-env'' fl)
      (s\<lparr>outside := Some d\<rparr>))"
    using args ensureDaemon_up [of P a ctx "flag_string ''socket'' fl" d] d by (simp add: cmdRun_def with_daemon_def)
  moreover obtain res s' where r: "run_route P (flag_string ''socket'' fl) name cmd (flag_string ''port-env'' fl)
      (s\<lparr>outside := Some d\<rparr>) = (res, s')" by fastforce
  ultimately show ?thesis using run_route_table [OF w _ d(2) n u r] by auto
qed

text \<open>\<open>alias\<close> is \<open>route add --tcp\<close>: with a daemon running, the two leave the same state outside and return the
  same error, for any name and address that do not start with a dash.\<close>

theorem alias_is_route_add_tcp:
  assumes "bare name" "bare addr"
    and "cl_Status (pl_client P) (DefaultSocketPath (pl_env P)) (outside s) = (Inr st, outside s)"
  shows "\<exists>s'. cmdAlias P [name, addr] s = Some (fst (routeAdd P [name, ''--tcp'', addr] s), s') \<and>
     outside s' = outside (snd (routeAdd P [name, ''--tcp'', addr] s))"
proof -
  let ?sock = "DefaultSocketPath (pl_env P)"
  from route_add_tcp_flags [OF assms(1,2)] obtain fl where
    fl: "splitName [name, ''--tcp'', addr] = Inr (name, [''--tcp'', addr])"
      "Parse (route_add_flags P) [''--tcp'', addr] = Inr (fl, [])"
      "flag_string ''tcp'' fl = addr" "flag_string ''socket'' fl = ?sock" by metis
  have e: "ensureDaemon P ?sock (outside s) = Some (None, outside s)" using assms(3) by (simp add: ensureDaemon_def)
  have sock: "flag_string ''socket'' [socket_flag P] = ?sock" by (simp add: flag_string_def socket_flag_def)
  have "addr \<noteq> []" using assms(2) by (simp add: bare_def)
  then show ?thesis
    using fl e sock Parse_two [OF assms(1,2), of "[socket_flag P]"]
    by (cases "ParseTCP_addr (pl_url_Parse P) (pl_services P) addr";
        cases "cl_AddRoute (pl_client P) ?sock (tcp_spec name addr) (outside s)"; cases "fst (cl_AddRoute (pl_client P) ?sock (tcp_spec name addr) (outside s))")
       (simp_all add: cmdAlias_def routeAdd_def route_spec_def with_daemon_def alias_add_def outside_do_def
          as_outcome_def tcp_spec_def Println_def)
qed

text \<open>\<open>doctor\<close> reports every name once, in the order given, the failures as such, and fails exactly when some name
  is not ready.\<close>

theorem doctor_reports_each_route:
  assumes "Parse [socket_flag P, (''timeout'', DurationFlag (30 * nano_s))] args = Inr (fl, names)"
    and "names \<noteq> []" and "cmdDoctor P args s = (res, s')"
  shows "\<exists>ls. stdout s' = stdout s @ ls \<and> map line_name ls = names \<and>
     map line_name (filter is_failure_line ls) =
       not_ready P (flag_string ''socket'' fl) (flag_duration ''timeout'' fl) names (outside s) \<and>
     (res = None \<longleftrightarrow> not_ready P (flag_string ''socket'' fl) (flag_duration ''timeout'' fl) names (outside s) = [])"
proof -
  obtain failed s2 where r: "doctor_loop P (flag_string ''socket'' fl) (flag_duration ''timeout'' fl) names s = (failed, s2)"
    by fastforce
  with assms have "s' = s2" "res = None \<longleftrightarrow> failed = 0"
    by (auto simp: cmdDoctor_def doctor_names_def split: if_splits)
  with doctor_loop_lines [OF r] show ?thesis by (metis length_0_conv length_map)
qed

section \<open>The properties on concrete commands\<close>

theorem ensureDaemon_waits_for_daemon_witness:
  "(\<exists>d'. ensureDaemon clock_platform ''/s'' 0 = Some (None, d')) \<and>
   (\<exists>e d'. ensureDaemon (clock_platform\<lparr>pl_client := dead_client\<rparr>) ''/s'' 0 = Some (Some e, d') \<and> 5 * nano_s < d')"
proof -
  let ?P = "clock_platform\<lparr>pl_client := dead_client\<rparr>"
  note d = clock_platform_def demo_platform_def clock_client_def dead_client_def
  have c: "clock_ok clock_platform ''/s'' 0" "clock_ok ?P ''/s'' 0" by (auto simp: clock_ok_def d)
  have up: "boots clock_platform ''/s'' nano_s (\<lambda>_. True)" by (auto simp: boots_def d split: if_splits)
  have down: "stays_down ?P ''/s'' (\<lambda>_. True)" by (auto simp: stays_down_def d)
  have start: "cl_Status (pl_client clock_platform) ''/s'' 0 = (Inl (ErrNew ''refused''), 0)"
    "pl_executable clock_platform = Inr ''portless''" "pl_devnull clock_platform = None"
    "pl_spawn clock_platform [''portless'', ''serve'', ''--socket'', ''/s''] 0 = (None, 0)" "pl_clock clock_platform 0 = 0"
    "cl_Status (pl_client ?P) ''/s'' 0 = (Inl (ErrNew ''refused''), 0)"
    "pl_executable ?P = Inr ''portless''" "pl_devnull ?P = None"
    "pl_spawn ?P [''portless'', ''serve'', ''--socket'', ''/s''] 0 = (None, 0)" "\<And>t. pl_clock ?P t = t"
    by (simp_all add: d)
  from ensureDaemon_waits_for_daemon [OF c(1), of 0] start up
  have "\<exists>d'. ensureDaemon clock_platform ''/s'' 0 = Some (None, d')" by fastforce
  moreover from ensureDaemon_waits_for_daemon [OF c(2), of 0] start down
  have "\<exists>e d'. ensureDaemon ?P ''/s'' 0 = Some (Some e, d') \<and> 5 * nano_s < d'" by fastforce
  ultimately show ?thesis ..
qed

theorem run_restores_table_witness:
  "\<exists>res s' d'. cmdRun api_platform [''web'', ''--'', ''true''] \<lparr>outside = Some demo_daemon, stdout = [], stderr = []\<rparr>
      = Some (res, s') \<and> outside s' = Some d' \<and> table d' ''web'' = None"
proof -
  have w: "well_behaved (New_config []) demo_api Background api_platform"
    by (auto simp: well_behaved_def api_platform_def demo_platform_def demo_api_def)
  have p: "parseFlags [socket_flag api_platform, (''port-env'', StringFlag ''PORT'')] [''web'']
      = Inr ([''web''], [socket_flag api_platform, (''port-env'', StringFlag ''PORT'')])"
    using parseFlags_items [of _ "[Positional ''web'']"] by (simp add: bare_def)
  have "table demo_daemon k = None" for k
    by (simp add: demo_daemon_def table_def published_def registry_New_def)
  moreover have "to_lower ''web'' = ''web''" by (simp add: to_lower_def lower_char_def byte_def)
  moreover have "ValidString ''web''" by (rule ValidString_ascii) (simp add: byte_def)
  ultimately show ?thesis
    using run_restores_table [OF w, of "\<lparr>outside = Some demo_daemon, stdout = [], stderr = []\<rparr>" demo_daemon "''web''"
        "[''web'', ''--'', ''true'']" "[''web'']" "[''true'']", OF _ demo_daemon_ok _ _ _ _ p] by auto
qed

theorem alias_is_route_add_tcp_witness:
  "\<exists>s'. cmdAlias clock_platform [''web'', ''h:1''] (clock_sys nano_s)
     = Some (fst (routeAdd clock_platform [''web'', ''--tcp'', ''h:1''] (clock_sys nano_s)), s')"
proof -
  have "cl_Status (pl_client clock_platform) (DefaultSocketPath (pl_env clock_platform)) (outside (clock_sys nano_s))
      = (Inr demo_status, outside (clock_sys nano_s))"
    by (simp add: clock_platform_def demo_platform_def clock_client_def clock_sys_def)
  from alias_is_route_add_tcp [OF _ _ this, of "''web''" "''h:1''"] show ?thesis by (auto simp: bare_def)
qed

theorem doctor_reports_each_route_witness:
  "\<exists>ls. stdout (snd (cmdDoctor clock_platform [''a'', ''b''] (clock_sys nano_s))) = ls \<and> map line_name ls = [''a'', ''b'']
     \<and> map line_name (filter is_failure_line ls) = [''b'']"
proof -
  have p: "Parse [socket_flag clock_platform, (''timeout'', DurationFlag (30 * nano_s))]
      [''a'', ''b''] = Inr ([socket_flag clock_platform, (''timeout'', DurationFlag (30 * nano_s))], [''a'', ''b''])"
    by (rule Parse_bare) (simp add: bare_def)
  obtain res s' where r: "cmdDoctor clock_platform [''a'', ''b''] (clock_sys nano_s) = (res, s')" by fastforce
  from doctor_reports_each_route [OF p _ this] r show ?thesis
    by (auto simp: clock_platform_def demo_platform_def clock_client_def clock_sys_def)
qed

section \<open>Where the commands differ from their documentation\<close>

text \<open>\<open>route\<close> never starts a daemon: without one every subcommand fails, whatever spawning would do.\<close>

theorem route_never_starts_a_daemon:
  assumes P: "pl_client P = api_client a ctx" and s: "outside s = None"
  shows "fst (cmdRoute P args s) \<noteq> None \<and> outside (snd (cmdRoute P args s)) = None"
proof -
  have "\<exists>e. outside_do (cl_AddRoute (pl_client P) socket spec) s = (Some e, s)" for socket spec
    using s by (cases "marshal_RouteSpec spec") (simp_all add: P api_client_def client_AddRoute_def ask_def client_do_def outside_do_def)
  then obtain ea where add: "\<And>socket spec. outside_do (cl_AddRoute (pl_client P) socket spec) s = (Some (ea socket spec), s)"
    by metis
  obtain er where rm: "\<And>socket n. outside_do (cl_RemoveRoute (pl_client P) socket n) s = (Some (er n), s)"
    using s by (simp add: P api_client_def client_RemoveRoute_def ask_def client_do_def outside_do_def)
  obtain el where ls: "\<And>socket. outside_do (cl_Routes (pl_client P) socket) s = (Inl el, s)"
    using s by (simp add: P api_client_def client_Routes_def ask_def client_get_def client_do_def outside_do_def)
  have a: "\<exists>e. routeAdd P rest s = (Some e, s)" for rest
  proof (cases "splitName rest")
    case (Inr nf)
    then show ?thesis
      by (cases nf; cases "Parse (route_add_flags P) (snd nf)")
         (auto simp: routeAdd_def as_outcome_def add split: sum.splits)
  qed (simp add: routeAdd_def)
  have r: "\<exists>e. routeRm P rest s = (Some e, s)" for rest
  proof (cases "splitName rest")
    case (Inr nf)
    then show ?thesis
      by (cases nf; cases "Parse [socket_flag P] (snd nf)") (auto simp: routeRm_def as_outcome_def rm)
  qed (simp add: routeRm_def)
  have l: "\<exists>e. routeList P rest s = (Some e, s)" for rest
    by (cases "Parse [socket_flag P, (''json'', BoolFlag False)] rest") (auto simp: routeList_def ls)
  have "\<exists>e. cmdRoute P args s = (Some e, s)" using a r l by (cases args) (simp_all add: cmdRoute_def)
  with s show ?thesis by auto
qed

text \<open>\<open>doctor\<close> takes what follows its first name for names: a timeout written there is probed as two routes.\<close>

lemma doctor_names_lines:
  assumes "Parse [socket_flag P, (''timeout'', DurationFlag (30 * nano_s))] args = Inr (fl, names)"
    and "names \<noteq> []"
  shows "\<exists>ls. stdout (snd (cmdDoctor P args s)) = stdout s @ ls \<and> map line_name ls = names"
proof -
  obtain failed s' where r: "doctor_loop P (flag_string ''socket'' fl) (flag_duration ''timeout'' fl) names s = (failed, s')"
    by fastforce
  with assms have "snd (cmdDoctor P args s) = s'" by (simp add: cmdDoctor_def doctor_names_def)
  with doctor_loop_lines [OF r] show ?thesis by blast
qed

theorem doctor_probes_a_late_flag:
  "\<exists>ls. stdout (snd (cmdDoctor P [''web'', ''--timeout'', ''60s''] s)) = stdout s @ ls
     \<and> map line_name ls = [''web'', ''--timeout'', ''60s'']"
  by (rule doctor_names_lines [OF Parse_bare]) (simp_all add: bare_def)

text \<open>\<open>route rm\<close> drops a second argument and every flag after it, also a \<open>--socket\<close>: the name is removed from the
  daemon at the default path.\<close>

theorem route_rm_drops_late_flags:
  "routeRm P [''web'', ''x'', ''--socket'', ''/other''] s =
     as_outcome (outside_do (cl_RemoveRoute (pl_client P) (DefaultSocketPath (pl_env P)) ''web'') s)"
proof -
  have "Parse [socket_flag P] [''x'', ''--socket'', ''/other''] = Inr ([socket_flag P], [''x'', ''--socket'', ''/other''])"
    by (rule Parse_bare) (simp add: bare_def)
  moreover have "splitName [''web'', ''x'', ''--socket'', ''/other''] = Inr (''web'', [''x'', ''--socket'', ''/other''])" by code_simp
  ultimately show ?thesis by (simp add: routeRm_def flag_string_def socket_flag_def)
qed

end
