(* ===== verification/Serve.thy ===== *)
theory Serve
  imports Cli_Props
begin

text \<open>
  The daemon process: \<open>cmdServe\<close> and \<open>runServe\<close> of \<open>cmd/portless/serve.go\<close>. \<open>runServe\<close> is given the
  outcome of every call it makes and returns its exit code and the list of its actions, deferred ones included,
  in the order in which they happen.
\<close>

section \<open>serve.go\<close>

record serveOptions =
  so_socket :: string
  so_proxyAddr :: string
  so_tls :: bool
  so_stateDir :: string

text \<open>
  \<open>se_end\<close> is what the final \<open>select\<close> sees: the context's end (\<open>None\<close>), or the value that the control server
  returned first.
\<close>

record serve_env =
  se_load :: "string \<Rightarrow> goerr option"
  se_proxy :: "string \<Rightarrow> goerr + string"
  se_mkdir :: "string \<Rightarrow> goerr option"
  se_remove :: "goerr option"
  se_found :: entry
  se_listen :: "goerr option"
  se_chmod :: "goerr option"
  se_end :: "goerr option option"

datatype serve_action =
    NewRegistry | StartProxy string bool | ListenSocket string | ChmodSocket string | ServeControl string
  | CloseServer | AwaitServer | RemoveSocket string | CloseProxy | CloseRegistry
  | SayOut printed | SayErr printed

text \<open>The select at the end; \<open>AwaitServer\<close> is the receipt of what \<open>Serve\<close> returned, and \<open>proxyAddr\<close> what the
  control server will report.\<close>

definition run_server :: "serve_env \<Rightarrow> serveOptions \<Rightarrow> string \<Rightarrow> int \<times> serve_action list" where
  "run_server e opts proxyAddr =
     (let acts = [SayOut (Line ''control socket at %s'' [so_socket opts]), ServeControl proxyAddr] in
      case se_end e of
        None \<Rightarrow> (0, acts @ [CloseServer, AwaitServer])
      | Some (Some err) \<Rightarrow> (1, acts @ [AwaitServer, SayErr (ErrLine ''portless: control server: %v'' [] err)])
      | Some None \<Rightarrow> (0, acts @ [AwaitServer]))"

definition run_control :: "serve_env \<Rightarrow> serveOptions \<Rightarrow> string \<Rightarrow> int \<times> serve_action list" where
  "run_control e opts proxyAddr =
     (case fst (EnsureSocketDir (so_socket opts) (se_mkdir e) (se_remove e) (se_found e)) of
        Some err \<Rightarrow> (1, [SayErr (ErrLine ''portless: %v'' [] err)])
      | None \<Rightarrow>
          (case se_listen e of
             Some err \<Rightarrow> (1, [SayErr (ErrLine ''portless: listen control socket: %v'' [] err)])
           | None \<Rightarrow>
               (case se_chmod e of
                  Some err \<Rightarrow> (1, [ListenSocket (so_socket opts), SayErr (ErrLine ''portless: chmod control socket: %v'' [] err)])
                | None \<Rightarrow>
                    (case run_server e opts proxyAddr of (code, acts) \<Rightarrow>
                       (code, [ListenSocket (so_socket opts), ChmodSocket (so_socket opts)] @ acts @ [RemoveSocket (so_socket opts)])))))"

definition run_proxy :: "serve_env \<Rightarrow> serveOptions \<Rightarrow> int \<times> serve_action list" where
  "run_proxy e opts =
     (if so_proxyAddr opts = [] then run_control e opts []
      else case (if so_tls opts then se_load e (so_stateDir opts) else None) of
        Some err \<Rightarrow> (1, [SayErr (ErrLine ''portless: load CA: %v'' [] err)])
      | None \<Rightarrow>
          (case se_proxy e (so_proxyAddr opts) of
             Inl err \<Rightarrow> (1, [SayErr (ErrLine ''portless: %v'' [] err)])
           | Inr addr \<Rightarrow>
               (case run_control e opts addr of (code, acts) \<Rightarrow>
                  (code, [StartProxy addr (so_tls opts),
                          SayOut (Line ''proxy listening on %s (%s://<name> routes)'' [addr, if so_tls opts then ''https'' else ''http''])]
                         @ acts @ [CloseProxy]))))"

definition runServe :: "serve_env \<Rightarrow> serveOptions \<Rightarrow> int \<times> serve_action list" where
  "runServe e opts = (case run_proxy e opts of (code, acts) \<Rightarrow> (code, NewRegistry # acts @ [CloseRegistry]))"

definition serve_flags :: "'d platform \<Rightarrow> flags" where
  "serve_flags P = [socket_flag P, (''proxy'', StringFlag ''127.0.0.1:0''), (''no-proxy'', BoolFlag False),
     (''tls'', BoolFlag False), (''state-dir'', StringFlag (DefaultStateDir (pl_env P)))]"

definition serve_options :: "flags \<Rightarrow> serveOptions" where
  "serve_options fs = \<lparr>so_socket = flag_string ''socket'' fs,
     so_proxyAddr = (if flag_bool ''no-proxy'' fs then [] else flag_string ''proxy'' fs),
     so_tls = flag_bool ''tls'' fs, so_stateDir = flag_string ''state-dir'' fs\<rparr>"

text \<open>The outcomes depend on the world, and running leaves another one.\<close>

fun say :: "serve_action \<Rightarrow> 'd sys \<Rightarrow> 'd sys" where
  "say (SayOut l) s = Println l s"
| "say (SayErr l) s = Eprintln l s"
| "say a s = s"

definition cmdServe :: "'d platform \<Rightarrow> (serveOptions \<Rightarrow> 'd \<Rightarrow> serve_env \<times> 'd) \<Rightarrow> string list \<Rightarrow> 'd sys \<Rightarrow> 'd outcome" where
  "cmdServe P serve args s =
     (case Parse (serve_flags P) args of
        Inl err \<Rightarrow> (Some (CmdErr err), s)
      | Inr (fs, _) \<Rightarrow>
          (case outside_do (serve (serve_options fs)) s of (e, s1) \<Rightarrow>
           (case runServe e (serve_options fs) of (code, acts) \<Rightarrow>
              (if code \<noteq> 0 then Some (CmdErr (Errorf ''daemon exited with code %d'' [itoa code] [])) else None,
               fold say acts s1))))"

section \<open>Lemmas\<close>

text \<open>What \<open>runServe\<close> does, without what it prints.\<close>

fun effect :: "serve_action \<Rightarrow> bool" where
  "effect (SayOut l) = False"
| "effect (SayErr l) = False"
| "effect a = True"

abbreviation server_effects :: "serve_env \<Rightarrow> string \<Rightarrow> serve_action list" where
  "server_effects e p \<equiv> ServeControl p # (if se_end e = None then [CloseServer] else []) @ [AwaitServer]"

lemma run_server_acts:
  assumes "run_server e opts p = (code, acts)"
  shows "filter effect acts = server_effects e p" and "code = 0 \<longleftrightarrow> (\<forall>err. se_end e \<noteq> Some (Some err))"
  using assms by (auto simp: run_server_def Let_def split: option.splits)

text \<open>The socket can be served: every step before the server succeeds.\<close>

definition socket_ready :: "serve_env \<Rightarrow> serveOptions \<Rightarrow> bool" where
  "socket_ready e opts \<longleftrightarrow> fst (EnsureSocketDir (so_socket opts) (se_mkdir e) (se_remove e) (se_found e)) = None
     \<and> se_listen e = None \<and> se_chmod e = None"

definition proxy_ready :: "serve_env \<Rightarrow> serveOptions \<Rightarrow> bool" where
  "proxy_ready e opts \<longleftrightarrow> so_proxyAddr opts = [] \<or>
     ((so_tls opts \<longrightarrow> se_load e (so_stateDir opts) = None) \<and> \<not> isl (se_proxy e (so_proxyAddr opts)))"

lemma in_effects: "effect a \<Longrightarrow> a \<in> set acts \<longleftrightarrow> a \<in> set (filter effect acts)"
  by simp

lemma run_control_acts:
  assumes "run_control e opts p = (code, acts)"
  shows "socket_ready e opts \<Longrightarrow> filter effect acts =
      [ListenSocket (so_socket opts), ChmodSocket (so_socket opts)] @ server_effects e p @ [RemoveSocket (so_socket opts)]"
    and "\<not> socket_ready e opts \<Longrightarrow> set (filter effect acts) \<subseteq> {ListenSocket (so_socket opts)}"
    and "code = 0 \<longleftrightarrow> socket_ready e opts \<and> (\<forall>err. se_end e \<noteq> Some (Some err))"
proof -
  obtain c xs where r: "run_server e opts p = (c, xs)" by fastforce
  note rs = run_server_acts [OF r]
  show "filter effect acts = [ListenSocket (so_socket opts), ChmodSocket (so_socket opts)] @ server_effects e p @
      [RemoveSocket (so_socket opts)]" if "socket_ready e opts"
  proof -
    have "acts = [ListenSocket (so_socket opts), ChmodSocket (so_socket opts)] @ xs @ [RemoveSocket (so_socket opts)]"
      using assms that r by (simp add: run_control_def socket_ready_def)
    with rs(1) show ?thesis by simp
  qed
  show "set (filter effect acts) \<subseteq> {ListenSocket (so_socket opts)}" if "\<not> socket_ready e opts"
    using assms that by (auto simp: run_control_def socket_ready_def split: option.splits prod.splits)
  show "code = 0 \<longleftrightarrow> socket_ready e opts \<and> (\<forall>err. se_end e \<noteq> Some (Some err))"
    using assms r rs(2) by (auto simp: run_control_def socket_ready_def split: option.splits)
qed

lemma run_proxy_acts:
  assumes "run_proxy e opts = (code, acts)"
  shows "\<not> proxy_ready e opts \<Longrightarrow> filter effect acts = [] \<and> code = 1"
    and "proxy_ready e opts \<Longrightarrow> \<exists>p xs. run_control e opts p = (code, xs) \<and>
      (if so_proxyAddr opts = [] then p = [] \<and> acts = xs
       else se_proxy e (so_proxyAddr opts) = Inr p \<and>
         filter effect acts = StartProxy p (so_tls opts) # filter effect xs @ [CloseProxy])"
  using assms
  by (auto simp: run_proxy_def proxy_ready_def split: if_splits option.splits sum.splits prod.splits)

section \<open>One socket, several daemons\<close>

text \<open>
  The socket file names the daemon that bound it. A daemon that boots prepares the path with \<open>EnsureSocketDir\<close>
  and binds it; one that halts removes the file at the path, as \<open>runServe\<close> does.
\<close>

record socket_path =
  bound_to :: "nat option"
  running :: "nat set"

definition boot :: "nat \<Rightarrow> socket_path \<Rightarrow> socket_path" where
  "boot i st =
     (case EnsureSocketDir ''/run/portless.sock'' (\<lambda>_. None) None (if bound_to st = None then NoEntry else SocketFile) of
        (None, NoEntry) \<Rightarrow> \<lparr>bound_to = Some i, running = insert i (running st)\<rparr>
      | _ \<Rightarrow> st)"

definition halt :: "nat \<Rightarrow> socket_path \<Rightarrow> socket_path" where
  "halt i st = (if i \<in> running st then \<lparr>bound_to = None, running = running st - {i}\<rparr> else st)"

section \<open>Properties\<close>

text \<open>C34: The daemon serves its control API exactly when the proxy and the socket are ready. It then does this, in
  this order and nothing else: start the proxy it was asked for, whose address it announces, bind the socket, make it
  private, serve; close the server if it was told to stop, and wait until the server has returned; only then remove
  the socket file, close the proxy it started, and the registry last. Where it does not serve, it still closes the
  proxy if it started it, and the registry last. The exit code is zero exactly when all of it worked and the
  server ended without an error.\<close>

theorem serve_is_guarded_and_cleans_up:
  assumes "runServe e opts = (code, acts)"
  shows "((\<exists>p. ServeControl p \<in> set acts) \<longleftrightarrow> proxy_ready e opts \<and> socket_ready e opts) \<and>
     (\<forall>p. ServeControl p \<in> set acts \<longrightarrow>
        (if so_proxyAddr opts = [] then p = [] else se_proxy e (so_proxyAddr opts) = Inr p) \<and>
        filter effect acts = [NewRegistry] @
          (if so_proxyAddr opts = [] then [] else [StartProxy p (so_tls opts)]) @
          [ListenSocket (so_socket opts), ChmodSocket (so_socket opts), ServeControl p] @
          (if se_end e = None then [CloseServer] else []) @ [AwaitServer, RemoveSocket (so_socket opts)] @
          (if so_proxyAddr opts = [] then [] else [CloseProxy]) @ [CloseRegistry]) \<and>
     (CloseProxy \<in> set acts \<longleftrightarrow> (\<exists>a t. StartProxy a t \<in> set acts)) \<and>
     (CloseProxy \<in> set acts \<longrightarrow> last (butlast (filter effect acts)) = CloseProxy) \<and> last acts = CloseRegistry \<and>
     (code = 0 \<longleftrightarrow> proxy_ready e opts \<and> socket_ready e opts \<and> (\<forall>err. se_end e \<noteq> Some (Some err)))"
proof -
  obtain xs where r: "run_proxy e opts = (code, xs)" and acts: "acts = NewRegistry # xs @ [CloseRegistry]"
    using assms by (auto simp: runServe_def split: prod.splits)
  note rp = run_proxy_acts [OF r]
  define F where "F = filter effect acts"
  have f: "F = NewRegistry # filter effect xs @ [CloseRegistry]" by (simp add: F_def acts)
  have m: "ServeControl p \<in> set acts \<longleftrightarrow> ServeControl p \<in> set F" "CloseProxy \<in> set acts \<longleftrightarrow> CloseProxy \<in> set F"
    "StartProxy q t \<in> set acts \<longleftrightarrow> StartProxy q t \<in> set F" for p q t by (simp_all add: F_def)
  have l: "last acts = CloseRegistry" by (simp add: acts)
  show ?thesis
  proof (cases "proxy_ready e opts")
    case False
    with rp(1) f show ?thesis unfolding m F_def [symmetric] by (simp add: l)
  next
    case True
    from rp(2) [OF this] obtain p ys where c: "run_control e opts p = (code, ys)"
      and p: "if so_proxyAddr opts = [] then p = [] \<and> xs = ys
       else se_proxy e (so_proxyAddr opts) = Inr p \<and>
         filter effect xs = StartProxy p (so_tls opts) # filter effect ys @ [CloseProxy]" by blast
    define G where "G = filter effect ys"
    note rc = run_control_acts [OF c, folded G_def]
    from f p have F: "F = (if so_proxyAddr opts = [] then NewRegistry # G @ [CloseRegistry]
        else NewRegistry # StartProxy p (so_tls opts) # G @ [CloseProxy, CloseRegistry])"
      and addr: "if so_proxyAddr opts = [] then p = [] else se_proxy e (so_proxyAddr opts) = Inr p"
      by (auto simp: G_def split: if_splits)
    show ?thesis
    proof (cases "socket_ready e opts")
      case sock: True
      show ?thesis unfolding m F_def [symmetric] F rc(1) [OF sock]
        using True sock rc(3) addr by (auto simp: l)
    next
      case sock: False
      show ?thesis unfolding m F_def [symmetric] F
        using True sock rc(2) [OF sock] rc(3) addr by (auto simp: l butlast_append)
    qed
  qed
qed

text \<open>A daemon without trouble.\<close>

definition calm_env :: serve_env where
  "calm_env = \<lparr>se_load = (\<lambda>_. None), se_proxy = (\<lambda>_. Inr ''127.0.0.1:4000''), se_mkdir = (\<lambda>_. None), se_remove = None,
     se_found = NoEntry, se_listen = None, se_chmod = None, se_end = None\<rparr>"

definition calm_options :: serveOptions where
  "calm_options = \<lparr>so_socket = ''/s'', so_proxyAddr = ''127.0.0.1:0'', so_tls = True, so_stateDir = ''/d''\<rparr>"

theorem serve_is_guarded_and_cleans_up_witness:
  "fst (runServe calm_env calm_options) = 0 \<and>
   filter effect (snd (runServe calm_env calm_options)) =
     [NewRegistry, StartProxy ''127.0.0.1:4000'' True, ListenSocket ''/s'', ChmodSocket ''/s'', ServeControl ''127.0.0.1:4000'',
      CloseServer, AwaitServer, RemoveSocket ''/s'', CloseProxy, CloseRegistry]"
proof -
  obtain code acts where r: "runServe calm_env calm_options = (code, acts)" by fastforce
  have "proxy_ready calm_env calm_options" "socket_ready calm_env calm_options"
    by (simp_all add: proxy_ready_def socket_ready_def calm_env_def calm_options_def EnsureSocketDir_def)
  with serve_is_guarded_and_cleans_up [OF r] r show ?thesis by (auto simp: calm_env_def calm_options_def)
qed

text \<open>A failing chmod leaves the bound socket behind: nothing removes it.\<close>

theorem failed_chmod_leaves_the_socket:
  assumes "proxy_ready e opts" and "fst (EnsureSocketDir (so_socket opts) (se_mkdir e) (se_remove e) (se_found e)) = None"
    and "se_listen e = None" and "se_chmod e = Some err"
  shows "ListenSocket (so_socket opts) \<in> set (snd (runServe e opts)) \<and>
    RemoveSocket (so_socket opts) \<notin> set (snd (runServe e opts))"
  using assms by (auto simp: runServe_def run_proxy_def run_control_def proxy_ready_def split: sum.splits option.splits)

text \<open>A second daemon on the same path takes the socket from the first, which keeps running out of reach; and when
  the first one halts it removes the second one's socket.\<close>

theorem second_daemon_takes_the_socket:
  "boot 2 (boot 1 \<lparr>bound_to = None, running = {}\<rparr>) = \<lparr>bound_to = Some 2, running = {1, 2}\<rparr> \<and>
   halt 1 (boot 2 (boot 1 \<lparr>bound_to = None, running = {}\<rparr>)) = \<lparr>bound_to = None, running = {2}\<rparr>"
  by (auto simp: boot_def halt_def EnsureSocketDir_def)

end
