(* ===== verification/Ca_Cmd.thy ===== *)
theory Ca_Cmd
  imports Cli_Props
begin

text \<open>
  \<open>portless ca\<close> (\<open>cmd/portless/ca.go\<close>): the path of the local CA, and its installation in the trust store of
  the operating system, which asks first. \<open>ca.Load\<close>, the terminal and the commands it executes are the platform.
\<close>

section \<open>Platform\<close>

record 'd ca_platform =
  cp_base :: "'d platform"
  cp_load :: "string \<Rightarrow> 'd \<Rightarrow> goerr option \<times> 'd"       \<comment> \<open>\<open>ca.Load\<close> of a directory\<close>
  cp_terminal :: bool                                  \<comment> \<open>standard input is a terminal\<close>
  cp_input :: string                                   \<comment> \<open>the line it holds\<close>
  cp_exec :: "string list \<Rightarrow> 'd \<Rightarrow> goerr option \<times> 'd"    \<comment> \<open>\<open>execCmd\<close>\<close>

definition caStateDir :: "'d ca_platform \<Rightarrow> string \<times> flag_value" where
  "caStateDir P = (''state-dir'', StringFlag (DefaultStateDir (pl_env (cp_base P))))"

section \<open>ca.go\<close>

definition caPath :: "'d ca_platform \<Rightarrow> string list \<Rightarrow> 'd sys \<Rightarrow> 'd outcome" where
  "caPath P args s =
     (case Parse [caStateDir P] args of
        Inl err \<Rightarrow> (Some (CmdErr err), s)
      | Inr (fs, _) \<Rightarrow>
          (case outside_do (cp_load P (flag_string ''state-dir'' fs)) s of
             (Some err, s1) \<Rightarrow> (Some (CmdErr err), s1)
           | (None, s1) \<Rightarrow> (None, Println (Line ''%s'' [filepath_Join [flag_string ''state-dir'' fs, ''ca.crt'']]) s1)))"

definition confirm :: "'d ca_platform \<Rightarrow> string \<Rightarrow> bool \<Rightarrow> 'd sys \<Rightarrow> (goerr + bool) \<times> 'd sys" where
  "confirm P prompt assumeYes s =
     (if assumeYes then (Inr True, s)
      else if \<not> cp_terminal P then (Inl (ErrNew ''not a terminal; re-run with --yes to confirm''), s)
      else let line = to_lower (trim_space (cp_input P)) in
        (Inr (line = ''y'' \<or> line = ''yes''), Println (Line ''%s [y/N]: '' [prompt]) s))"

definition linux_anchor :: string where
  "linux_anchor = ''/usr/local/share/ca-certificates/portless.crt''"

definition trustInstall :: "'d ca_platform \<Rightarrow> string \<Rightarrow> 'd \<Rightarrow> goerr option \<times> 'd" where
  "trustInstall P crt d =
     (let goos = env_goos (pl_env (cp_base P)) in
      if goos = ''darwin'' then
        cp_exec P [''security'', ''add-trusted-cert'', ''-d'', ''-r'', ''trustRoot'', ''-k'', ''/Library/Keychains/System.keychain'', crt] d
      else if goos = ''linux'' then
        (case cp_exec P [''sudo'', ''cp'', crt, linux_anchor] d of
           (Some err, d1) \<Rightarrow> (Some err, d1)
         | (None, d1) \<Rightarrow> cp_exec P [''sudo'', ''update-ca-certificates''] d1)
      else (Some (Errorf ''automatic install not supported on %s'' [goos] []), d))"

definition trustUninstall :: "'d ca_platform \<Rightarrow> string \<Rightarrow> 'd \<Rightarrow> goerr option \<times> 'd" where
  "trustUninstall P crt d =
     (let goos = env_goos (pl_env (cp_base P)) in
      if goos = ''darwin'' then cp_exec P [''security'', ''remove-trusted-cert'', ''-d'', crt] d
      else if goos = ''linux'' then
        (case cp_exec P [''sudo'', ''rm'', ''-f'', linux_anchor] d of
           (Some err, d1) \<Rightarrow> (Some err, d1)
         | (None, d1) \<Rightarrow> cp_exec P [''sudo'', ''update-ca-certificates'', ''--fresh''] d1)
      else (Some (Errorf ''automatic uninstall not supported on %s'' [goos] []), d))"

definition printManualTrust :: "'d ca_platform \<Rightarrow> string \<Rightarrow> 'd sys \<Rightarrow> 'd sys" where
  "printManualTrust P crt s =
     (let goos = env_goos (pl_env (cp_base P)) in
      fold Eprintln
        ([Line ''Trust the CA manually:'' []]
         @ (if goos = ''darwin'' then
              [Line ''  sudo security add-trusted-cert -d -r trustRoot -k /Library/Keychains/System.keychain %s'' [crt]]
            else if goos = ''linux'' then
              [Line ''  sudo cp %s /usr/local/share/ca-certificates/portless.crt && sudo update-ca-certificates'' [crt]]
            else [])
         @ [Line ''Or point tools at it directly: curl --cacert %s / NODE_EXTRA_CA_CERTS=%s'' [crt, crt]]) s)"

definition ca_yes_flags :: "'d ca_platform \<Rightarrow> flags" where
  "ca_yes_flags P = [caStateDir P, (''yes'', BoolFlag False)]"

text \<open>\<open>caInstall\<close> once the flags are parsed.\<close>

definition install_trust :: "'d ca_platform \<Rightarrow> string \<Rightarrow> bool \<Rightarrow> 'd sys \<Rightarrow> 'd outcome" where
  "install_trust P dir yes s =
     (case outside_do (cp_load P dir) s of
        (Some err, s1) \<Rightarrow> (Some (CmdErr err), s1)
      | (None, s1) \<Rightarrow>
          let crt = filepath_Join [dir, ''ca.crt''] in
          (case confirm P (''Add the portless CA ('' @ crt @
               '') to your OS trust store? This changes system trust and may prompt for your password.'') yes s1 of
             (Inl err, s2) \<Rightarrow> (Some (CmdErr err), s2)
           | (Inr False, s2) \<Rightarrow> (None, Println (Line ''aborted'' []) s2)
           | (Inr True, s2) \<Rightarrow>
               (case outside_do (trustInstall P crt) s2 of
                  (Some err, s3) \<Rightarrow>
                    (Some (CmdErr (ErrNew ''ca install: could not update the trust store automatically'')),
                     printManualTrust P crt (Eprintln (ErrLine ''portless: automatic install failed: %v'' [] err) s3))
                | (None, s3) \<Rightarrow> (None, Println (Line ''portless CA installed. https://<name> routes now verify.'' []) s3))))"

definition caInstall :: "'d ca_platform \<Rightarrow> string list \<Rightarrow> 'd sys \<Rightarrow> 'd outcome" where
  "caInstall P args s =
     (case Parse (ca_yes_flags P) args of
        Inl err \<Rightarrow> (Some (CmdErr err), s)
      | Inr (fs, _) \<Rightarrow> install_trust P (flag_string ''state-dir'' fs) (flag_bool ''yes'' fs) s)"

definition uninstall_trust :: "'d ca_platform \<Rightarrow> string \<Rightarrow> bool \<Rightarrow> 'd sys \<Rightarrow> 'd outcome" where
  "uninstall_trust P dir yes s =
     (let crt = filepath_Join [dir, ''ca.crt''] in
      case confirm P ''Remove the portless CA from your OS trust store?'' yes s of
        (Inl err, s1) \<Rightarrow> (Some (CmdErr err), s1)
      | (Inr False, s1) \<Rightarrow> (None, Println (Line ''aborted'' []) s1)
      | (Inr True, s1) \<Rightarrow>
          (case outside_do (trustUninstall P crt) s1 of
             (Some err, s2) \<Rightarrow> (Some (CmdErr (Errorf ''ca uninstall: %w'' [] [err])), s2)
           | (None, s2) \<Rightarrow> (None, Println (Line ''portless CA removed.'' []) s2)))"

definition caUninstall :: "'d ca_platform \<Rightarrow> string list \<Rightarrow> 'd sys \<Rightarrow> 'd outcome" where
  "caUninstall P args s =
     (case Parse (ca_yes_flags P) args of
        Inl err \<Rightarrow> (Some (CmdErr err), s)
      | Inr (fs, _) \<Rightarrow> uninstall_trust P (flag_string ''state-dir'' fs) (flag_bool ''yes'' fs) s)"

definition cmdCA :: "'d ca_platform \<Rightarrow> string list \<Rightarrow> 'd sys \<Rightarrow> 'd outcome" where
  "cmdCA P args s =
     (case args of
        [] \<Rightarrow> (Some (CmdErr (ErrNew ''ca: expected subcommand: path | install | uninstall'')), s)
      | sub # rest \<Rightarrow>
          if sub = ''path'' then caPath P rest s
          else if sub = ''install'' then caInstall P rest s
          else if sub = ''uninstall'' then caUninstall P rest s
          else (Some (CmdErr (Errorf ''ca: unknown subcommand %q'' [sub] [])), s))"

section \<open>Consent\<close>

text \<open>The user agreed: by a flag, or at a terminal.\<close>

definition consents :: "'d ca_platform \<Rightarrow> bool \<Rightarrow> bool" where
  "consents P yes \<longleftrightarrow> yes \<or> (cp_terminal P \<and> to_lower (trim_space (cp_input P)) \<in> {''y'', ''yes''})"

definition says_yes :: "'d ca_platform \<Rightarrow> string list \<Rightarrow> bool" where
  "says_yes P args = (case Parse (ca_yes_flags P) args of
     Inl _ \<Rightarrow> False | Inr (fs, _) \<Rightarrow> flag_bool ''yes'' fs)"

text \<open>\<open>ca\<close>'s arguments, without the subcommand.\<close>

definition ca_consents :: "'d ca_platform \<Rightarrow> string list \<Rightarrow> bool" where
  "ca_consents P args \<longleftrightarrow> consents P (says_yes P (tl args))"

lemma confirm_consents: "(\<exists>s'. confirm P prompt yes s = (Inr True, s')) \<longleftrightarrow> consents P yes"
  by (auto simp: confirm_def consents_def Let_def)

lemma confirm_other_exec: "confirm (P\<lparr>cp_exec := e\<rparr>) = confirm P"
  by (intro ext) (simp add: confirm_def)

lemma install_without_consent:
  "\<not> consents P yes \<Longrightarrow> install_trust (P\<lparr>cp_exec := e\<rparr>) dir yes s = install_trust P dir yes s"
  using confirm_consents [of P _ yes]
  by (auto simp: install_trust_def confirm_other_exec Let_def split: prod.splits option.splits sum.splits bool.splits)

lemma uninstall_without_consent:
  "\<not> consents P yes \<Longrightarrow> uninstall_trust (P\<lparr>cp_exec := e\<rparr>) dir yes s = uninstall_trust P dir yes s"
  using confirm_consents [of P _ yes]
  by (auto simp: uninstall_trust_def confirm_other_exec Let_def split: prod.splits option.splits sum.splits bool.splits)

section \<open>Properties\<close>

text \<open>C40: No subcommand of \<open>ca\<close> executes a system command without consent: unless \<open>--yes\<close> was given or the user
  typed \<open>y\<close> or \<open>yes\<close> at a terminal, the outcome is the same whatever the executed commands would do, so
  nothing of them shows; and installing without a terminal and without \<open>--yes\<close> is an error.\<close>

theorem ca_executes_only_with_consent:
  assumes "\<not> ca_consents P args"
  shows "cmdCA (P\<lparr>cp_exec := e\<rparr>) args s = cmdCA P args s \<and>
     (\<not> cp_terminal P \<and> args \<noteq> [] \<and> hd args \<in> {''install'', ''uninstall''} \<longrightarrow> fst (cmdCA P args s) \<noteq> None)"
proof (cases args)
  case (Cons sub rest)
  have f: "caStateDir (P\<lparr>cp_exec := e\<rparr>) = caStateDir P" "ca_yes_flags (P\<lparr>cp_exec := e\<rparr>) = ca_yes_flags P"
    by (simp_all add: caStateDir_def ca_yes_flags_def)
  have path: "caPath (P\<lparr>cp_exec := e\<rparr>) rest s = caPath P rest s"
    by (auto simp: caPath_def f split: sum.splits prod.splits option.splits)
  have no: "\<not> consents P (flag_bool ''yes'' fs)" if "Parse (ca_yes_flags P) rest = Inr (fs, as)" for fs as
    using assms that Cons by (simp add: ca_consents_def says_yes_def)
  have inst: "caInstall (P\<lparr>cp_exec := e\<rparr>) rest s = caInstall P rest s"
    using no install_without_consent by (auto simp: caInstall_def f split: sum.splits)
  have uninst: "caUninstall (P\<lparr>cp_exec := e\<rparr>) rest s = caUninstall P rest s"
    using no uninstall_without_consent by (auto simp: caUninstall_def f split: sum.splits)
  have "fst (caInstall P rest s) \<noteq> None \<and> fst (caUninstall P rest s) \<noteq> None" if "\<not> cp_terminal P"
    using that no by (auto simp: caInstall_def caUninstall_def install_trust_def uninstall_trust_def confirm_def
        consents_def Let_def split: sum.splits prod.splits option.splits)
  with path inst uninst Cons show ?thesis by (auto simp: cmdCA_def)
qed (simp add: cmdCA_def)

text \<open>A Linux machine without a terminal.\<close>

definition headless :: "nat ca_platform" where
  "headless = \<lparr>cp_base = demo_platform \<lparr>cl_Status = (\<lambda>_ d. (Inl (ErrNew []), d)), cl_Routes = (\<lambda>_ d. (Inr [], d)),
       cl_AddRoute = (\<lambda>_ _ d. (None, d)), cl_RemoveRoute = (\<lambda>_ _ d. (None, d)), cl_WaitReady = (\<lambda>_ _ _ d. (None, d))\<rparr> (\<lambda>_. 0) (\<lambda>_ d. d),
     cp_load = (\<lambda>_ d. (None, d)), cp_terminal = False, cp_input = ''y'', cp_exec = (\<lambda>_ n. (None, Suc n))\<rparr>"

theorem ca_executes_only_with_consent_witness:
  "cmdCA (headless\<lparr>cp_exec := \<lambda>_ n. (None, n + 7)\<rparr>) [''install''] \<lparr>outside = 0, stdout = [], stderr = []\<rparr>
     = cmdCA headless [''install''] \<lparr>outside = 0, stdout = [], stderr = []\<rparr>
   \<and> fst (cmdCA headless [''install''] \<lparr>outside = 0, stdout = [], stderr = []\<rparr>) \<noteq> None"
proof -
  have "\<not> ca_consents headless [''install'']"
    by (simp add: ca_consents_def consents_def says_yes_def headless_def ca_yes_flags_def flag_bool_def caStateDir_def)
  from ca_executes_only_with_consent [OF this] show ?thesis by (simp add: headless_def)
qed

end
