(* ===== verification/Portless.thy ===== *)
theory Portless
  imports Serve Ca_Cmd
begin

text \<open>\<open>cmd/portless/main.go\<close>: the dispatch on the command's name, the exit code of the process, and the usage text.\<close>

section \<open>main.go\<close>

text \<open>\<open>pm_serve\<close> gives the outcomes of the daemon's calls; \<open>pm_version\<close> is set at build time.\<close>

record 'd program =
  pm_base :: "'d platform"
  pm_ca :: "'d ca_platform"
  pm_serve :: "serveOptions \<Rightarrow> 'd \<Rightarrow> serve_env \<times> 'd"
  pm_version :: string

text \<open>The usage text, line by line.\<close>

definition usage_lines :: "string list" where
  "usage_lines =
     [''portless '' @ [CHR 0xE2, CHR 0x80, CHR 0x94] @ '' port-free service routing for tests and CI'',
      [],
      ''Usage:'',
      ''  portless run    NAME [--port-env VAR] -- CMD [args...]   run a process on an assigned port'',
      ''  portless alias  NAME HOST:PORT [--socket PATH]           name an already-running service'',
      ''  portless serve  [--socket PATH] [--proxy ADDR] [--tls] [--no-proxy]'',
      ''  portless route  add NAME (--tcp HOST:PORT | --k8s-service NS/NAME) [--socket PATH]'',
      ''  portless route  list [--json] [--socket PATH]'',
      ''  portless route  rm NAME [--socket PATH]'',
      ''  portless env    [--shell sh|fish|github] [--socket PATH]'',
      ''  portless status [--json] [--socket PATH]'',
      ''  portless doctor [NAME...] [--timeout DUR] [--socket PATH]'',
      ''  portless ca     path | install | uninstall [--yes]      manage the local HTTPS CA'',
      ''  portless version'',
      [],
      ''Examples:'',
      ''  # Run a server on an assigned port and reach it by name'',
      ''  portless run web -- go run ./cmd/server'',
      ''  eval \"$(portless env)\"'',
      ''  curl http://web/healthz'',
      [],
      ''  # Point a name at an already-running service'',
      ''  portless alias db 127.0.0.1:5432'',
      [],
      ''  # Enable https://<name> (trust the CA once)'',
      ''  portless serve --tls &'',
      ''  portless ca install'',
      [],
      ''run, alias, and route start a shared background daemon automatically if one is'',
      ''not already running. The control socket defaults to $PORTLESS_SOCKET, then'',
      ''$XDG_RUNTIME_DIR/portless.sock, then a per-user temp path.'']"

definition usage :: printed where
  "usage = Line ''%s'' [concat (map (\<lambda>l. l @ [newline]) usage_lines)]"

text \<open>The exit code of a command's error; only the child's code of \<open>run\<close> is passed on, and without a message.\<close>

definition exit_code :: "'d outcome \<Rightarrow> int \<times> 'd sys" where
  "exit_code out =
     (case out of
        (None, s) \<Rightarrow> (0, s)
      | (Some (exitCodeError code), s) \<Rightarrow> (code, s)
      | (Some (CmdErr err), s) \<Rightarrow> (1, Eprintln (ErrLine ''portless: %v'' [] err) s))"

definition run :: "'d program \<Rightarrow> string list \<Rightarrow> 'd sys \<Rightarrow> (int \<times> 'd sys) option" where
  "run M args s =
     (case args of
        [] \<Rightarrow> Some (2, Eprintln usage s)
      | cmd # rest \<Rightarrow>
          if cmd = ''run'' then map_option exit_code (cmdRun (pm_base M) rest s)
          else if cmd = ''alias'' then map_option exit_code (cmdAlias (pm_base M) rest s)
          else if cmd = ''serve'' then Some (exit_code (cmdServe (pm_base M) (pm_serve M) rest s))
          else if cmd = ''route'' then Some (exit_code (cmdRoute (pm_base M) rest s))
          else if cmd = ''env'' then Some (exit_code (cmdEnv (pm_base M) rest s))
          else if cmd = ''status'' then Some (exit_code (cmdStatus (pm_base M) rest s))
          else if cmd = ''doctor'' then Some (exit_code (cmdDoctor (pm_base M) rest s))
          else if cmd = ''ca'' then Some (exit_code (cmdCA (pm_ca M) rest s))
          else if cmd = ''version'' \<or> cmd = ''--version'' then Some (0, Println (Line ''portless %s'' [pm_version M]) s)
          else if cmd = ''help'' \<or> cmd = ''-h'' \<or> cmd = ''--help'' then Some (0, Println usage s)
          else Some (2, Eprintln usage (Eprintln (Line ''portless: unknown command %q'' [cmd]) s)))"

text \<open>The commands that the usage text shows are those that \<open>run\<close> knows, up to the other names of help and version.\<close>

definition usage_commands :: "string list" where
  "usage_commands = map (\<lambda>l. takeWhile (\<lambda>c. c \<noteq> CHR '' '') (drop 11 l))
     (filter (\<lambda>l. has_prefix l ''  portless '') (takeWhile (\<lambda>l. l \<noteq> ''Examples:'') usage_lines))"

theorem usage_names_commands:
  "set usage_commands = {''run'', ''alias'', ''serve'', ''route'', ''env'', ''status'', ''doctor'', ''ca'', ''version''} \<and>
   (cmd \<notin> set usage_commands \<union> {''--version'', ''help'', ''-h'', ''--help''} \<longrightarrow>
     run M (cmd # rest) s = Some (2, Eprintln usage (Eprintln (Line ''portless: unknown command %q'' [cmd]) s)))"
proof -
  have eq: "usage_commands = [''run'', ''alias'', ''serve'', ''route'', ''route'', ''route'', ''env'', ''status'', ''doctor'', ''ca'', ''version'']"
    by code_simp
  have cmds: "set usage_commands = {''run'', ''alias'', ''serve'', ''route'', ''env'', ''status'', ''doctor'', ''ca'', ''version''}"
    unfolding eq by auto
  have "run M (cmd # rest) s = Some (2, Eprintln usage (Eprintln (Line ''portless: unknown command %q'' [cmd]) s))"
    if "cmd \<notin> set usage_commands \<union> {''--version'', ''help'', ''-h'', ''--help''}"
    using that unfolding cmds Un_iff insert_iff empty_iff de_Morgan_disj by (simp only: run_def list.case if_False simp_thms)
  with cmds show ?thesis by blast
qed

section \<open>Lemmas\<close>

text \<open>The steps of \<open>run\<close> from the daemon to the child's end, all successful.\<close>

definition child_ran :: "'d platform \<Rightarrow> string \<Rightarrow> string \<Rightarrow> string list \<Rightarrow> string \<Rightarrow> 'd \<Rightarrow> child_result \<Rightarrow> 'd \<Rightarrow> bool" where
  "child_ran P socket name cmd portEnv d result d' \<longleftrightarrow>
     (\<exists>d1 port d2 d3 st d4 d5.
        ensureDaemon P socket d = Some (None, d1) \<and> freePort P d1 = (Inr port, d2) \<and>
        cl_AddRoute (pl_client P) socket (tcp_spec name (JoinHostPort ''127.0.0.1'' (itoa port))) d2 = (None, d3) \<and>
        cl_Status (pl_client P) socket d3 = (st, d4) \<and>
        pl_start P cmd (pl_environ P @ [portEnv @ ''='' @ itoa port]) d4 = (None, d5) \<and>
        pl_wait P d5 = (result, d'))"

definition child_code :: "child_result \<Rightarrow> int" where
  "child_code result = (case result of ChildOk \<Rightarrow> 0 | ChildExit code \<Rightarrow> code | ChildErr _ \<Rightarrow> 1)"

definition child_error :: "child_result \<Rightarrow> cmd_error option" where
  "child_error result = (case result of ChildOk \<Rightarrow> None | ChildExit code \<Rightarrow> Some (exitCodeError code)
     | ChildErr err \<Rightarrow> Some (CmdErr err))"

lemma with_daemon_child:
  assumes "child_ran P socket name cmd portEnv (outside s) result d'"
  shows "\<exists>s'. with_daemon P socket (run_route P socket name cmd portEnv) s = Some (child_error result, s') \<and>
      outside s' = snd (cl_RemoveRoute (pl_client P) socket name d')"
proof -
  from assms obtain d1 port d2 d3 st d4 d5 where
    steps: "ensureDaemon P socket (outside s) = Some (None, d1)" "freePort P d1 = (Inr port, d2)"
      "cl_AddRoute (pl_client P) socket (tcp_spec name (JoinHostPort ''127.0.0.1'' (itoa port))) d2 = (None, d3)"
      "cl_Status (pl_client P) socket d3 = (st, d4)"
      "pl_start P cmd (pl_environ P @ [portEnv @ ''='' @ itoa port]) d4 = (None, d5)" "pl_wait P d5 = (result, d')"
    unfolding child_ran_def by blast
  then show ?thesis
    by (cases result; cases st; cases "cl_RemoveRoute (pl_client P) socket name d'")
       (auto simp: with_daemon_def run_route_def run_child_def outside_do_def child_error_def Eprintln_def Let_def)
qed

lemma exit_code_child:
  "fst (exit_code (child_error result, s)) = child_code result \<and> outside (snd (exit_code (child_error result, s))) = outside s"
  by (cases result) (simp_all add: exit_code_def child_error_def child_code_def Eprintln_def)

lemma cut_first: "sep \<notin> set xs \<Longrightarrow> cut (xs @ sep # ys) sep = (xs, ys, True)"
  by (induction xs) auto

section \<open>Properties\<close>

text \<open>C35: \<open>portless run\<close> with a name and flags in any order, then \<open>--\<close> and a command, exits with the code of the
  child, 1 for a child that could not be waited for, and leaves outside what removing the route leaves.\<close>

theorem run_exits_with_child_code:
  assumes items: "list_all (item_ok fl) pre" "list_all (\<lambda>i. \<not> is_positional i) pre"
      "list_all (item_ok fl) post" "list_all (\<lambda>i. \<not> is_positional i) post"
    and fl: "fl = [socket_flag P, (''port-env'', StringFlag ''PORT'')]" and P: "pm_base M = P"
    and name: "bare name" and cmd: "cmd \<noteq> []" and sep: "''--'' \<notin> set (item_args (pre @ post))"
    and ran: "child_ran P (flag_string ''socket'' (apply_all (pre @ post) fl)) name cmd
      (flag_string ''port-env'' (apply_all (pre @ post) fl)) (outside s) result d'"
  shows "\<exists>s'. run M (''run'' # item_args pre @ name # item_args post @ ''--'' # cmd) s = Some (child_code result, s') \<and>
     outside s' = snd (cl_RemoveRoute (pl_client P) (flag_string ''socket'' (apply_all (pre @ post) fl)) name d')"
proof -
  let ?fs = "apply_all (pre @ post) fl"
  have "name \<noteq> ''--''" using name by (auto simp: bare_def)
  with sep have c: "cut (item_args pre @ name # item_args post @ ''--'' # cmd) ''--'' =
      (item_args pre @ name # item_args post, cmd, True)"
    using cut_first [of "''--''" "item_args pre @ name # item_args post" cmd] by simp
  have "positional i = []" if "\<not> is_positional i" for i using that by (cases i) simp_all
  then have "concat (map positional pre) = []" "concat (map positional post) = []"
    using items(2,4) by (auto simp: list_all_iff)
  moreover have "list_all (item_ok fl) (pre @ Positional name # post)" using items name by simp
  ultimately have "parseFlags fl (item_args pre @ name # item_args post) = Inr ([name], ?fs)"
    using parseFlags_items [of fl "pre @ Positional name # post"]
    by (simp add: apply_all_def del: concat_eq_Nil_conv)
  moreover obtain s' where "with_daemon P (flag_string ''socket'' ?fs)
      (run_route P (flag_string ''socket'' ?fs) name cmd (flag_string ''port-env'' ?fs)) s = Some (child_error result, s')"
    "outside s' = snd (cl_RemoveRoute (pl_client P) (flag_string ''socket'' ?fs) name d')"
    using with_daemon_child [OF ran] by blast
  ultimately show ?thesis
    using c cmd exit_code_child [of result s'] fl P by (cases "exit_code (child_error result, s')") (auto simp: run_def cmdRun_def)
qed

definition clock_program :: "int program" where
  "clock_program = \<lparr>pm_base = clock_platform, pm_ca = \<lparr>cp_base = clock_platform, cp_load = (\<lambda>_ d. (None, d)), cp_terminal = False,
     cp_input = [], cp_exec = (\<lambda>_ d. (None, d))\<rparr>, pm_serve = (\<lambda>_ d. (calm_env, d)), pm_version = ''dev''\<rparr>"

theorem run_exits_with_child_code_witness:
  "\<exists>s'. run clock_program [''run'', ''--port-env'', ''P'', ''web'', ''--'', ''false''] (clock_sys nano_s) = Some (3, s')"
proof -
  let ?P = clock_platform
  let ?fl = "[socket_flag ?P, (''port-env'', StringFlag ''PORT'')]"
  have i: "list_all (item_ok ?fl) [Separate True ''port-env'' ''P'']"
    by (auto simp: accepts_def flag_name_def bare_def socket_flag_def)
  have "child_ran ?P socket ''web'' [''false''] portEnv (outside (clock_sys nano_s)) (ChildExit 3) nano_s" for socket portEnv
    by (simp add: child_ran_def clock_platform_def demo_platform_def clock_client_def clock_sys_def ensureDaemon_def freePort_def)
  from run_exits_with_child_code [OF i _ _ _ refl _ _ _ _ this, of "[]" clock_program] show ?thesis
    by (auto simp: clock_program_def item_args_def dashed_def bare_def child_code_def)
qed

end
