(* ===== verification/Ca.thy ===== *)
theory Ca
  imports World
begin

text \<open>
  \<open>ca/ca.go\<close>: the local certificate authority that the TLS-terminating proxy takes its certificates from.

  A certificate is a record of the fields the code sets, with the key it was signed by in place of a
  signature; keys are numbers. A file holds a certificate or a key in PEM, or bytes that are no PEM or no
  DER. Random material, the outcomes of system calls and the calendar (\<open>time.AddDate\<close>) are inputs.
\<close>

named_theorems go_ca "rules of the certificate authority"

section \<open>crypto/x509\<close>

record certificate =
  ct_serial :: int
  ct_subject :: string
  ct_issuer :: string
  ct_dns :: "string list"
  ct_notBefore :: int
  ct_notAfter :: int
  ct_isCA :: bool
  ct_key :: "nat option"     \<comment> \<open>the public key; nil in a template\<close>
  ct_signer :: "nat option"

text \<open>
  \<open>x509.CreateCertificate\<close>: the serial must be positive, a parent that has a public key must have the one that
  belongs to the signing key, and the DNS names must be ASCII. \<open>entropy\<close> is the error of the random source,
  if it fails.
\<close>

definition isIA5String :: "string \<Rightarrow> bool" where
  "isIA5String s \<longleftrightarrow> list_all (\<lambda>c. byte c < 128) s"

definition CreateCertificate :: "goerr option \<Rightarrow> certificate \<Rightarrow> certificate \<Rightarrow> nat \<Rightarrow> nat \<Rightarrow> goerr + certificate" where
  "CreateCertificate entropy tmpl parent pub priv =
     (if ct_serial tmpl \<le> 0 then Inl (ErrNew ''x509: serial number must be positive'')
      else if ct_key parent \<noteq> None \<and> ct_key parent \<noteq> Some priv then
        Inl (ErrNew ''x509: provided PrivateKey does not match parent PublicKey'')
      else if \<not> list_all isIA5String (ct_dns tmpl) then
        Inl (ErrNew ''x509: cannot be encoded as an IA5String'')
      else case entropy of
        Some err \<Rightarrow> Inl err
      | None \<Rightarrow> Inr (tmpl\<lparr>ct_issuer := ct_subject parent, ct_key := Some pub, ct_signer := Some priv\<rparr>))"

record randomness =
  rk_key :: "goerr + nat"        \<comment> \<open>\<open>ecdsa.GenerateKey\<close>\<close>
  rk_sign :: "goerr option"

type_synonym calendar = "int \<Rightarrow> int \<Rightarrow> int"   \<comment> \<open>\<open>AddDate\<close>: an instant and a number of years\<close>

abbreviation nano_hour :: int where "nano_hour \<equiv> 3600 * nano_s"

section \<open>Files\<close>

datatype content = CertPEM certificate | KeyPEM nat | NoPEM | BadDER

text \<open>\<open>Unreadable\<close> is a file that exists but cannot be read.\<close>

datatype stored = Missing | Unreadable goerr content | Has content

datatype write_outcome = Written | WriteFails goerr stored   \<comment> \<open>and what it leaves behind\<close>

definition WriteFile :: "write_outcome \<Rightarrow> content \<Rightarrow> stored \<Rightarrow> goerr option \<times> stored" where
  "WriteFile outcome c f = (case outcome of
      WriteFails err left \<Rightarrow> (Some err, left)
    | Written \<Rightarrow> (None, case f of Unreadable err old \<Rightarrow> Unreadable err c | _ \<Rightarrow> Has c))"

record state_dir =
  sd_crt :: stored
  sd_key :: stored

section \<open>CA\<close>

record tls_certificate =
  tc_chain :: "certificate list"
  tc_key :: nat

record CA =
  ca_cert :: certificate
  ca_key :: nat
  ca_certPEM :: content
  ca_leaf :: "(string \<times> tls_certificate) list"
  ca_serial :: int

definition generate :: "calendar \<Rightarrow> int \<Rightarrow> randomness \<Rightarrow> goerr + CA \<times> content \<times> content" where
  "generate cal t r =
     (case rk_key r of
        Inl err \<Rightarrow> Inl err
      | Inr key \<Rightarrow>
          (let tmpl = \<lparr>ct_serial = 1, ct_subject = ''portless local CA'', ct_issuer = [], ct_dns = [],
                ct_notBefore = t - nano_hour, ct_notAfter = cal t 10, ct_isCA = True,
                ct_key = None, ct_signer = None\<rparr> in
           case CreateCertificate (rk_sign r) tmpl tmpl key key of
             Inl err \<Rightarrow> Inl err
           | Inr cert \<Rightarrow> Inr (\<lparr>ca_cert = cert, ca_key = key, ca_certPEM = CertPEM cert, ca_leaf = [], ca_serial = 0\<rparr>,
                CertPEM cert, KeyPEM key)))"

definition fromPEM :: "content \<Rightarrow> content \<Rightarrow> goerr + CA" where
  "fromPEM crtPEM keyPEM =
     (case crtPEM of
        NoPEM \<Rightarrow> Inl (Errorf ''ca: invalid cert PEM'' [] [])
      | CertPEM cert \<Rightarrow>
          (case keyPEM of
             NoPEM \<Rightarrow> Inl (Errorf ''ca: invalid key PEM'' [] [])
           | KeyPEM key \<Rightarrow> Inr \<lparr>ca_cert = cert, ca_key = key, ca_certPEM = crtPEM, ca_leaf = [], ca_serial = 0\<rparr>
           | _ \<Rightarrow> Inl (ErrNew ''x509: failed to parse EC private key''))
      | _ \<Rightarrow> Inl (ErrNew ''x509: malformed certificate''))"

definition Load :: "goerr option \<Rightarrow> calendar \<Rightarrow> int \<Rightarrow> randomness \<Rightarrow> write_outcome \<Rightarrow> write_outcome \<Rightarrow> state_dir
    \<Rightarrow> (goerr + CA) \<times> state_dir" where
  "Load mkdir cal t r write_crt write_key d =
     (case mkdir of
        Some err \<Rightarrow> (Inl (Errorf ''ca: create state dir: %w'' [] [err]), d)
      | None \<Rightarrow>
          (case (sd_crt d, sd_key d) of
             (Has crtPEM, Has keyPEM) \<Rightarrow> (fromPEM crtPEM keyPEM, d)
           | (Unreadable crtErr _, _) \<Rightarrow> (Inl crtErr, d)
           | _ \<Rightarrow>
               (case generate cal t r of
                  Inl err \<Rightarrow> (Inl err, d)
                | Inr (c, crtPEM, keyPEM) \<Rightarrow>
                    (case WriteFile write_crt crtPEM (sd_crt d) of
                       (Some err, f) \<Rightarrow> (Inl (Errorf ''ca: write cert: %w'' [] [err]), d\<lparr>sd_crt := f\<rparr>)
                     | (None, f) \<Rightarrow>
                         (case WriteFile write_key keyPEM (sd_key d) of
                            (Some err, g) \<Rightarrow> (Inl (Errorf ''ca: write key: %w'' [] [err]), d\<lparr>sd_crt := f, sd_key := g\<rparr>)
                          | (None, g) \<Rightarrow> (Inr c, d\<lparr>sd_crt := f, sd_key := g\<rparr>))))))"

section \<open>Leaf certificates\<close>

text \<open>The template keeps the fields before signing; the served chain has the signed certificate.\<close>

definition issue :: "calendar \<Rightarrow> int \<Rightarrow> randomness \<Rightarrow> string \<Rightarrow> CA \<Rightarrow> (goerr + tls_certificate) \<times> CA" where
  "issue cal t r name c =
     (case rk_key r of
        Inl err \<Rightarrow> (Inl err, c)
      | Inr key \<Rightarrow>
          (let c' = c\<lparr>ca_serial := ca_serial c + 1\<rparr>;
               tmpl = \<lparr>ct_serial = ca_serial c', ct_subject = name, ct_issuer = [], ct_dns = [name],
                 ct_notBefore = t - nano_hour, ct_notAfter = cal t 1, ct_isCA = False,
                 ct_key = None, ct_signer = None\<rparr> in
           case CreateCertificate (rk_sign r) tmpl (ca_cert c') key (ca_key c') of
             Inl err \<Rightarrow> (Inl err, c')
           | Inr der \<Rightarrow> (Inr \<lparr>tc_chain = [der, ca_cert c'], tc_key = key\<rparr>, c')))"

definition LeafFor :: "calendar \<Rightarrow> int \<Rightarrow> randomness \<Rightarrow> string \<Rightarrow> CA \<Rightarrow> (goerr + tls_certificate) \<times> CA" where
  "LeafFor cal t r name c =
     (case map_of (ca_leaf c) name of
        Some crt \<Rightarrow> (Inr crt, c)
      | None \<Rightarrow>
          (case issue cal t r name c of
             (Inl err, c') \<Rightarrow> (Inl err, c')
           | (Inr crt, c') \<Rightarrow> (Inr crt, c'\<lparr>ca_leaf := AList.update name crt (ca_leaf c')\<rparr>)))"

definition GetCertificate :: "calendar \<Rightarrow> int \<Rightarrow> randomness \<Rightarrow> string \<Rightarrow> CA \<Rightarrow> (goerr + tls_certificate) \<times> CA" where
  "GetCertificate cal t r serverName c =
     LeafFor cal t r (if serverName = [] then ''localhost'' else serverName) c"

text \<open>A history of handshakes: the requested name, the instant and the random material of each.\<close>

fun ca_exec :: "calendar \<Rightarrow> CA \<Rightarrow> string \<times> int \<times> randomness \<Rightarrow> (goerr + tls_certificate) \<times> CA" where
  "ca_exec cal c (name, t, r) = GetCertificate cal t r name c"

section \<open>What a client checks\<close>

text \<open>
  \<open>Certificate.VerifyHostname\<close>: an IP literal, which may stand in brackets, is compared with the IP addresses
  of the certificate, and the leaves of this CA have none. Any other name is compared with the DNS names without
  regard to case; where both are well formed, a trailing dot of the name is dropped and a pattern may start with
  a wildcard label.
\<close>

definition ip_literal :: "string \<Rightarrow> bool" where
  "ip_literal h \<longleftrightarrow> ParseIP_ok
     (if 3 \<le> length h \<and> h ! 0 = CHR ''['' \<and> last h = CHR '']'' then butlast (tl h) else h)"

definition trim_dot :: "string \<Rightarrow> string" where
  "trim_dot s = (if s \<noteq> [] \<and> last s = CHR ''.'' then butlast s else s)"

definition label_ok :: "string \<Rightarrow> bool" where
  "label_ok p \<longleftrightarrow> p \<noteq> [] \<and> p ! 0 \<noteq> CHR ''-'' \<and>
     list_all (\<lambda>c. 97 \<le> byte c \<and> byte c \<le> 122 \<or> is_digit c \<or> 65 \<le> byte c \<and> byte c \<le> 90 \<or>
       c = CHR ''-'' \<or> c = CHR ''_'') p"

definition validHostname :: "string \<Rightarrow> bool \<Rightarrow> bool" where
  "validHostname host isPattern =
     (let h = (if isPattern then host else trim_dot host) in
      h \<noteq> [] \<and> h \<noteq> ''*'' \<and>
      (case split_on (CHR ''.'') h of
         [] \<Rightarrow> True
       | p # ps \<Rightarrow> (isPattern \<and> p = ''*'' \<or> label_ok p) \<and> list_all label_ok ps))"

definition matchExactly :: "string \<Rightarrow> string \<Rightarrow> bool" where
  "matchExactly a b \<longleftrightarrow> a \<noteq> [] \<and> a \<noteq> ''.'' \<and> b \<noteq> [] \<and> b \<noteq> ''.'' \<and> to_lower a = to_lower b"

definition matchHostnames :: "string \<Rightarrow> string \<Rightarrow> bool" where
  "matchHostnames pattern host =
     (let p = to_lower pattern; h = to_lower (trim_dot host) in
      p \<noteq> [] \<and> h \<noteq> [] \<and>
      (case (split_on (CHR ''.'') p, split_on (CHR ''.'') h) of
         (x # xs, y # ys) \<Rightarrow> (x = ''*'' \<or> x = y) \<and> xs = ys
       | _ \<Rightarrow> False))"

definition VerifyHostname :: "certificate \<Rightarrow> string \<Rightarrow> bool" where
  "VerifyHostname crt h \<longleftrightarrow> \<not> ip_literal h \<and>
     list_ex (\<lambda>name. if validHostname (to_lower h) False \<and> validHostname name True
        then matchHostnames name (to_lower h) else matchExactly name (to_lower h)) (ct_dns crt)"

text \<open>The chain verification of a client that trusts \<open>root\<close>, at instant \<open>t\<close>, for \<open>name\<close>.\<close>

definition verifies :: "certificate \<Rightarrow> int \<Rightarrow> string \<Rightarrow> tls_certificate \<Rightarrow> bool" where
  "verifies root t name crt \<longleftrightarrow>
     (case tc_chain crt of
        [leaf, issuer] \<Rightarrow> issuer = root \<and> ct_isCA root \<and> ct_issuer leaf = ct_subject root \<and>
          ct_signer leaf = ct_key root \<and> VerifyHostname leaf name \<and> ct_key leaf = Some (tc_key crt) \<and>
          ct_notBefore leaf \<le> t \<and> t \<le> ct_notAfter leaf \<and> ct_notBefore root \<le> t \<and> t \<le> ct_notAfter root
      | _ \<Rightarrow> False)"

text \<open>
  The same two notions without the matching algorithm: a name up to case and one trailing dot, and what a
  certificate for \<open>n\<close> is good for, its own name and, where \<open>n\<close> starts with a wildcard label, the names with any
  one label in its place.
\<close>

definition same_host :: "string \<Rightarrow> string \<Rightarrow> bool" where
  "same_host n m \<longleftrightarrow> to_lower m = to_lower n \<or> to_lower m = to_lower n @ ''.''"

definition good_for :: "string \<Rightarrow> string \<Rightarrow> bool" where
  "good_for n m \<longleftrightarrow> \<not> ip_literal m \<and> (same_host n m \<or>
     (\<exists>rest l. n = ''*.'' @ rest \<and> CHR ''.'' \<notin> set l \<and> same_host (l @ ''.'' @ rest) m))"

lemma byte_lower_char: "byte (lower_char c) = (if 65 \<le> byte c \<and> byte c \<le> 90 then byte c + 32 else byte c)"
  by (simp add: lower_char_def byte_def)

lemma lower_char_low: "byte d < 65 \<Longrightarrow> lower_char c = d \<longleftrightarrow> c = d"
  unfolding byte_inj [symmetric] byte_lower_char by auto

lemma lower_char_iff:
  "lower_char c = CHR ''*'' \<longleftrightarrow> c = CHR ''*''" "lower_char c = CHR ''.'' \<longleftrightarrow> c = CHR ''.''"
  "lower_char (CHR ''.'') = CHR ''.''"
  by (simp_all add: lower_char_low byte_def)

lemma to_lower_prefix: "to_lower m = x @ y \<Longrightarrow> to_lower x = x"
  by (metis append_eq_append_conv length_to_lower to_lower_append to_lower_idem)

lemma trim_dot_lower: "to_lower (trim_dot (to_lower m)) = h \<Longrightarrow> to_lower m = h \<or> to_lower m = h @ ''.''"
proof (cases "to_lower m \<noteq> [] \<and> last (to_lower m) = CHR ''.''")
  case True
  then have m: "to_lower m = butlast (to_lower m) @ ''.''" by (metis append_butlast_last_id)
  moreover assume "to_lower (trim_dot (to_lower m)) = h"
  ultimately show ?thesis using True to_lower_prefix [OF m] by (simp add: trim_dot_def)
qed (auto simp: trim_dot_def split: if_splits)

lemma wildcard_pattern:
  assumes "split_on (CHR ''.'') (to_lower n) = ''*'' # xs" and "n \<noteq> ''*''"
  obtains rest where "n = ''*.'' @ rest" and "to_lower rest = join_with ''.'' xs" and "xs \<noteq> []"
proof -
  from assms(1) have n: "to_lower n = join_with ''.'' (''*'' # xs)" using join_split_on [of "CHR ''.''" "to_lower n"] by simp
  show thesis
  proof (cases xs)
    case Nil
    with n have "n = ''*''" by (auto simp: to_lower_def lower_char_iff map_eq_Cons_conv)
    with assms(2) show thesis by simp
  next
    case (Cons y ys)
    with n have "to_lower n = CHR ''*'' # CHR ''.'' # join_with ''.'' xs" by simp
    then obtain rest where "n = CHR ''*'' # CHR ''.'' # rest" "to_lower rest = join_with ''.'' xs"
      by (auto simp: to_lower_def map_eq_Cons_conv lower_char_iff)
    with Cons show thesis by (auto intro: that)
  qed
qed

lemma match_good:
  assumes "matchHostnames n (to_lower m)" and "validHostname n True"
  shows "same_host n m \<or> (\<exists>rest l. n = ''*.'' @ rest \<and> CHR ''.'' \<notin> set l \<and> same_host (l @ ''.'' @ rest) m)"
proof -
  let ?h = "to_lower (trim_dot (to_lower m))"
  from assms(1) obtain x y xs where s: "split_on (CHR ''.'') (to_lower n) = x # xs" "split_on (CHR ''.'') ?h = y # xs"
    and "x = ''*'' \<or> x = y" by (auto simp: matchHostnames_def Let_def split: list.splits)
  from this(3) show ?thesis
  proof
    assume "x = y"
    with s have "?h = to_lower n"
      using join_split_on [of "CHR ''.''" ?h] join_split_on [of "CHR ''.''" "to_lower n"] by simp
    from trim_dot_lower [OF this] show ?thesis by (simp add: same_host_def)
  next
    assume "x = ''*''"
    moreover have "n \<noteq> ''*''" using assms(2) by (auto simp: validHostname_def)
    ultimately obtain rest where n: "n = ''*.'' @ rest" "to_lower rest = join_with ''.'' xs" "xs \<noteq> []"
      using wildcard_pattern s(1) by metis
    have h: "?h = y @ ''.'' @ to_lower rest"
      using join_split_on [of "CHR ''.''" ?h] s(2) n(2,3) by (cases xs) simp_all
    then have y: "to_lower y = y" by (rule to_lower_prefix)
    have "CHR ''.'' \<notin> set y" using split_on_parts [of y "CHR ''.''" ?h] s(2) by simp
    moreover have "same_host (y @ ''.'' @ rest) m"
      using trim_dot_lower [OF h] y by (simp add: same_host_def to_lower_def lower_char_iff)
    ultimately show ?thesis using n(1) by blast
  qed
qed

lemma VerifyHostname_good: "VerifyHostname crt m \<Longrightarrow> ct_dns crt = [n] \<Longrightarrow> good_for n m"
  using match_good [of n m]
  by (auto simp: VerifyHostname_def good_for_def matchExactly_def same_host_def split: if_splits)

lemma pattern_no_dot:
  assumes "validHostname n True"
  shows "trim_dot (to_lower n) = to_lower n"
proof (rule ccontr)
  assume "trim_dot (to_lower n) \<noteq> to_lower n"
  then have "n \<noteq> []" "last (to_lower n) = CHR ''.''" by (auto simp: trim_dot_def split: if_splits)
  then have "last n = CHR ''.''" by (simp add: to_lower_def last_map lower_char_iff)
  with \<open>n \<noteq> []\<close> have "n = butlast n @ CHR ''.'' # []" by (metis append_butlast_last_id)
  then have "split_on (CHR ''.'') n = split_on (CHR ''.'') (butlast n) @ [[]]"
    using split_on_append [of "CHR ''.''" "[]" "butlast n"] by simp
  moreover have "split_on (CHR ''.'') (butlast n) \<noteq> []" by simp
  ultimately obtain p ps where "split_on (CHR ''.'') n = p # ps" "[] \<in> set ps"
    by (cases "split_on (CHR ''.'') (butlast n)") auto
  with assms show False by (auto simp: validHostname_def label_ok_def list_all_iff)
qed

lemma VerifyHostname_self:
  assumes "ct_dns crt = [n]" and "n \<noteq> []" "n \<noteq> ''.''" "\<not> ip_literal n"
  shows "VerifyHostname crt n"
proof -
  have dot: "to_lower n \<noteq> ''.''" using assms(3) by (auto simp: to_lower_def map_eq_Cons_conv lower_char_iff)
  show ?thesis
    using assms dot pattern_no_dot [of n]
    by (auto simp: VerifyHostname_def matchExactly_def matchHostnames_def Let_def split: list.splits)
qed

text \<open>A CA whose key pair is a pair, and whose cache holds its own certificates under their names.\<close>

definition ca_keyed :: "CA \<Rightarrow> bool" where
  "ca_keyed c \<longleftrightarrow> ct_key (ca_cert c) = Some (ca_key c) \<and> ct_isCA (ca_cert c)"

definition leaf_ok :: "calendar \<Rightarrow> CA \<Rightarrow> string \<Rightarrow> tls_certificate \<Rightarrow> bool" where
  "leaf_ok cal c name crt \<longleftrightarrow> isIA5String name \<and> (\<exists>s t key. 1 \<le> s \<and> s \<le> ca_serial c \<and> crt = \<lparr>tc_chain =
     [\<lparr>ct_serial = s, ct_subject = name, ct_issuer = ct_subject (ca_cert c), ct_dns = [name],
       ct_notBefore = t - nano_hour, ct_notAfter = cal t 1, ct_isCA = False, ct_key = Some key,
       ct_signer = Some (ca_key c)\<rparr>, ca_cert c], tc_key = key\<rparr>)"

definition serial_of :: "tls_certificate \<Rightarrow> int" where
  "serial_of crt = ct_serial (hd (tc_chain crt))"

definition ca_inv :: "calendar \<Rightarrow> CA \<Rightarrow> bool" where
  "ca_inv cal c \<longleftrightarrow> ca_keyed c \<and> is_gomap (ca_leaf c) \<and> 0 \<le> ca_serial c \<and>
     (\<forall>n crt. map_of (ca_leaf c) n = Some crt \<longrightarrow> leaf_ok cal c n crt) \<and>
     (\<forall>n m crt crt'. map_of (ca_leaf c) n = Some crt \<longrightarrow> map_of (ca_leaf c) m = Some crt' \<longrightarrow>
        serial_of crt = serial_of crt' \<longrightarrow> n = m)"

lemma leaf_ok_mono:
  assumes "leaf_ok cal c n crt" and "ca_serial c \<le> ca_serial c'" "ca_cert c' = ca_cert c" "ca_key c' = ca_key c"
  shows "leaf_ok cal c' n crt"
proof -
  from assms(1) obtain s t key where "isIA5String n" "1 \<le> s" "s \<le> ca_serial c" "crt = \<lparr>tc_chain =
     [\<lparr>ct_serial = s, ct_subject = n, ct_issuer = ct_subject (ca_cert c), ct_dns = [n],
       ct_notBefore = t - nano_hour, ct_notAfter = cal t 1, ct_isCA = False, ct_key = Some key,
       ct_signer = Some (ca_key c)\<rparr>, ca_cert c], tc_key = key\<rparr>"
    unfolding leaf_ok_def by blast
  with assms(2-4) show ?thesis
    unfolding leaf_ok_def by (intro conjI exI [of _ s] exI [of _ t] exI [of _ key]) simp_all
qed

lemma leaf_ok_serial: "leaf_ok cal c n crt \<Longrightarrow> 1 \<le> serial_of crt \<and> serial_of crt \<le> ca_serial c"
  by (auto simp: leaf_ok_def serial_of_def)

lemma issue_same:
  assumes "issue cal t r name c = (res, c')"
  shows "ca_cert c' = ca_cert c" "ca_key c' = ca_key c" "ca_leaf c' = ca_leaf c"
    "ca_serial c \<le> ca_serial c'" "ca_serial c' \<le> ca_serial c + 1"
  using assms by (auto simp: issue_def Let_def split: sum.splits)

lemma issue_ok:
  assumes "ca_keyed c" and "0 \<le> ca_serial c" and "issue cal t r name c = (Inr crt, c')"
  shows "leaf_ok cal c' name crt \<and> serial_of crt = ca_serial c + 1"
proof -
  obtain key where "rk_key r = Inr key" and "rk_sign r = None" and ascii: "isIA5String name"
    and c': "c' = c\<lparr>ca_serial := ca_serial c + 1\<rparr>"
    and crt: "crt = \<lparr>tc_chain = [\<lparr>ct_serial = ca_serial c + 1, ct_subject = name,
       ct_issuer = ct_subject (ca_cert c), ct_dns = [name], ct_notBefore = t - nano_hour, ct_notAfter = cal t 1,
       ct_isCA = False, ct_key = Some key, ct_signer = Some (ca_key c)\<rparr>, ca_cert c], tc_key = key\<rparr>"
    using assms by (auto simp: issue_def Let_def CreateCertificate_def ca_keyed_def
        split: sum.splits option.splits if_splits)
  have "leaf_ok cal c' name crt"
    unfolding leaf_ok_def c' crt
    by (intro conjI ascii exI [of _ "ca_serial c + 1"] exI [of _ t] exI [of _ key]) (use assms(2) in simp_all)
  then show ?thesis by (simp add: crt serial_of_def)
qed

lemma LeafFor_inv:
  assumes "ca_inv cal c" and l: "LeafFor cal t r name c = (res, c')"
  shows "ca_inv cal c' \<and> ca_cert c' = ca_cert c \<and> ca_key c' = ca_key c \<and>
    (\<forall>n crt. map_of (ca_leaf c) n = Some crt \<longrightarrow> map_of (ca_leaf c') n = Some crt) \<and>
    (\<forall>crt. res = Inr crt \<longrightarrow> map_of (ca_leaf c') name = Some crt)"
proof (cases "map_of (ca_leaf c) name")
  case (Some crt)
  with assms show ?thesis by (auto simp: LeafFor_def)
next
  case None
  obtain res1 c1 where i: "issue cal t r name c = (res1, c1)" by fastforce
  from assms(1) have inv: "ca_keyed c" "is_gomap (ca_leaf c)" "0 \<le> ca_serial c"
    and lo: "\<And>n crt. map_of (ca_leaf c) n = Some crt \<Longrightarrow> leaf_ok cal c n crt"
    and ser: "\<And>n m crt crt'. map_of (ca_leaf c) n = Some crt \<Longrightarrow> map_of (ca_leaf c) m = Some crt' \<Longrightarrow>
        serial_of crt = serial_of crt' \<Longrightarrow> n = m"
    unfolding ca_inv_def by blast+
  note same = issue_same [OF i]
  have old: "leaf_ok cal c1 n crt" if "map_of (ca_leaf c) n = Some crt" for n crt
    using leaf_ok_mono [OF lo [OF that]] same by simp
  show ?thesis
  proof (cases res1)
    case (Inl err)
    with None i l have c': "c' = c1" "res = Inl err" by (auto simp: LeafFor_def)
    have "ca_inv cal c1"
      unfolding ca_inv_def using inv same ser old by (auto simp: ca_keyed_def)
    with c' same show ?thesis by simp
  next
    case (Inr crt)
    with None i l have c': "c' = c1\<lparr>ca_leaf := AList.update name crt (ca_leaf c1)\<rparr>" "res = Inr crt"
      by (auto simp: LeafFor_def)
    from issue_ok [OF inv(1,3) i [unfolded Inr]] have new: "leaf_ok cal c1 name crt"
      and sn: "serial_of crt = ca_serial c + 1" by simp_all
    have lo': "leaf_ok cal c' n x = leaf_ok cal c1 n x" for n x by (simp add: c' leaf_ok_def)
    have fresh: "serial_of x \<noteq> serial_of crt \<and> serial_of crt \<noteq> serial_of x" if "map_of (ca_leaf c) n = Some x" for n x
      using leaf_ok_serial [OF lo [OF that]] sn by auto
    have "ca_inv cal c'"
      unfolding ca_inv_def lo' using inv same new old ser fresh by (auto simp: c' ca_keyed_def)
    with c' same None show ?thesis by (auto simp: c')
  qed
qed


text \<open>The same over a whole history.\<close>

lemma ca_run_inv:
  assumes "ca_inv cal c" and "exec_all (ca_exec cal) c hs = (outs, c')"
  shows "ca_inv cal c' \<and> ca_cert c' = ca_cert c \<and> ca_key c' = ca_key c \<and>
    (\<forall>n crt. map_of (ca_leaf c) n = Some crt \<longrightarrow> map_of (ca_leaf c') n = Some crt) \<and>
    (\<forall>i < length hs. \<forall>crt. outs ! i = Inr crt \<longrightarrow>
       map_of (ca_leaf c') (if fst (hs ! i) = [] then ''localhost'' else fst (hs ! i)) = Some crt)"
  using assms
proof (induction hs arbitrary: c outs)
  case (Cons h hs)
  obtain n t r where h: "h = (n, t, r)" by (cases h)
  let ?n = "if n = [] then ''localhost'' else n"
  obtain res c1 where l: "LeafFor cal t r ?n c = (res, c1)" by fastforce
  with h Cons.prems(2) obtain outs' where outs: "outs = res # outs'" and rest: "exec_all (ca_exec cal) c1 hs = (outs', c')"
    by (auto simp: GetCertificate_def split: prod.splits)
  note one = LeafFor_inv [OF Cons.prems(1) l]
  note more = Cons.IH [OF one [THEN conjunct1] rest]
  have "map_of (ca_leaf c') (if fst ((h # hs) ! i) = [] then ''localhost'' else fst ((h # hs) ! i)) = Some crt"
    if "i < length (h # hs)" "outs ! i = Inr crt" for i crt
    using that one more by (cases i) (auto simp: h outs)
  with one more show ?case by auto
qed auto

section \<open>Loading\<close>

lemma generate_Inr:
  "generate cal t r = Inr (c, crtPEM, keyPEM) \<longleftrightarrow> (\<exists>key cert. rk_key r = Inr key \<and> rk_sign r = None \<and>
     cert = \<lparr>ct_serial = 1, ct_subject = ''portless local CA'', ct_issuer = ''portless local CA'', ct_dns = [],
       ct_notBefore = t - nano_hour, ct_notAfter = cal t 10, ct_isCA = True, ct_key = Some key, ct_signer = Some key\<rparr> \<and>
     c = \<lparr>ca_cert = cert, ca_key = key, ca_certPEM = CertPEM cert, ca_leaf = [], ca_serial = 0\<rparr> \<and>
     crtPEM = CertPEM cert \<and> keyPEM = KeyPEM key)"
  by (auto simp: generate_def Let_def CreateCertificate_def split: sum.splits option.splits)

lemma fromPEM_Inr:
  "fromPEM crtPEM keyPEM = Inr c \<longleftrightarrow> (\<exists>cert key. crtPEM = CertPEM cert \<and> keyPEM = KeyPEM key \<and>
     c = \<lparr>ca_cert = cert, ca_key = key, ca_certPEM = CertPEM cert, ca_leaf = [], ca_serial = 0\<rparr>)"
  by (auto simp: fromPEM_def split: content.splits)

lemma Load_Inr:
  assumes "Load mkdir cal t r wc wk d = (Inr c, d')"
  shows "(\<exists>crtPEM keyPEM. d' = d \<and> sd_crt d = Has crtPEM \<and> sd_key d = Has keyPEM \<and> fromPEM crtPEM keyPEM = Inr c) \<or>
    (\<exists>crtPEM keyPEM. generate cal t r = Inr (c, crtPEM, keyPEM) \<and> sd_crt d' = Has crtPEM \<and>
       ((\<nexists>err old. sd_key d = Unreadable err old) \<longrightarrow> sd_key d' = Has keyPEM))"
  using assms
  by (auto simp: Load_def WriteFile_def split: option.splits stored.splits sum.splits write_outcome.splits prod.splits)

lemma keyed_inv:
  "ca_keyed c \<Longrightarrow> ca_leaf c = [] \<Longrightarrow> ca_serial c = 0 \<Longrightarrow> ca_inv cal c"
  by (simp add: ca_inv_def)

lemma Load_fresh: "Load mkdir cal t r wc wk d = (Inr c, d') \<Longrightarrow> ca_leaf c = [] \<and> ca_serial c = 0"
  by (drule Load_Inr) (auto simp: fromPEM_Inr generate_Inr)

lemma generate_keyed: "generate cal t r = Inr (c, crtPEM, keyPEM) \<Longrightarrow> ca_keyed c"
  by (auto simp: generate_Inr ca_keyed_def)

section \<open>Serving\<close>

lemma issue_value:
  assumes "ca_keyed c" "0 \<le> ca_serial c" "rk_key r = Inr key" "rk_sign r = None" "isIA5String name"
  shows "issue cal t r name c = (Inr \<lparr>tc_chain = [\<lparr>ct_serial = ca_serial c + 1, ct_subject = name,
       ct_issuer = ct_subject (ca_cert c), ct_dns = [name], ct_notBefore = t - nano_hour, ct_notAfter = cal t 1,
       ct_isCA = False, ct_key = Some key, ct_signer = Some (ca_key c)\<rparr>, ca_cert c], tc_key = key\<rparr>,
     c\<lparr>ca_serial := ca_serial c + 1\<rparr>)"
  using assms by (simp add: issue_def Let_def CreateCertificate_def ca_keyed_def)

lemma issue_not_ascii:
  "\<not> isIA5String name \<Longrightarrow> \<exists>err. fst (issue cal t r name c) = Inl err"
  by (auto simp: issue_def Let_def CreateCertificate_def split: sum.split)

lemma leaf_good_for: "leaf_ok cal c n crt \<Longrightarrow> verifies root t m crt \<Longrightarrow> good_for n m"
  by (auto simp: leaf_ok_def verifies_def intro!: VerifyHostname_good [where n = n])

definition demo_cal :: calendar where
  "demo_cal t years = t + years * 365 * 24 * nano_hour"

definition demo_random :: "nat \<Rightarrow> randomness" where
  "demo_random k = \<lparr>rk_key = Inr k, rk_sign = None\<rparr>"

definition demo_ca :: CA where
  "demo_ca = (let cert = \<lparr>ct_serial = 1, ct_subject = ''portless local CA'', ct_issuer = ''portless local CA'',
       ct_dns = [], ct_notBefore = - nano_hour, ct_notAfter = demo_cal 0 10, ct_isCA = True,
       ct_key = Some 5, ct_signer = Some 5\<rparr>
     in \<lparr>ca_cert = cert, ca_key = 5, ca_certPEM = CertPEM cert, ca_leaf = [], ca_serial = 0\<rparr>)"

lemma demo_Load:
  "Load None demo_cal 0 (demo_random 5) Written Written \<lparr>sd_crt = Missing, sd_key = Missing\<rparr> =
     (Inr demo_ca, \<lparr>sd_crt = Has (ca_certPEM demo_ca), sd_key = Has (KeyPEM 5)\<rparr>)"
  by (simp add: Load_def generate_def demo_random_def CreateCertificate_def WriteFile_def demo_ca_def Let_def)

lemma demo_keyed: "ca_keyed demo_ca"
  by (simp add: ca_keyed_def demo_ca_def Let_def)

section \<open>Properties\<close>

text \<open>C32: The certificate authority survives a restart: once \<open>Load\<close> has returned a CA, whether it read it or
  generated it, loading the same directory again returns the same CA (certificate, key and PEM) whatever
  the clock and the random source then yield, and writes nothing; this holds unless the key file existed but
  could not be read.\<close>

theorem Load_persists:
  assumes "Load mkdir cal t r wc wk d = (Inr c, d')" and "\<nexists>err old. sd_key d = Unreadable err old"
  shows "Load None cal' t' r' wc' wk' d' = (Inr c, d')"
proof -
  from Load_Inr [OF assms(1)] assms(2) obtain crtPEM keyPEM where
    d': "sd_crt d' = Has crtPEM" "sd_key d' = Has keyPEM" and "fromPEM crtPEM keyPEM = Inr c"
    by (auto simp: generate_Inr fromPEM_Inr)
  then show ?thesis by (simp add: Load_def)
qed

theorem Load_persists_witness:
  "Load None demo_cal 99 (demo_random 8) Written Written
     \<lparr>sd_crt = Has (ca_certPEM demo_ca), sd_key = Has (KeyPEM 5)\<rparr> =
   (Inr demo_ca, \<lparr>sd_crt = Has (ca_certPEM demo_ca), sd_key = Has (KeyPEM 5)\<rparr>)"
  by (rule Load_persists [OF demo_Load]) simp

text \<open>C33: What a TLS client of the proxy gets: after any history of handshakes on a loaded CA with a matching
  key pair, a handshake for an ASCII name succeeds when the random source does; its certificate is the one every
  later handshake for that name gets and shares its serial with no other name's; it verifies for no host but that
  name up to case and a trailing dot or, where the name starts with a wildcard label, a name with one label in its
  place, and for no IP literal; and when it is newly issued, within the validity of the CA, it does verify for its
  name at that instant unless the name is an IP literal or a lone dot. A handshake for a name that is not ASCII
  fails and caches nothing.\<close>

theorem served_certificates:
  assumes "Load mkdir cal t0 r0 wc wk d = (Inr c, d')" and "ca_keyed c"
    and "exec_all (ca_exec cal) c hs = (outs, c1)"
    and "rk_key r = Inr key" and "rk_sign r = None"
    and "n = (if sni = [] then ''localhost'' else sni)"
  shows "(isIA5String n \<longrightarrow> (\<exists>crt c2. GetCertificate cal t r sni c1 = (Inr crt, c2) \<and>
      (\<forall>t' r'. GetCertificate cal t' r' sni c2 = (Inr crt, c2)) \<and>
      (\<forall>m x. map_of (ca_leaf c2) m = Some x \<and> serial_of x = serial_of crt \<longrightarrow> m = n) \<and>
      (\<forall>m t'. verifies (ca_cert c) t' m crt \<longrightarrow> good_for n m) \<and>
      (map_of (ca_leaf c1) n = None \<and> t \<le> cal t 1 \<and> ct_notBefore (ca_cert c) \<le> t \<and> t \<le> ct_notAfter (ca_cert c) \<and>
         \<not> ip_literal n \<and> n \<noteq> ''.'' \<longrightarrow> verifies (ca_cert c) t n crt))) \<and>
    (\<not> isIA5String n \<longrightarrow> (\<exists>err c2. GetCertificate cal t r sni c1 = (Inl err, c2) \<and> ca_leaf c2 = ca_leaf c1))"
proof -
  have "ca_inv cal c" using keyed_inv [OF assms(2)] Load_fresh [OF assms(1)] by blast
  from ca_run_inv [OF this assms(3)] have inv: "ca_inv cal c1" and same: "ca_cert c1 = ca_cert c" "ca_key c1 = ca_key c"
    by simp_all
  have lookup: "GetCertificate cal t' r' sni c' = LeafFor cal t' r' n c'" for t' r' c'
    by (simp add: GetCertificate_def assms(6))
  have k: "ca_keyed c1" "0 \<le> ca_serial c1" using inv by (auto simp: ca_inv_def)
  have ascii: "isIA5String n" if "map_of (ca_leaf c1) n = Some x" for x
    using inv that unfolding ca_inv_def leaf_ok_def by blast
  have n: "n \<noteq> []" using assms(6) by simp
  show ?thesis
  proof (intro conjI impI)
    assume "\<not> isIA5String n"
    moreover obtain res c2 where "issue cal t r n c1 = (res, c2)" by fastforce
    moreover have "map_of (ca_leaf c1) n = None" using ascii calculation(1) by (cases "map_of (ca_leaf c1) n") auto
    ultimately show "\<exists>err c2. GetCertificate cal t r sni c1 = (Inl err, c2) \<and> ca_leaf c2 = ca_leaf c1"
      using issue_not_ascii [of n cal t r c1] issue_same(3) [of cal t r n c1 res c2]
      by (auto simp: lookup LeafFor_def)
  next
    assume a: "isIA5String n"
    note v = issue_value [OF k assms(4,5) a, of cal t]
    obtain res c2 where l: "LeafFor cal t r n c1 = (res, c2)" by fastforce
    have "isl res = False" using l v by (auto simp: LeafFor_def split: option.splits)
    then obtain crt where res: "res = Inr crt" by (cases res) auto
    from LeafFor_inv [OF inv l] res have inv2: "ca_inv cal c2" and m: "map_of (ca_leaf c2) n = Some crt" by auto
    have lo: "leaf_ok cal c2 n crt" using inv2 m unfolding ca_inv_def by blast
    have "\<forall>m' x. map_of (ca_leaf c2) m' = Some x \<and> serial_of x = serial_of crt \<longrightarrow> m' = n"
      using inv2 m unfolding ca_inv_def by blast
    moreover have "verifies (ca_cert c) t n crt"
      if "map_of (ca_leaf c1) n = None" "t \<le> cal t 1" "ct_notBefore (ca_cert c) \<le> t" "t \<le> ct_notAfter (ca_cert c)"
        "\<not> ip_literal n" "n \<noteq> ''.''"
    proof -
      from l v that(1) k(1) that(2-4) VerifyHostname_self [OF _ n that(6,5)] show ?thesis
        by (auto simp: LeafFor_def res verifies_def ca_keyed_def same)
    qed
    ultimately show "\<exists>crt c2. GetCertificate cal t r sni c1 = (Inr crt, c2) \<and>
      (\<forall>t' r'. GetCertificate cal t' r' sni c2 = (Inr crt, c2)) \<and>
      (\<forall>m x. map_of (ca_leaf c2) m = Some x \<and> serial_of x = serial_of crt \<longrightarrow> m = n) \<and>
      (\<forall>m t'. verifies (ca_cert c) t' m crt \<longrightarrow> good_for n m) \<and>
      (map_of (ca_leaf c1) n = None \<and> t \<le> cal t 1 \<and> ct_notBefore (ca_cert c) \<le> t \<and> t \<le> ct_notAfter (ca_cert c) \<and>
         \<not> ip_literal n \<and> n \<noteq> ''.'' \<longrightarrow> verifies (ca_cert c) t n crt)"
      using m l leaf_good_for [OF lo]
      by (intro exI [of _ crt] exI [of _ c2] conjI) (auto simp: lookup LeafFor_def res)
  qed
qed

theorem served_certificates_witness:
  "\<exists>crt c2. GetCertificate demo_cal 7 (demo_random 6) [] demo_ca = (Inr crt, c2) \<and>
     verifies (ca_cert demo_ca) 7 ''localhost'' crt \<and> \<not> verifies (ca_cert demo_ca) 7 ''web.test'' crt"
proof -
  have e: "exec_all (ca_exec demo_cal) demo_ca [] = ([], demo_ca)" by simp
  have r: "rk_key (demo_random 6) = Inr 6" "rk_sign (demo_random 6) = None" by (simp_all add: demo_random_def)
  have n: "isIA5String ''localhost''" "\<not> ip_literal ''localhost''" "\<not> good_for ''localhost'' ''web.test''"
    by (code_simp, code_simp, simp add: good_for_def same_host_def to_lower_def)
  from served_certificates [OF demo_Load demo_keyed e r, where sni = "[]" and t = 7, OF refl] n(1)
  obtain crt c2 where crt: "GetCertificate demo_cal 7 (demo_random 6) [] demo_ca = (Inr crt, c2)"
    and others: "\<forall>m t'. verifies (ca_cert demo_ca) t' m crt \<longrightarrow> good_for ''localhost'' m"
    and own: "map_of (ca_leaf demo_ca) ''localhost'' = None \<and> 7 \<le> demo_cal 7 1 \<and> ct_notBefore (ca_cert demo_ca) \<le> 7 \<and>
      7 \<le> ct_notAfter (ca_cert demo_ca) \<and> \<not> ip_literal ''localhost'' \<and> ''localhost'' \<noteq> ''.'' \<longrightarrow>
      verifies (ca_cert demo_ca) 7 ''localhost'' crt" by auto
  from own have "verifies (ca_cert demo_ca) 7 ''localhost'' crt"
    using n(2) by (simp add: demo_ca_def Let_def demo_cal_def)
  with crt others n(3) show ?thesis by blast
qed

section \<open>Departures\<close>

text \<open>
  Serials repeat: the first leaf of every process lifetime has the serial of the CA certificate itself, and
  leaves of different names from two lifetimes share theirs, with the same issuer.
\<close>

theorem serials_repeat_across_restarts:
  assumes "generate cal t r = Inr (c, crtPEM, keyPEM)" and "rk_key r' = Inr key" and "rk_sign r' = None"
    and "isIA5String n" and "isIA5String m"
  shows "\<exists>x y. fst (LeafFor cal t1 r' n c) = Inr x \<and> fst (LeafFor cal t2 r' m c) = Inr y \<and>
    serial_of x = ct_serial (ca_cert c) \<and> serial_of y = serial_of x \<and>
    ct_issuer (hd (tc_chain x)) = ct_issuer (ca_cert c) \<and> ct_issuer (hd (tc_chain y)) = ct_issuer (ca_cert c)"
proof -
  from assms(1) have c: "ca_leaf c = []" "ca_serial c = 0" "ct_serial (ca_cert c) = 1"
    "ct_issuer (ca_cert c) = ct_subject (ca_cert c)" by (auto simp: generate_Inr)
  have "ca_keyed c" by (rule generate_keyed [OF assms(1)])
  note v = issue_value [OF this _ assms(2,3)]
  have "issue cal t0 r' x c = (Inr \<lparr>tc_chain = [\<lparr>ct_serial = 1, ct_subject = x,
       ct_issuer = ct_subject (ca_cert c), ct_dns = [x], ct_notBefore = t0 - nano_hour, ct_notAfter = cal t0 1,
       ct_isCA = False, ct_key = Some key, ct_signer = Some (ca_key c)\<rparr>, ca_cert c], tc_key = key\<rparr>,
     c\<lparr>ca_serial := 1\<rparr>)" if "isIA5String x" for t0 x using c(2) that by (simp add: v)
  with assms(4,5) show ?thesis using c by (simp add: LeafFor_def serial_of_def)
qed

text \<open>
  A key that cannot be read costs the CA: \<open>Load\<close> overwrites the certificate, and when writing the key fails
  too, the directory is left with a pair that does not belong together; loading it once the key can be read
  again succeeds, and from then on no certificate can be issued.
\<close>

theorem unreadable_key_breaks_the_ca:
  assumes "sd_crt d = Has old" and "sd_key d = Unreadable err (KeyPEM key)"
    and "rk_key r = Inr key'" and "rk_sign r = None" and "key' \<noteq> key"
  shows "\<exists>e crt c. Load None cal t r Written (WriteFails err (sd_key d)) d = (Inl e, d\<lparr>sd_crt := Has (CertPEM crt)\<rparr>) \<and>
    Load None cal t' r2 wc wk (d\<lparr>sd_crt := Has (CertPEM crt), sd_key := Has (KeyPEM key)\<rparr>) =
      (Inr c, d\<lparr>sd_crt := Has (CertPEM crt), sd_key := Has (KeyPEM key)\<rparr>) \<and>
    (\<forall>t2 r3 n. isl (fst (LeafFor cal t2 r3 n c)))"
proof -
  let ?crt = "\<lparr>ct_serial = 1, ct_subject = ''portless local CA'', ct_issuer = ''portless local CA'', ct_dns = [],
       ct_notBefore = t - nano_hour, ct_notAfter = cal t 10, ct_isCA = True, ct_key = Some key', ct_signer = Some key'\<rparr>"
  let ?c = "\<lparr>ca_cert = ?crt, ca_key = key, ca_certPEM = CertPEM ?crt, ca_leaf = [], ca_serial = 0\<rparr>"
  have "\<forall>t2 r3 n. isl (fst (LeafFor cal t2 r3 n ?c))"
    using assms(5) by (auto simp: LeafFor_def issue_def CreateCertificate_def Let_def split: sum.split)
  moreover have "generate cal t r = Inr (\<lparr>ca_cert = ?crt, ca_key = key', ca_certPEM = CertPEM ?crt, ca_leaf = [],
      ca_serial = 0\<rparr>, CertPEM ?crt, KeyPEM key')" using assms(3,4) by (simp add: generate_Inr)
  ultimately show ?thesis
    using assms(1,2)
    by (intro exI [of _ "Errorf ''ca: write key: %w'' [] [err]"] exI [of _ ?crt] exI [of _ ?c])
       (simp add: Load_def WriteFile_def fromPEM_def)
qed

text \<open>A cached leaf is never renewed: it is served after it has expired.\<close>

theorem expired_leaf_is_served:
  assumes "ca_keyed c" "0 \<le> ca_serial c" "map_of (ca_leaf c) n = None" "rk_key r = Inr key" "rk_sign r = None"
    "isIA5String n" and "cal t 1 < t'"
  shows "\<exists>crt c'. LeafFor cal t r n c = (Inr crt, c') \<and> LeafFor cal t' r' n c' = (Inr crt, c') \<and>
    \<not> verifies (ca_cert c) t' n crt"
  using assms(3,7) by (simp add: LeafFor_def issue_value [OF assms(1,2,4,5,6)] verifies_def)

end
