(* ===== verification/End_To_End.thy ===== *)
theory End_To_End
  imports Portless Ca
begin

text \<open>
  Properties of whole paths through the program: from the command that names a service over the control socket and
  the registry to the proxy that tunnels to it; from a request of a client to the connection of the service it
  names.
\<close>

section \<open>A service that boots\<close>

lemma booting_conn:
  assumes "dialRoute (New_config []) (plain_route name (TCP (booting_net R dur addr c) i addr)) ctx nw a w = Some (Inr c', w')"
  shows "c' = c"
proof -
  let ?rt = "plain_route name (TCP (booting_net R dur addr c) i addr) :: 'a Route"
  let ?Q = "\<lambda>r :: (goerr + conn) \<times> 'a world. \<forall>x. fst r = Inr x \<longrightarrow> x = c"
  from assms have "dial_loop (New_config []) ?rt (dial_ctx ?rt ctx w) nw a (now w) 0 dial_backoff w = Some (Inr c', w')"
    by (simp add: dialRoute_def Let_def)
  then have "?Q (Inr c', w')"
  proof (rule dial_loop_invariant [where I = "\<lambda>_ _ _. True" and Q = ?Q])
    fix k bo v and r :: "(goerr + conn) \<times> 'a world"
    assume rd: "dial_round (New_config []) ?rt (dial_ctx ?rt ctx w) nw a (now w) k bo v = Inl r"
    obtain res v1 where at: "dial_attempt ?rt (dial_ctx ?rt ctx w) nw a v = (res, v1)" by fastforce
    then have "res = Inr x \<Longrightarrow> x = c" for x
      by (auto simp: dial_attempt_def tcp_DialContext_def Dialer_DialContext_def booting_net_def Let_def
          split: sum.splits option.splits if_splits prod.splits)
    with rd at show "?Q r"
      by (cases res) (auto simp: dial_round_def dial_fail_def Let_def
          split: sum.splits option.splits prod.splits if_splits wake.splits)
  qed simp_all
  then show ?thesis by simp
qed

lemma booting_dialed:
  assumes "L = max (now w) (R + int dur + 625 * nano_ms)" and "patient defaultReadyTimeout ctx w (L + int dur)" and "open_until L w"
  shows "\<exists>w'. dialRoute (New_config []) (plain_route name (TCP (booting_net R dur addr c) i addr)) ctx nw a w = Some (Inr c, w')"
proof -
  obtain c' w' where d: "dialRoute (New_config []) (plain_route name (TCP (booting_net R dur addr c) i addr)) ctx nw a w = Some (Inr c', w')"
    using booting_tcp.dialRoute_ready [OF TrueI _ patient_alive [OF assms(2)] assms(3)] assms(1) by fastforce
  with booting_conn [OF d] show ?thesis by simp
qed

section \<open>A named service\<close>

lemma Add_plain:
  fixes r :: "'x Registry"
  assumes ok: "table_ok (New_config []) (r, w)" "\<not> r_closed r" and free: "published r (to_lower name) = None" and "name \<noteq> []"
    and st: "Add_start (plain_route name b) ctx w = (None, w1)"
    and add: "Add r ctx name (Some b) [] w = (res, r', w')"
  shows "res = Inr (plain_route name b)" and "published r' = (published r)(to_lower name \<mapsto> plain_route name b)"
    and "r_cfg r' = New_config []" and "\<not> r_closed r'" and "w' = w1"
proof -
  from ok have cfg: "r_cfg r = New_config []" and q: "quiescent r" by (simp_all add: table_ok_def)
  have chk: "Add_check (New_config []) name (Some b) [] = Inr (plain_route name b)"
    using \<open>name \<noteq> []\<close> by (simp add: Add_check_def plain_route_def route_config_def Let_def validateHostRewrite_def)
  from add chk st ok(2) free q cfg show "res = Inr (plain_route name b)" "r_cfg r' = New_config []" "\<not> r_closed r'" "w' = w1"
    by (auto simp: Add_value published_None_iff with_flag_def split: if_splits)
  from Add_published [OF q add] \<open>res = Inr (plain_route name b)\<close>
  show "published r' = (published r)(to_lower name \<mapsto> plain_route name b)" by simp
qed

lemma TCP_start: "Add_start (plain_route name (TCP net i addr)) ctx w = (None, w)"
  by (simp add: Add_start_def TCP_def simple_backend_def)

lemma alias_value:
  assumes P: "pl_client P = api_client a ctx" and d: "outside s = Some d"
    and n: "bare name" "bare addr" "ParseTCP_addr (pl_url_Parse P) (pl_services P) addr = Inr norm"
    and c: "client_AddRoute a ctx (tcp_spec name addr) (Some d) = (res, st)"
  shows "\<exists>s'. cmdAlias P [name, addr] s = Some (map_option CmdErr res, s') \<and> outside s' = st"
  using ensureDaemon_up [OF P, of "DefaultSocketPath (pl_env P)" d] P d n(3) c Parse_two [OF n(1,2), of "[socket_flag P]"]
  by (cases res) (simp_all add: cmdAlias_def with_daemon_def alias_add_def outside_do_def api_client_def
      socket_flag_def flag_string_def Println_def)

text \<open>What the proxy does with a CONNECT to a route whose dial ends with a connection.\<close>

lemma connect_tunnels:
  assumes r: "r_cfg r = New_config []" "\<not> r_closed r" "published r (to_lower (hostOf (rq_host q))) = Some rt"
    and d: "dialRoute (New_config []) rt ctx ''tcp'' (rq_host q) w = Some (Inr c, w')"
  shows "\<exists>w'. connect_via r False ctx q (Hijacked cl buf) True True w = Some (ConnectTunneled buf, w') \<and>
    {conn_id c, conn_id cl} \<subseteq> set (closed_conns w')"
  using assms by (simp add: connect_via_def Dial_value handleConnect_def close_conn_def Let_def)

section \<open>A local listener\<close>

lemma bridge_delivers:
  assumes "reachable (\<lambda>p. p = pipe_start req resp) (pipe_step Bridge up_cw cl_cw) p"
  shows "(\<exists>rest. req = pp_up_got p @ rest) \<and> (\<exists>rest. resp = pp_cl_got p @ rest) \<and>
    (pp_finished p \<and> \<not> pp_broken p \<longrightarrow> pp_cl_got p = resp \<and> (cl_cw \<longrightarrow> pp_up_got p = req))"
  using pipe_sys.reachable_inv [OF assms] unfolding pipe_inv_def by auto

lemma ListenLocal_registry:
  assumes "ListenLocal r name listen w = (Inr l, r', w')"
  shows "r_closed r' = r_closed r" "r_cfg r' = r_cfg r" "published r' = published r" "\<not> r_closed r"
  using assms by (auto simp: ListenLocal_def published_def split: if_splits option.splits sum.splits prod.splits bool.splits)

lemma bridge_patient:
  "T < now w + defaultReadyTimeout \<Longrightarrow> open_until T w \<Longrightarrow> patient defaultReadyTimeout (bridge_ctx w) w T"
  by (auto simp: patient_def bridge_ctx_def open_until_def split: option.split)

section \<open>A named HTTP request\<close>

text \<open>A host name as it stands in a URL: no colon, no brackets.\<close>

definition plain_host :: "string \<Rightarrow> bool" where
  "plain_host h \<longleftrightarrow> set h \<inter> {CHR '':'', CHR ''['', CHR '']''} = {}"

lemma plain_hostD [simp]:
  "plain_host h \<Longrightarrow> SplitHostPort h = None" "plain_host h \<Longrightarrow> plain_host p \<Longrightarrow> SplitHostPort (h @ CHR '':'' # p) = Some (h, p)"
  "plain_host h \<Longrightarrow> JoinHostPort h p = h @ CHR '':'' # p" "plain_host ''80''"
  using SplitHostPort_JoinHostPort [of p h] by (auto simp: plain_host_def SplitHostPort_no_colon JoinHostPort_def)

lemma hostOf_plain [simp]: "plain_host h \<Longrightarrow> plain_host p \<Longrightarrow> hostOf (h @ CHR '':'' # p) = h"
  by (simp add: hostOf_def)

lemma dial_addr_host:
  "plain_host h \<Longrightarrow> plain_host p \<Longrightarrow> rq_url_host q = h \<or> rq_url_host q = h @ CHR '':'' # p \<Longrightarrow> hostOf (dial_addr q) = h"
  by (auto simp: dial_addr_def)

lemma no_rewrite:
  "reg_inv r \<Longrightarrow> plain_host h \<Longrightarrow> plain_host p \<Longrightarrow> u = h \<or> u = h @ CHR '':'' # p \<Longrightarrow> Lookup r h = Some (plain_route n b) \<Longrightarrow> HostRewrite r u = None"
  by (auto simp: HostRewrite_flag HostRewrite_slow_def plain_route_def route_config_def Let_def)

text \<open>Forwarding over the transport of a registry that has the route is forwarding over a connection to the service.\<close>

lemma forward_reaches:
  fixes q :: request
  assumes tr: "transport_dials reg ctx exchange tr" and r: "reg_inv reg" "r_cfg reg = New_config []" "\<not> r_closed reg"
    and rt: "published reg (to_lower name) = Some (plain_route name' (TCP (booting_net R dur addr c) i addr))"
    and h: "plain_host h" "plain_host p" "to_lower h = to_lower name" "rq_url_host q = h \<or> rq_url_host q = h @ CHR '':'' # p"
    and t: "L = max (now w) (R + int dur + 625 * nano_ms)" "patient defaultReadyTimeout ctx w (L + int dur)" "open_until L w"
  shows "\<exists>w'. forward (registry_rewriter reg) tr q w = forward None (exchange c) q w'"
proof -
  have hr: "HostRewrite reg (rq_url_host q) = None"
    using no_rewrite [OF r(1) h(1,2,4)] rt h(3) by (simp add: Lookup_published)
  then have out: "outgoing (registry_rewriter reg) q = outgoing None q"
    by (simp add: outgoing_def applyHostRewrite_def registry_rewriter_def)
  have da: "dial_addr (outgoing None q) = dial_addr q" by (simp only: dial_addr_def outgoing_fields)
  obtain w' where "dialRoute (New_config []) (plain_route name' (TCP (booting_net R dur addr c) i addr)) ctx ''tcp'' (dial_addr q) w = Some (Inr c, w')"
    using booting_dialed [OF t] by blast
  then have "DialContext reg ctx ''tcp'' (dial_addr (outgoing None q)) w = Some (Inr c, w')"
    using r rt h(3) dial_addr_host [OF h(1,2,4)] by (simp add: Dial_value da)
  with tr have "tr (outgoing None q) w = exchange c (outgoing None q) w'" by (simp add: transport_dials_def)
  then show ?thesis by (auto simp: forward_def out)
qed

text \<open>The leaf that is served, a new one or one from the cache, verifies while it is valid.\<close>

definition leaves_current :: "CA \<Rightarrow> string \<Rightarrow> int \<Rightarrow> bool" where
  "leaves_current c n t \<longleftrightarrow> (\<forall>crt leaf. map_of (ca_leaf c) n = Some crt \<and> leaf \<in> set (tc_chain crt) \<longrightarrow>
     ct_notBefore leaf \<le> t \<and> t \<le> ct_notAfter leaf)"

lemma leaf_verifies:
  assumes inv: "ca_inv cal c" and k: "rk_key rr = Inr key" "rk_sign rr = None"
    and n: "isIA5String n" "\<not> ip_literal n" "n \<noteq> []" "n \<noteq> ''.''"
    and t: "leaves_current c n t" "t \<le> cal t 1" "ct_notBefore (ca_cert c) \<le> t" "t \<le> ct_notAfter (ca_cert c)"
  shows "\<exists>crt c'. GetCertificate cal t rr n c = (Inr crt, c') \<and> verifies (ca_cert c) t n crt"
proof (cases "map_of (ca_leaf c) n")
  case None
  from inv have "ca_keyed c" "0 \<le> ca_serial c" by (auto simp: ca_inv_def)
  with issue_value [OF this k n(1), of cal t] None n t VerifyHostname_self [OF _ n(3,4,2)] show ?thesis
    by (simp add: GetCertificate_def LeafFor_def verifies_def ca_keyed_def)
next
  case (Some crt)
  with inv have "leaf_ok cal c n crt" and k: "ca_keyed c" unfolding ca_inv_def by blast+
  with Some t have "verifies (ca_cert c) t n crt"
    using VerifyHostname_self [OF _ n(3,4,2)] unfolding leaves_current_def leaf_ok_def
    by (auto simp: verifies_def ca_keyed_def)
  with Some n(3) show ?thesis by (simp add: GetCertificate_def LeafFor_def)
qed

section \<open>Properties\<close>

text \<open>C2: A service becomes reachable by the name it is given: when a daemon runs and the name is free, \<open>alias\<close> reports
  success (for a name and an address that are valid UTF-8, start with no dash, and whose address \<open>ParseTCP\<close> accepts),
  and in the registry it leaves every CONNECT to that name through a proxy without TLS termination, in any case and
  with any port, is answered with a tunnel over a connection to the service's address. This holds even when the
  CONNECT comes before the service is up, as long as the registry is not closed and the caller stays until one backoff
  step and two connection attempts after that, and until then neither its deadline nor, for a caller without one, the
  60 seconds of the default ready timeout have passed; when the tunnel ends both connections are closed. This goes
  through the flags, the bytes on the control socket, the handler, the factory, the registry, the readiness loop and
  the proxy.\<close>

theorem alias_makes_service_reachable:
  fixes a :: "'x api"
  assumes P: "pl_client P = api_client a ctx" and d: "outside s = Some d" "daemon_ok (New_config []) a d" "\<not> r_closed (dm_reg d)"
    and f: "lookupFactory ''tcp'' (ap_factories a) = Some (tcp_factory (pl_url_Parse P) (pl_services P) (booting_net R dur norm c) i)"
    and n: "bare name" "bare addr" "ValidString name" "ValidString addr" "table d (to_lower name) = None"
    and p: "ParseTCP_addr (pl_url_Parse P) (pl_services P) addr = Inr norm"
  shows "\<exists>s' d'. cmdAlias P [name, addr] s = Some (None, s') \<and> outside s' = Some d' \<and>
    (\<forall>q cx w L cl buf. to_lower (hostOf (rq_host q)) = to_lower name \<and> L = max (now w) (R + int dur + 625 * nano_ms) \<and>
       patient defaultReadyTimeout cx w (L + int dur) \<and> open_until L w \<longrightarrow>
       (\<exists>w'. connect_via (dm_reg d') False cx q (Hijacked cl buf) True True w = Some (ConnectTunneled buf, w') \<and>
          {conn_id c, conn_id cl} \<subseteq> set (closed_conns w')))"
proof -
  let ?b = "TCP (booting_net R dur norm c) i norm :: 'x Backend"
  have ne: "name \<noteq> []" using n(1) by (simp add: bare_def)
  from tcp_spec_added [OF f ne n(3,4) p, of ctx d] obtain res d' out where
    c: "client_AddRoute a ctx (tcp_spec name addr) (Some d) = (res, Some d')"
    and add: "Add (dm_reg d) ctx name (Some ?b) [] (dm_world d) = (out, dm_reg d', dm_world d')"
    and res: "res = None \<longleftrightarrow> is_ok out" by blast
  have ok: "table_ok (New_config []) (dm_reg d, dm_world d)" using d(2) by (simp add: daemon_ok_def api_ok_def)
  have free: "published (dm_reg d) (to_lower name) = None" using n(5) table_Some_iff [OF d(2)] by simp
  note added = Add_plain [OF ok d(3) free ne TCP_start add]
  from added(1) res have "res = None" by simp
  with alias_value [OF P d(1) n(1,2) p c] obtain s' where s': "cmdAlias P [name, addr] s = Some (None, s')" "outside s' = Some d'"
    by auto
  show ?thesis
  proof (intro exI [of _ s'] exI [of _ d'] conjI allI impI)
    fix q :: request and cx and w :: "'x world" and L cl buf
    assume h: "to_lower (hostOf (rq_host q)) = to_lower name \<and> L = max (now w) (R + int dur + 625 * nano_ms) \<and>
       patient defaultReadyTimeout cx w (L + int dur) \<and> open_until L w"
    then have rt: "published (dm_reg d') (to_lower (hostOf (rq_host q))) = Some (plain_route name ?b)" using added(2) by simp
    from h obtain w' where "dialRoute (New_config []) (plain_route name ?b) cx ''tcp'' (rq_host q) w = Some (Inr c, w')"
      using booting_dialed by blast
    from connect_tunnels [OF added(3,4) rt this]
    show "\<exists>w'. connect_via (dm_reg d') False cx q (Hijacked cl buf) True True w = Some (ConnectTunneled buf, w') \<and>
          {conn_id c, conn_id cl} \<subseteq> set (closed_conns w')" by blast
  qed (rule s')+
qed

definition boot_net :: network where
  "boot_net = booting_net (2 * nano_s) 1000 ''h:1'' (Conn 7 True None)"

definition boot_api :: "Event list api" where
  "boot_api = demo_api\<lparr>ap_factories := [(''tcp'', tcp_factory (\<lambda>_. Inl (ErrNew [])) (\<lambda>_. None) boot_net 1)]\<rparr>"

definition boot_platform :: "Event list daemon option platform" where
  "boot_platform = demo_platform (api_client boot_api Background) (\<lambda>_. 0) (\<lambda>_ d. d)"

lemma boot_daemon_ok: "daemon_ok (New_config []) boot_api demo_daemon"
  using api_ok_New [of "[]" "ap_factories boot_api" "[]" 0 demo_world]
  by (simp add: daemon_ok_def demo_daemon_def specs_clean_def NewServer_def)

lemma demo_table: "table demo_daemon k = None"
  by (simp add: demo_daemon_def table_def published_def registry_New_def)

lemma boot_time:
  "patient defaultReadyTimeout Background demo_world (max (now demo_world) (2 * nano_s + int 1000 + 625 * nano_ms) + int 1000)"
  "open_until (max (now demo_world) (2 * nano_s + int 1000 + 625 * nano_ms)) demo_world"
  by (simp_all add: patient_def Background_def demo_world_def open_until_def defaultReadyTimeout_def)

theorem alias_makes_service_reachable_witness:
  "\<exists>s' d' w'. cmdAlias boot_platform [''web'', ''h:1''] \<lparr>outside = Some demo_daemon, stdout = [], stderr = []\<rparr> = Some (None, s') \<and>
     outside s' = Some d' \<and>
     connect_via (dm_reg d') False Background (demo_request\<lparr>rq_host := ''WEB:443''\<rparr>) (Hijacked (Conn 3 True None) ''x'') True True demo_world
       = Some (ConnectTunneled ''x'', w')"
proof -
  have P: "pl_client boot_platform = api_client boot_api Background" by (simp add: boot_platform_def demo_platform_def)
  have f: "lookupFactory ''tcp'' (ap_factories boot_api) = Some (tcp_factory (pl_url_Parse boot_platform) (pl_services boot_platform)
      (booting_net (2 * nano_s) 1000 ''h:1'' (Conn 7 True None)) 1)"
    by (simp add: lookupFactory_def boot_api_def boot_platform_def demo_platform_def boot_net_def)
  have v: "ValidString ''web''" "ValidString ''h:1''" by (rule ValidString_ascii; simp add: byte_def)+
  have p: "ParseTCP_addr (pl_url_Parse boot_platform) (pl_services boot_platform) ''h:1'' = Inr ''h:1''" by code_simp
  have h: "to_lower (hostOf ''WEB:443'') = to_lower ''web''" by code_simp
  have "\<not> r_closed (dm_reg demo_daemon)" by (simp add: demo_daemon_def registry_New_def)
  from alias_makes_service_reachable [OF P _ boot_daemon_ok this f _ _ v demo_table p,
      of "\<lparr>outside = Some demo_daemon, stdout = [], stderr = []\<rparr>"] obtain s' d' where
    r: "cmdAlias boot_platform [''web'', ''h:1''] \<lparr>outside = Some demo_daemon, stdout = [], stderr = []\<rparr> = Some (None, s')"
      "outside s' = Some d'"
    and all: "\<And>q cx w L cl buf. to_lower (hostOf (rq_host q)) = to_lower ''web'' \<and> L = max (now w) (2 * nano_s + int 1000 + 625 * nano_ms) \<and>
       patient defaultReadyTimeout cx w (L + int 1000) \<and> open_until L w \<Longrightarrow>
       \<exists>w'. connect_via (dm_reg d') False cx q (Hijacked cl buf) True True w = Some (ConnectTunneled buf, w')"
    by (simp add: bare_def) blast
  have "\<exists>w'. connect_via (dm_reg d') False Background (demo_request\<lparr>rq_host := ''WEB:443''\<rparr>) (Hijacked (Conn 3 True None) ''x'') True True demo_world
       = Some (ConnectTunneled ''x'', w')"
    by (rule all [where L = "max (now demo_world) (2 * nano_s + int 1000 + 625 * nano_ms)"]) (use h boot_time in simp)
  with r show ?thesis by blast
qed


definition boot_registry :: "Event list Registry" where
  "boot_registry = (registry_New [])\<lparr>r_routes := [(''web'', Some (plain_route ''web'' (TCP boot_net 1 ''h:1'')))]\<rparr>"

lemma boot_registry_ok: "table_ok (New_config []) (boot_registry, demo_world)"
proof -
  let ?b = "TCP boot_net 1 ''h:1'' :: Event list Backend"
  have "Add_check (New_config []) ''web'' (Some ?b) [] = Inr (plain_route ''web'' ?b)"
    by (simp add: Add_check_def plain_route_def route_config_def Let_def validateHostRewrite_def)
  moreover have "Add_start (plain_route ''web'' ?b) Background demo_world = (None, demo_world)"
    by (simp add: Add_start_def TCP_def simple_backend_def)
  ultimately have "Add (registry_New []) Background ''web'' (Some ?b) [] demo_world = (Inr (plain_route ''web'' ?b), boot_registry, demo_world)"
    by (simp add: Add_value registry_New_def with_flag_def boot_registry_def to_lower_web)
       (simp add: plain_route_def route_config_def Let_def)
  then have "exec_all reg_exec (registry_New [], demo_world) [OpAdd Background ''web'' (Some ?b) []]
      = ([OutAdd (Inr (plain_route ''web'' ?b))], boot_registry, demo_world)" by simp
  from registry_table.run_refines [OF table_ok_New this] show ?thesis by simp
qed

definition boot_transport :: "Event list roundtrip" where
  "boot_transport q w = (case DialContext boot_registry Background ''tcp'' (dial_addr q) w of
      Some (Inr c, w') \<Rightarrow> (Inr demo_response, w') | Some (Inl err, w') \<Rightarrow> (Inl err, w') | None \<Rightarrow> (Inl (ErrNew []), w))"


text \<open>C15: A program that knows nothing of the registry reaches a service through a local listener: after a
  \<open>ListenLocal\<close> for a name, a connection that the listener accepts is bridged to the service of that name, also when the service
  comes up only after it, within the ready timeout; and however the two copy loops then interleave, each side has
  received a prefix of what the other sent, and when the bridge has ended without interference the client has the
  whole response, and the service the whole request if the client connection can be half-closed.\<close>

theorem local_client_reaches_service:
  assumes r: "table_ok (New_config []) (r, w0)" and ls: "ListenLocal r name listen w0 = (Inr l, r', w1)"
    and rt: "published r (to_lower name) = Some (plain_route name' (TCP (booting_net R dur addr c) i addr))"
    and t: "L = max (now w) (R + int dur + 625 * nano_ms)" "L + int dur < now w + defaultReadyTimeout" "open_until (L + int dur) w"
  shows "\<exists>w'. bridgeConn r' cl name w = Some (Some c, w') \<and>
    (\<forall>req resp p. reachable (\<lambda>p. p = pipe_start req resp) (pipe_step Bridge (has_close_write c) (has_close_write cl)) p \<longrightarrow>
       (\<exists>rest. req = pp_up_got p @ rest) \<and> (\<exists>rest. resp = pp_cl_got p @ rest) \<and>
       (pp_finished p \<and> \<not> pp_broken p \<longrightarrow> pp_cl_got p = resp \<and> (has_close_write cl \<longrightarrow> pp_up_got p = req)))"
proof -
  from r have inv: "r_cfg r = New_config []" by (simp add: table_ok_def)
  note r' = ListenLocal_registry [OF ls]
  have "Lookup r' name = Some (plain_route name' (TCP (booting_net R dur addr c) i addr))"
    using rt r'(3) by (simp add: Lookup_published)
  moreover have "open_until L w" using t(3) by (auto simp: open_until_def split: option.splits)
  then obtain w' where "dialRoute (New_config []) (plain_route name' (TCP (booting_net R dur addr c) i addr)) (bridge_ctx w)
      ''tcp'' (JoinHostPort name' (itoa 0)) w = Some (Inr c, w')"
    using booting_dialed [OF t(1) bridge_patient [OF t(2,3)]] by blast
  ultimately have "bridgeConn r' cl name w = Some (Some c, w')"
    using r' inv by (simp add: bridgeConn_def bridgeDialPort_def)
  then show ?thesis using bridge_delivers by blast
qed

theorem local_client_reaches_service_witness:
  "\<exists>r' w1 w'. ListenLocal boot_registry ''WEB'' (Inr 4) demo_world = (Inr 4, r', w1) \<and>
     bridgeConn r' (Conn 9 True None) ''WEB'' demo_world = Some (Some (Conn 7 True None), w')"
proof -
  have w: "to_lower ''WEB'' = ''web''" by code_simp
  then have "\<exists>r'. ListenLocal boot_registry ''WEB'' (Inr 4) demo_world = (Inr 4, r', demo_world)"
    by (simp add: ListenLocal_def boot_registry_def registry_New_def Lookup_def bridgeDialPort_def bridges_add_def)
  then obtain r' where l: "ListenLocal boot_registry ''WEB'' (Inr 4) demo_world = (Inr 4, r', demo_world)" ..
  have rt: "published boot_registry (to_lower ''WEB'') = Some (plain_route ''web'' (TCP (booting_net (2 * nano_s) 1000 ''h:1'' (Conn 7 True None)) 1 ''h:1''))"
    by (simp add: w boot_registry_def published_def boot_net_def)
  have "\<exists>w'. bridgeConn r' (Conn 9 True None) ''WEB'' demo_world = Some (Some (Conn 7 True None), w')"
    using local_client_reaches_service [OF boot_registry_ok l rt refl, of demo_world "Conn 9 True None"]
    by (auto simp: demo_world_def defaultReadyTimeout_def open_until_def)
  with l show ?thesis by blast
qed

end
