(* ===== verification/K8s_Resolve.thy ===== *)
theory K8s_Resolve
  imports Control
begin

text \<open>
  \<open>k8s/resolve.go\<close> and the options of \<open>k8s/portforward.go\<close> and \<open>k8s/register.go\<close>: from the options of a
  port-forward backend to a ready pod and a container port. The Kubernetes API is a record of functions, a
  parameter; of the API objects the model keeps the fields the resolver reads.
\<close>

named_theorems go_k8s "rules of the port-forward backend"

section \<open>API objects\<close>

datatype int_or_string = IntPort int | StrPort string

record container =
  ct_name :: string
  ct_ports :: "(string \<times> int) list"   \<comment> \<open>port name and container port\<close>
  ct_always :: bool                      \<comment> \<open>\<open>RestartPolicy\<close> set to \<open>Always\<close>\<close>

record pod =
  pd_namespace :: string
  pd_name :: string
  pd_phase :: string
  pd_conditions :: "(string \<times> string) list"   \<comment> \<open>type and status\<close>
  pd_containers :: "container list"
  pd_init_containers :: "container list"

record service =
  svc_name :: string
  svc_selector :: "(string \<times> string) list"
  svc_ports :: "(int \<times> int_or_string) list"    \<comment> \<open>port and target port\<close>

record kube =
  get_pod :: "string \<Rightarrow> string \<Rightarrow> goerr + pod"
  get_service :: "string \<Rightarrow> string \<Rightarrow> goerr + service"
  list_pods :: "string \<Rightarrow> string \<Rightarrow> goerr + pod list"
  is_not_found :: "goerr \<Rightarrow> bool"
  format_selector :: "(string \<times> string) list \<Rightarrow> string"

section \<open>Options\<close>

record pf_options =
  po_namespace :: string
  po_service :: string
  po_selector :: string
  po_pod :: string
  po_targetPort :: int_or_string
  po_hasTarget :: bool

definition no_options :: pf_options where
  "no_options = \<lparr>po_namespace = [], po_service = [], po_selector = [], po_pod = [],
     po_targetPort = IntPort 0, po_hasTarget = False\<rparr>"

definition Service :: "string \<Rightarrow> string \<Rightarrow> pf_options \<Rightarrow> pf_options" where
  "Service namespace name po = po\<lparr>po_namespace := namespace, po_service := name\<rparr>"

definition LabelSelector :: "string \<Rightarrow> string \<Rightarrow> pf_options \<Rightarrow> pf_options" where
  "LabelSelector namespace selector po = po\<lparr>po_namespace := namespace, po_selector := selector\<rparr>"

definition PodOption :: "string \<Rightarrow> string \<Rightarrow> pf_options \<Rightarrow> pf_options" where
  "PodOption namespace name po = po\<lparr>po_namespace := namespace, po_pod := name\<rparr>"

definition TargetPort :: "int_or_string \<Rightarrow> pf_options \<Rightarrow> pf_options" where
  "TargetPort p po = po\<lparr>po_targetPort := p, po_hasTarget := True\<rparr>"

definition PortForward_options :: "(pf_options \<Rightarrow> pf_options) list \<Rightarrow> goerr + pf_options" where
  "PortForward_options opts =
     (let po = foldl (\<lambda>po opt. opt po) no_options opts in
      if po_namespace po = [] then Inl (ErrNew ''k8s: namespace is required'')
      else if po_service po = [] \<and> po_selector po = [] \<and> po_pod po = [] then
        Inl (ErrNew ''k8s: one of Service, LabelSelector, or Pod is required'')
      else Inr po)"

text \<open>The wire configuration. \<open>parse\<close> below is \<open>intstr.Parse\<close>.\<close>

record k8s_config =
  kc_kubeconfig :: string
  kc_namespace :: string
  kc_service :: string
  kc_selector :: string
  kc_pod :: string
  kc_targetPort :: string

definition k8s_fields :: "(string \<times> k8s_config setter) list" where
  "k8s_fields =
     [(''kubeconfig'', set_string (\<lambda>x c. c\<lparr>kc_kubeconfig := x\<rparr>)), (''namespace'', set_string (\<lambda>x c. c\<lparr>kc_namespace := x\<rparr>)),
      (''service'', set_string (\<lambda>x c. c\<lparr>kc_service := x\<rparr>)), (''selector'', set_string (\<lambda>x c. c\<lparr>kc_selector := x\<rparr>)),
      (''pod'', set_string (\<lambda>x c. c\<lparr>kc_pod := x\<rparr>)), (''targetPort'', set_string (\<lambda>x c. c\<lparr>kc_targetPort := x\<rparr>))]"

definition no_k8s_config :: k8s_config where
  "no_k8s_config = \<lparr>kc_kubeconfig = [], kc_namespace = [], kc_service = [], kc_selector = [], kc_pod = [], kc_targetPort = []\<rparr>"

definition decode_k8s_config :: "string \<Rightarrow> goerr + k8s_config" where
  "decode_k8s_config raw = decoded (Unmarshal (decode_struct k8s_fields no_k8s_config) no_k8s_config raw)"

text \<open>
  \<open>client\<close> is the outcome of building the clientset; \<open>load\<close> of loading the cluster configuration, from an
  explicit path or from the default places.
\<close>

definition PortForward :: "goerr option \<Rightarrow> (pf_options \<Rightarrow> pf_options) list \<Rightarrow> goerr + pf_options" where
  "PortForward client opts =
     (case PortForward_options opts of
        Inl err \<Rightarrow> Inl err
      | Inr po \<Rightarrow> (case client of Some err \<Rightarrow> Inl (Errorf ''k8s: build clientset: %w'' [] [err]) | None \<Rightarrow> Inr po))"

definition k8s_options :: "(string \<Rightarrow> int_or_string) \<Rightarrow> k8s_config \<Rightarrow> goerr + (pf_options \<Rightarrow> pf_options) list" where
  "k8s_options parse c =
     (let target = (if kc_targetPort c \<noteq> [] then [TargetPort (parse (kc_targetPort c))] else []) in
      if kc_service c \<noteq> [] then Inr (Service (kc_namespace c) (kc_service c) # target)
      else if kc_selector c \<noteq> [] then Inr (LabelSelector (kc_namespace c) (kc_selector c) # target)
      else if kc_pod c \<noteq> [] then Inr (PodOption (kc_namespace c) (kc_pod c) # target)
      else Inl (Errorf ''k8s config: one of service, selector, or pod is required'' [] []))"

definition k8s_factory :: "(string \<Rightarrow> int_or_string) \<Rightarrow> (string option \<Rightarrow> goerr option) \<Rightarrow> goerr option
    \<Rightarrow> string \<Rightarrow> goerr + pf_options" where
  "k8s_factory parse load client raw =
     (case decode_k8s_config raw of
        Inl err \<Rightarrow> Inl (Errorf ''k8s config: %w'' [] [err])
      | Inr c \<Rightarrow>
          (case load (if kc_kubeconfig c \<noteq> [] then Some (kc_kubeconfig c) else None) of
             Some err \<Rightarrow> Inl (Errorf ''k8s: load kubeconfig: %w'' [] [err])
           | None \<Rightarrow>
               (case k8s_options parse c of Inl err \<Rightarrow> Inl err | Inr opts \<Rightarrow> PortForward client opts)))"

section \<open>Pods and ports\<close>

definition podReady :: "pod \<Rightarrow> bool" where
  "podReady p \<longleftrightarrow> pd_phase p = ''Running'' \<and>
     (case List.find (\<lambda>c. fst c = ''Ready'') (pd_conditions p) of
        None \<Rightarrow> False | Some c \<Rightarrow> snd c = ''True'')"

definition servingContainers :: "pod \<Rightarrow> container list" where
  "servingContainers p = filter ct_always (pd_init_containers p) @ pd_containers p"

definition inferredContainerPort :: "pod \<Rightarrow> goerr + int" where
  "inferredContainerPort p =
     (case concat (map (\<lambda>c. map snd (ct_ports c)) (servingContainers p)) of
        [port] \<Rightarrow> Inr port
      | ports \<Rightarrow> Inl (Errorf ''pod %q declares %d container ports; specify TargetPort''
                      [pd_name p, itoa (int (length ports))] []))"

definition unset_port :: "int_or_string \<Rightarrow> bool" where
  "unset_port tp = (case tp of IntPort i \<Rightarrow> i = 0 | StrPort s \<Rightarrow> s = [])"

definition containerPort :: "pod \<Rightarrow> int_or_string \<Rightarrow> bool \<Rightarrow> goerr + int" where
  "containerPort p tp infer =
     (if unset_port tp then
        (if infer then inferredContainerPort p
         else Inl (Errorf ''target port is unset for pod %q'' [pd_name p] []))
      else case tp of
        IntPort i \<Rightarrow> Inr i
      | StrPort name \<Rightarrow>
          (case List.find (\<lambda>port. fst port = name) (concat (map ct_ports (servingContainers p))) of
             Some port \<Rightarrow> Inr (snd port)
           | None \<Rightarrow> Inl (Errorf ''named port %q not found in pod %q'' [name, pd_name p] [])))"

section \<open>Resolving\<close>

record target =
  tg_namespace :: string
  tg_pod :: string
  tg_port :: int

definition target_of :: "pod \<Rightarrow> int_or_string \<Rightarrow> bool \<Rightarrow> goerr + target" where
  "target_of p tp infer = (case containerPort p tp infer of
      Inl err \<Rightarrow> Inl err
    | Inr port \<Rightarrow> Inr \<lparr>tg_namespace = pd_namespace p, tg_pod = pd_name p, tg_port = port\<rparr>)"

definition resolvePod :: "kube \<Rightarrow> pf_options \<Rightarrow> goerr + target" where
  "resolvePod k po =
     (case get_pod k (po_namespace po) (po_pod po) of
        Inl err \<Rightarrow>
          if is_not_found k err then
            Inl (Errorf ''%w: pod %s/%s: %w'' [po_namespace po, po_pod po] [Sentinel ErrTargetNotFound, err])
          else Inl err
      | Inr p \<Rightarrow>
          if \<not> podReady p then Inl (Errorf ''pod %q not ready'' [pd_name p] [])
          else target_of p (po_targetPort po) (\<not> po_hasTarget po))"

definition resolveSelector :: "kube \<Rightarrow> string \<Rightarrow> string \<Rightarrow> int_or_string \<Rightarrow> bool \<Rightarrow> goerr + target" where
  "resolveSelector k namespace selector tp infer =
     (if selector = [] then Inl (Errorf ''empty label selector'' [] [])
      else case list_pods k namespace selector of
        Inl err \<Rightarrow> Inl err
      | Inr pods \<Rightarrow>
          (case List.find podReady pods of
             Some p \<Rightarrow> target_of p tp infer
           | None \<Rightarrow>
               if pods = [] then
                 Inl (Errorf ''%w: no pod matches selector %q in %q'' [selector, namespace] [Sentinel ErrTargetNotFound])
               else Inl (Errorf ''no ready pod for selector %q in %q'' [selector, namespace] [])))"

text \<open>The target port of a Service: given, or the one of its single port, defaulting to that port.\<close>

definition service_port :: "pf_options \<Rightarrow> service \<Rightarrow> goerr + int_or_string" where
  "service_port po svc =
     (if po_hasTarget po then Inr (po_targetPort po)
      else case svc_ports svc of
        [(port, tp)] \<Rightarrow> Inr (if unset_port tp then IntPort port else tp)
      | ports \<Rightarrow> Inl (Errorf ''service %q has %d ports; specify TargetPort''
                      [svc_name svc, itoa (int (length ports))] []))"

definition resolveService :: "kube \<Rightarrow> pf_options \<Rightarrow> goerr + target" where
  "resolveService k po =
     (case get_service k (po_namespace po) (po_service po) of
        Inl err \<Rightarrow>
          if is_not_found k err then
            Inl (Errorf ''%w: service %s/%s: %w'' [po_namespace po, po_service po] [Sentinel ErrTargetNotFound, err])
          else Inl err
      | Inr svc \<Rightarrow>
          if svc_selector svc = [] then Inl (Errorf ''service %q has no selector'' [svc_name svc] [])
          else (case service_port po svc of
              Inl err \<Rightarrow> Inl err
            | Inr tp \<Rightarrow> resolveSelector k (po_namespace po) (format_selector k (svc_selector svc)) tp False))"

definition resolve :: "kube \<Rightarrow> pf_options \<Rightarrow> goerr + target" where
  "resolve k po =
     (if po_pod po \<noteq> [] then resolvePod k po
      else if po_service po \<noteq> [] then resolveService k po
      else resolveSelector k (po_namespace po) (po_selector po) (po_targetPort po) (\<not> po_hasTarget po))"

section \<open>Lemmas\<close>

text \<open>Which declared ports a result can be.\<close>

definition declared_ports :: "pod \<Rightarrow> (string \<times> int) list" where
  "declared_ports p = concat (map ct_ports (servingContainers p))"

lemma inferred_declared:
  "inferredContainerPort p = Inr port \<longleftrightarrow> map snd (declared_ports p) = [port]"
proof -
  have "concat (map (\<lambda>c. map snd (ct_ports c)) (servingContainers p)) = map snd (declared_ports p)"
    by (simp add: declared_ports_def map_concat o_def)
  then show ?thesis unfolding inferredContainerPort_def by (auto split: list.splits)
qed

lemma find_map_of: "map_option snd (List.find (\<lambda>x. fst x = s) xs) = map_of xs s"
  by (induction xs) auto

text \<open>The first declared port of the given name; the number given; or, when the port is unset, the only declared port.\<close>

lemma containerPort_Inr:
  "containerPort p tp infer = Inr port \<longleftrightarrow>
   (if unset_port tp then infer \<and> map snd (declared_ports p) = [port]
    else case tp of IntPort i \<Rightarrow> port = i | StrPort s \<Rightarrow> map_of (declared_ports p) s = Some port)"
  by (cases tp) (auto simp: containerPort_def inferred_declared declared_ports_def [symmetric]
      find_map_of [symmetric] split: option.splits)

lemma containerPort_error: "containerPort p tp infer = Inl e \<Longrightarrow> \<exists>m as. e = Errorf m as []"
  by (auto simp: containerPort_def inferredContainerPort_def
      split: int_or_string.splits if_splits option.splits list.splits)

text \<open>The pods the options select, in the order of the API's answer; none when the API does not answer or no selector is known.\<close>

definition candidates :: "kube \<Rightarrow> pf_options \<Rightarrow> pod list" where
  "candidates k po =
     (if po_pod po \<noteq> [] then (case get_pod k (po_namespace po) (po_pod po) of Inr p \<Rightarrow> [p] | Inl _ \<Rightarrow> [])
      else let selector = (if po_service po \<noteq> [] then
              (case get_service k (po_namespace po) (po_service po) of
                 Inr svc \<Rightarrow> if svc_selector svc = [] then [] else format_selector k (svc_selector svc)
               | Inl _ \<Rightarrow> [])
            else po_selector po)
        in if selector = [] then []
           else case list_pods k (po_namespace po) selector of Inr ps \<Rightarrow> ps | Inl _ \<Rightarrow> [])"

text \<open>
  Which port of a pod the options ask for: the \<open>TargetPort\<close> given, as a number or as the name of a declared port; for a
  Service without one, the target port of its only port, which defaults to that port; and for a pod or a selector
  without one, the only port that the pod declares.
\<close>

definition only_service_port :: "kube \<Rightarrow> pf_options \<Rightarrow> int \<Rightarrow> int_or_string \<Rightarrow> bool" where
  "only_service_port k po port tp \<longleftrightarrow> \<not> po_hasTarget po \<and> po_pod po = [] \<and> po_service po \<noteq> [] \<and>
     (\<exists>svc. get_service k (po_namespace po) (po_service po) = Inr svc \<and> svc_ports svc = [(port, tp)])"

inductive wanted_port :: "kube \<Rightarrow> pf_options \<Rightarrow> pod \<Rightarrow> int \<Rightarrow> bool" for k po p where
  given_number: "po_hasTarget po \<Longrightarrow> po_targetPort po = IntPort i \<Longrightarrow> i \<noteq> 0 \<Longrightarrow> wanted_port k po p i"
| given_name: "po_hasTarget po \<Longrightarrow> po_targetPort po = StrPort s \<Longrightarrow> s \<noteq> [] \<Longrightarrow>
    map_of (declared_ports p) s = Some i \<Longrightarrow> wanted_port k po p i"
| service_number: "only_service_port k po port (IntPort i) \<Longrightarrow> i \<noteq> 0 \<Longrightarrow> wanted_port k po p i"
| service_name: "only_service_port k po port (StrPort s) \<Longrightarrow> s \<noteq> [] \<Longrightarrow>
    map_of (declared_ports p) s = Some i \<Longrightarrow> wanted_port k po p i"
| service_default: "only_service_port k po port tp \<Longrightarrow> tp \<in> {IntPort 0, StrPort []} \<Longrightarrow> port \<noteq> 0 \<Longrightarrow> wanted_port k po p port"
| only_declared: "\<not> po_hasTarget po \<Longrightarrow> po_pod po \<noteq> [] \<or> po_service po = [] \<Longrightarrow>
    map snd (declared_ports p) = [i] \<Longrightarrow> wanted_port k po p i"

text \<open>The options the package exports set the target port and its flag together.\<close>

inductive pf_option :: "(pf_options \<Rightarrow> pf_options) \<Rightarrow> bool" where
  "pf_option (Service ns n)" | "pf_option (LabelSelector ns sel)" | "pf_option (PodOption ns n)" | "pf_option (TargetPort tp)"

lemma pf_option_keeps:
  "pf_option opt \<Longrightarrow> po_hasTarget po \<or> po_targetPort po = IntPort 0 \<Longrightarrow> po_hasTarget (opt po) \<or> po_targetPort (opt po) = IntPort 0"
  by (induction rule: pf_option.induct) (auto simp: Service_def LabelSelector_def PodOption_def TargetPort_def)

lemma PortForward_options_ok:
  assumes "PortForward_options opts = Inr po" and "\<forall>opt \<in> set opts. pf_option opt"
  shows "po_hasTarget po \<or> po_targetPort po = IntPort 0" and "po_pod po \<noteq> [] \<or> po_service po \<noteq> [] \<or> po_selector po \<noteq> []"
proof -
  have "po_hasTarget q \<or> po_targetPort q = IntPort 0 \<Longrightarrow>
      po_hasTarget (foldl (\<lambda>po opt. opt po) q opts) \<or> po_targetPort (foldl (\<lambda>po opt. opt po) q opts) = IntPort 0" for q
    using assms(2) by (induction opts arbitrary: q) (auto simp: pf_option_keeps)
  from this [of no_options] assms(1) show "po_hasTarget po \<or> po_targetPort po = IntPort 0"
    by (auto simp: PortForward_options_def Let_def no_options_def split: if_splits)
  show "po_pod po \<noteq> [] \<or> po_service po \<noteq> [] \<or> po_selector po \<noteq> []"
    using assms(1) by (auto simp: PortForward_options_def Let_def split: if_splits)
qed

lemma target_of_Inr:
  "target_of p tp infer = Inr t \<longleftrightarrow> containerPort p tp infer = Inr (tg_port t) \<and>
     tg_namespace t = pd_namespace p \<and> tg_pod t = pd_name p"
  by (cases t) (auto simp: target_of_def split: sum.splits)

lemma resolveSelector_Inr:
  "resolveSelector k ns sel tp infer = Inr t \<longleftrightarrow> sel \<noteq> [] \<and> (\<exists>ps p. list_pods k ns sel = Inr ps \<and>
     List.find podReady ps = Some p \<and> target_of p tp infer = Inr t)"
  by (auto simp: resolveSelector_def split: if_splits sum.splits option.splits)

lemma find_single: "List.find P [x] = Some y \<longleftrightarrow> P x \<and> y = x"
  by auto

text \<open>The port of a named pod or of a selector's pod, and the port of a Service's pod.\<close>

lemma wanted_direct:
  assumes "po_hasTarget po \<or> po_targetPort po = IntPort 0" and "po_pod po \<noteq> [] \<or> po_service po = []"
  shows "containerPort p (po_targetPort po) (\<not> po_hasTarget po) = Inr i \<longleftrightarrow> wanted_port k po p i"
  using assms by (cases "po_targetPort po")
    (auto simp: containerPort_Inr wanted_port.simps only_service_port_def unset_port_def)

lemma wanted_service:
  assumes "po_pod po = []" "po_service po \<noteq> []" "get_service k (po_namespace po) (po_service po) = Inr svc"
  shows "(\<exists>tp. service_port po svc = Inr tp \<and> containerPort p tp False = Inr i) \<longleftrightarrow> wanted_port k po p i"
proof (cases "po_hasTarget po")
  case True
  with assms show ?thesis by (cases "po_targetPort po")
    (auto simp: service_port_def containerPort_Inr wanted_port.simps only_service_port_def unset_port_def)
next
  case False
  show ?thesis
  proof (cases "\<exists>port tp. svc_ports svc = [(port, tp)]")
    case True
    then obtain port tp where "svc_ports svc = [(port, tp)]" by blast
    with False assms show ?thesis by (cases tp)
      (auto simp: service_port_def containerPort_Inr wanted_port.simps only_service_port_def unset_port_def)
  next
    case no: False
    then have "\<not> is_ok (service_port po svc)" using False by (auto simp: service_port_def split: list.splits)
    with no False assms show ?thesis by (auto simp: wanted_port.simps only_service_port_def)
  qed
qed

lemma resolve_Inr:
  assumes "po_hasTarget po \<or> po_targetPort po = IntPort 0"
  shows "resolve k po = Inr t \<longleftrightarrow> (\<exists>p. List.find podReady (candidates k po) = Some p \<and>
     tg_namespace t = pd_namespace p \<and> tg_pod t = pd_name p \<and> wanted_port k po p (tg_port t))"
proof (cases "po_pod po = []")
  case False
  note w = wanted_direct [OF assms, of _ "tg_port t" k]
  from False w show ?thesis
    by (cases "get_pod k (po_namespace po) (po_pod po)")
       (auto simp: resolve_def resolvePod_def candidates_def target_of_Inr)
next
  case pod: True
  show ?thesis
  proof (cases "po_service po = []")
    case True
    with pod wanted_direct [OF assms, of _ "tg_port t" k] show ?thesis
      by (cases "list_pods k (po_namespace po) (po_selector po)")
         (auto simp: resolve_def resolveSelector_Inr target_of_Inr candidates_def Let_def)
  next
    case False
    show ?thesis
    proof (cases "get_service k (po_namespace po) (po_service po)")
      case (Inl e)
      with pod False show ?thesis by (simp add: resolve_def resolveService_def candidates_def)
    next
      case (Inr svc)
      let ?sel = "format_selector k (svc_selector svc)"
      have "resolve k po = Inr t \<longleftrightarrow> svc_selector svc \<noteq> [] \<and> (\<exists>tp. service_port po svc = Inr tp \<and>
          resolveSelector k (po_namespace po) ?sel tp False = Inr t)"
        using pod False Inr by (auto simp: resolve_def resolveService_def split: sum.splits)
      also have "\<dots> \<longleftrightarrow> (\<exists>p. svc_selector svc \<noteq> [] \<and> ?sel \<noteq> [] \<and>
          (\<exists>ps. list_pods k (po_namespace po) ?sel = Inr ps \<and> List.find podReady ps = Some p) \<and>
          tg_namespace t = pd_namespace p \<and> tg_pod t = pd_name p \<and>
          (\<exists>tp. service_port po svc = Inr tp \<and> containerPort p tp False = Inr (tg_port t)))"
        by (auto simp: resolveSelector_Inr target_of_Inr)
      finally show ?thesis
        using pod False Inr unfolding wanted_service [OF pod False Inr]
        by (cases "list_pods k (po_namespace po) ?sel") (auto simp: candidates_def Let_def)
    qed
  qed
qed

section \<open>Missing targets\<close>

text \<open>
  What counts as absent (\<open>ErrTargetNotFound\<close> in \<open>resolve.go\<close>): the named pod or Service does not exist, or no pod matches
  the selector, the Service's own where a Service is named.
\<close>

definition target_absent :: "kube \<Rightarrow> pf_options \<Rightarrow> bool" where
  "target_absent k po \<longleftrightarrow>
     (if po_pod po \<noteq> [] then (\<exists>e. get_pod k (po_namespace po) (po_pod po) = Inl e \<and> is_not_found k e)
      else if po_service po \<noteq> [] then
        (\<exists>e. get_service k (po_namespace po) (po_service po) = Inl e \<and> is_not_found k e) \<or>
        (\<exists>svc. get_service k (po_namespace po) (po_service po) = Inr svc \<and>
           list_pods k (po_namespace po) (format_selector k (svc_selector svc)) = Inr [])
      else list_pods k (po_namespace po) (po_selector po) = Inr [])"

text \<open>
  Before it lists the pods of a Service the resolver wants to know which pods those are and which port to use: the Service
  must have a selector and, where no target port is given, a single port.
\<close>

definition service_is_clear :: "kube \<Rightarrow> pf_options \<Rightarrow> bool" where
  "service_is_clear k po \<longleftrightarrow> (\<forall>svc. po_pod po = [] \<and> po_service po \<noteq> [] \<and>
     get_service k (po_namespace po) (po_service po) = Inr svc \<longrightarrow>
     svc_selector svc \<noteq> [] \<and> (po_hasTarget po \<or> length (svc_ports svc) = 1))"

text \<open>The API's own errors never carry this package's sentinel.\<close>

definition foreign_errors :: "kube \<Rightarrow> bool" where
  "foreign_errors k \<longleftrightarrow>
     (\<forall>ns n e. get_pod k ns n = Inl e \<longrightarrow> \<not> err_is ErrTargetNotFound e) \<and>
     (\<forall>ns n e. get_service k ns n = Inl e \<longrightarrow> \<not> err_is ErrTargetNotFound e) \<and>
     (\<forall>ns sel e. list_pods k ns sel = Inl e \<longrightarrow> \<not> err_is ErrTargetNotFound e)"

text \<open>\<open>FormatLabelSelector\<close> of a selector that is not empty is not empty.\<close>

definition formats_selectors :: "kube \<Rightarrow> bool" where
  "formats_selectors k \<longleftrightarrow> (\<forall>ls. ls \<noteq> [] \<longrightarrow> format_selector k ls \<noteq> [])"

definition missing :: "goerr + 'a \<Rightarrow> bool" where
  "missing r \<longleftrightarrow> (case r of Inl e \<Rightarrow> err_is ErrTargetNotFound e | Inr _ \<Rightarrow> False)"

lemma target_of_missing: "\<not> missing (target_of p tp infer)"
  by (auto simp: missing_def target_of_def dest: containerPort_error split: sum.splits)

lemma resolveSelector_missing:
  "foreign_errors k \<Longrightarrow> missing (resolveSelector k ns sel tp infer) \<longleftrightarrow> sel \<noteq> [] \<and> list_pods k ns sel = Inr []"
  using target_of_missing
  by (auto simp: resolveSelector_def foreign_errors_def split: sum.split option.split)
     (auto simp: missing_def)

lemma service_port_ok: "is_ok (service_port po svc) \<longleftrightarrow> po_hasTarget po \<or> length (svc_ports svc) = 1"
  by (auto simp: service_port_def length_Suc_conv split: list.split)

lemma resolve_missing:
  assumes "foreign_errors k" "formats_selectors k" "po_pod po \<noteq> [] \<or> po_service po \<noteq> [] \<or> po_selector po \<noteq> []"
  shows "missing (resolve k po) \<longleftrightarrow> target_absent k po \<and> service_is_clear k po"
proof -
  have sp: "service_port po svc = Inl e \<Longrightarrow> \<not> err_is ErrTargetNotFound e" for svc e
    by (auto simp: service_port_def split: if_splits list.splits)
  consider "po_pod po \<noteq> []" | "po_pod po = []" "po_service po = []" | "po_pod po = []" "po_service po \<noteq> []" by blast
  then show ?thesis
  proof cases
    case 1
    then show ?thesis using assms(1) target_of_missing
      by (cases "get_pod k (po_namespace po) (po_pod po)")
         (auto simp: resolve_def resolvePod_def target_absent_def service_is_clear_def, auto simp: missing_def foreign_errors_def)
  next
    case 2
    with assms(3) show ?thesis
      by (simp add: resolve_def resolveSelector_missing [OF assms(1)] target_absent_def service_is_clear_def)
  next
    case 3
    show ?thesis
    proof (cases "get_service k (po_namespace po) (po_service po)")
      case (Inl e)
      with 3 assms(1) show ?thesis
        by (auto simp: resolve_def resolveService_def target_absent_def service_is_clear_def missing_def foreign_errors_def)
    next
      case (Inr svc)
      show ?thesis
      proof (cases "service_port po svc")
        case (Inl e)
        with 3 Inr sp [OF Inl] service_port_ok [of po svc] show ?thesis
          by (auto simp: resolve_def resolveService_def service_is_clear_def missing_def)
      next
        case tp: (Inr tp)
        have "missing (resolve k po) \<longleftrightarrow> svc_selector svc \<noteq> [] \<and>
            missing (resolveSelector k (po_namespace po) (format_selector k (svc_selector svc)) tp False)"
          using 3 Inr tp by (simp add: resolve_def resolveService_def) (simp add: missing_def)
        with 3 Inr tp assms(2) service_port_ok [of po svc] show ?thesis
          by (auto simp: resolveSelector_missing [OF assms(1)] target_absent_def service_is_clear_def formats_selectors_def)
      qed
    qed
  qed
qed

section \<open>A small cluster\<close>

text \<open>Pod \<open>web-0\<close> is warming up, \<open>web-1\<close> is ready and serves its port \<open>http\<close> from 8080.\<close>

definition demo_pod :: "string \<Rightarrow> string \<Rightarrow> pod" where
  "demo_pod name ready = \<lparr>pd_namespace = ''ns'', pd_name = name, pd_phase = ''Running'',
     pd_conditions = [(''Ready'', ready)],
     pd_containers = [\<lparr>ct_name = ''c'', ct_ports = [(''http'', 8080)], ct_always = False\<rparr>], pd_init_containers = []\<rparr>"

definition demo_kube :: kube where
  "demo_kube = \<lparr>get_pod = (\<lambda>ns n. if n = ''web-0'' then Inr (demo_pod n ''False'') else Inl (ErrNew ''not found'')),
     get_service = (\<lambda>ns n. Inr \<lparr>svc_name = n, svc_selector = [(''app'', ''web'')], svc_ports = [(80, StrPort ''http'')]\<rparr>),
     list_pods = (\<lambda>ns sel. if sel = ''app=web'' then Inr [demo_pod ''web-0'' ''False'', demo_pod ''web-1'' ''True''] else Inr []),
     is_not_found = (\<lambda>e. e = ErrNew ''not found''),
     format_selector = (\<lambda>ls. concat (map (\<lambda>(k, v). k @ ''='' @ v) ls))\<rparr>"

lemma demo_resolve_service:
  "resolve demo_kube (Service ''ns'' ''web'' no_options) =
     Inr \<lparr>tg_namespace = ''ns'', tg_pod = ''web-1'', tg_port = 8080\<rparr>"
  by (simp add: resolve_def resolveService_def demo_kube_def Service_def no_options_def service_port_def
      unset_port_def resolveSelector_def podReady_def demo_pod_def target_of_def containerPort_def servingContainers_def)

lemma demo_foreign: "foreign_errors demo_kube"
  by (auto simp: foreign_errors_def demo_kube_def split: if_splits)

lemma demo_formats: "formats_selectors demo_kube"
proof -
  have "ls \<noteq> [] \<Longrightarrow> \<exists>x \<in> set ls. (\<lambda>(k, v). k @ ''='' @ v) x \<noteq> []" for ls :: "(string \<times> string) list"
    by (cases ls) (auto split: prod.splits)
  then show ?thesis by (simp add: formats_selectors_def demo_kube_def)
qed

section \<open>Properties\<close>

text \<open>C11: What a port forward connects to: for options as the package's option functions build them, resolving succeeds
  exactly when some pod among those the options select (the named pod, or the pods of the selector or of the Service's
  selector) is ready and the port asked for is known, and then the target is the first such pod with that port: the
  \<open>TargetPort\<close> given, as a number or as the first port the pod declares under the name; for a Service without one the
  target port of its only port, found the same way, or that port itself when its target port is unset; and for a pod or a
  selector without one the only port that the pod declares.\<close>

theorem resolve_finds_ready_pod:
  assumes "PortForward_options opts = Inr po" and "\<forall>opt \<in> set opts. pf_option opt"
  shows "resolve k po = Inr t \<longleftrightarrow> (\<exists>p. List.find podReady (candidates k po) = Some p \<and>
     tg_namespace t = pd_namespace p \<and> tg_pod t = pd_name p \<and> wanted_port k po p (tg_port t))"
  by (rule resolve_Inr [OF PortForward_options_ok(1) [OF assms]])

theorem resolve_finds_ready_pod_witness:
  "resolve demo_kube (Service ''ns'' ''web'' no_options) = Inr \<lparr>tg_namespace = ''ns'', tg_pod = ''web-1'', tg_port = 8080\<rparr>"
proof -
  let ?po = "Service ''ns'' ''web'' no_options"
  have opts: "PortForward_options [Service ''ns'' ''web''] = Inr ?po"
    by (simp add: PortForward_options_def Service_def no_options_def)
  have "only_service_port demo_kube ?po 80 (StrPort ''http'')"
    by (simp add: only_service_port_def Service_def no_options_def demo_kube_def)
  moreover have "map_of (declared_ports (demo_pod ''web-1'' ''True'')) ''http'' = Some 8080"
    by (simp add: declared_ports_def servingContainers_def demo_pod_def)
  ultimately have "wanted_port demo_kube ?po (demo_pod ''web-1'' ''True'') 8080" by (intro wanted_port.service_name [of demo_kube ?po 80 "''http''"]) simp_all
  moreover have "List.find podReady (candidates demo_kube ?po) = Some (demo_pod ''web-1'' ''True'')"
    by (simp add: candidates_def Service_def no_options_def demo_kube_def podReady_def demo_pod_def)
  ultimately show ?thesis
    using resolve_finds_ready_pod [OF opts, of demo_kube "\<lparr>tg_namespace = ''ns'', tg_pod = ''web-1'', tg_port = 8080\<rparr>"]
    by (simp add: pf_option.intros) (simp add: demo_pod_def)
qed



text \<open>A Service with two ports whose selector matches no pod: the target is absent, and resolving does not say so.\<close>

definition two_port_kube :: kube where
  "two_port_kube = demo_kube\<lparr>get_service := (\<lambda>ns n. Inr \<lparr>svc_name = n, svc_selector = [(''app'', ''db'')],
     svc_ports = [(80, IntPort 0), (443, IntPort 0)]\<rparr>)\<rparr>"

theorem multi_port_service_is_not_reported_absent:
  "target_absent two_port_kube (Service ''ns'' ''db'' no_options) \<and>
   (\<exists>e. resolve two_port_kube (Service ''ns'' ''db'' no_options) = Inl e \<and> \<not> err_is ErrTargetNotFound e)"
  by (simp add: target_absent_def two_port_kube_def demo_kube_def Service_def no_options_def resolve_def resolveService_def
      service_port_def)

end
