(* ===== verification/K8s_Forward.thy ===== *)
theory K8s_Forward
  imports K8s_Resolve
begin

text \<open>
  \<open>k8s/portforward.go\<close> and the connection adapter of \<open>k8s/stream.go\<close>. A backend caches one multiplexed
  connection to a pod; concurrent dials may each open one, and the lock decides which is kept. Connections
  are numbers, \<open>live\<close> is the set of those whose close channel is still open, and every operation returns
  the connections it closed. The SPDY dialer and its streams are parameters.
\<close>

section \<open>portforward.go\<close>

text \<open>\<open>pf_ch\<close> is the close channel: nil, open or closed.\<close>

record portForward =
  pf_conn :: "nat option"
  pf_closed :: bool
  pf_ch :: "bool option"

definition pf_New :: portForward where
  "pf_New = \<lparr>pf_conn = None, pf_closed = False, pf_ch = None\<rparr>"

definition pf_Start :: "portForward \<Rightarrow> portForward" where
  "pf_Start p = (if pf_ch p = None then p\<lparr>pf_ch := Some False\<rparr> else p)"

definition opt_list :: "'a option \<Rightarrow> 'a list" where
  "opt_list x = (case x of None \<Rightarrow> [] | Some c \<Rightarrow> [c])"

definition pf_Stop :: "portForward \<Rightarrow> nat list \<times> portForward" where
  "pf_Stop p =
     (if pf_closed p then ([], p)
      else (opt_list (pf_conn p),
            p\<lparr>pf_closed := True, pf_ch := map_option (\<lambda>_. True) (pf_ch p), pf_conn := None\<rparr>))"

text \<open>The locked sections of \<open>ensureConn\<close> and \<open>dropConn\<close>.\<close>

definition pf_cached :: "nat set \<Rightarrow> portForward \<Rightarrow> nat option" where
  "pf_cached live p = (case pf_conn p of None \<Rightarrow> None | Some c \<Rightarrow> if c \<in> live then Some c else None)"

definition pf_install :: "nat set \<Rightarrow> nat \<Rightarrow> portForward \<Rightarrow> (goerr + nat) \<times> nat list \<times> portForward" where
  "pf_install live c p =
     (if pf_closed p then (Inl (ErrNew ''k8s: backend stopped''), [c], p)
      else case pf_cached live p of
        Some existing \<Rightarrow> (Inr existing, [c], p)
      | None \<Rightarrow> (Inr c, opt_list (pf_conn p), p\<lparr>pf_conn := Some c\<rparr>))"

definition dropConn :: "nat \<Rightarrow> portForward \<Rightarrow> nat list \<times> portForward" where
  "dropConn c p = (if pf_conn p = Some c then ([c], p\<lparr>pf_conn := None\<rparr>) else ([], p))"

text \<open>
  \<open>ensureConn\<close> and \<open>DialContext\<close> without interference: the result, the connections closed, the events
  emitted (type and error), the backend. \<open>dial\<close> opens a connection to a target, \<open>stream\<close> a stream on a
  connection. \<open>pf_emit\<close> is what happens to an event: without a sink, nothing; the sink is the registry's.
\<close>

type_synonym pf_event = "EventType \<times> goerr option"

definition pf_emit :: "'x handler option \<Rightarrow> pf_event \<Rightarrow> 'x world \<Rightarrow> 'x world" where
  "pf_emit sink e w =
     (case sink of None \<Rightarrow> w
      | Some f \<Rightarrow> f ((event (fst e) [])\<lparr>ev_err := snd e, ev_time := Some (now w)\<rparr>) w)"

definition ensureConn :: "goerr + target \<Rightarrow> (target \<Rightarrow> goerr + nat) \<Rightarrow> nat set \<Rightarrow> portForward
    \<Rightarrow> (goerr + nat) \<times> nat list \<times> pf_event list \<times> portForward" where
  "ensureConn resolved dial live p =
     (case pf_cached live p of
        Some c \<Rightarrow> (Inr c, [], [], p)
      | None \<Rightarrow>
          (case resolved of
             Inl err \<Rightarrow> (Inl err, [], [], p)
           | Inr t \<Rightarrow>
               (case dial t of
                  Inl err \<Rightarrow> (Inl err, [], [], p)
                | Inr c \<Rightarrow>
                    (case pf_install live c p of
                       (Inl err, cl, p') \<Rightarrow> (Inl err, cl, [], p')
                     | (Inr c', cl, p') \<Rightarrow>
                         (Inr c', cl, if c' = c then [(EventBackendRecovered, None)] else [], p')))))"

definition pf_DialContext :: "goerr + target \<Rightarrow> (target \<Rightarrow> goerr + nat) \<Rightarrow> (nat \<Rightarrow> goerr + conn) \<Rightarrow> nat set
    \<Rightarrow> portForward \<Rightarrow> (goerr + conn) \<times> nat list \<times> pf_event list \<times> portForward" where
  "pf_DialContext resolved dial stream live p =
     (if pf_closed p then (Inl (ErrNew ''k8s: backend stopped''), [], [], p)
      else case ensureConn resolved dial live p of
        (Inl err, cl, evs, p') \<Rightarrow> (Inl (RetryableError (Errorf ''k8s: connect to pod: %w'' [] [err])), cl, evs, p')
      | (Inr c, cl, evs, p') \<Rightarrow>
          (case stream c of
             Inr s \<Rightarrow> (Inr s, cl, evs, p')
           | Inl err \<Rightarrow>
               (case dropConn c p' of (cl', p'') \<Rightarrow>
                  (Inl (RetryableError (Errorf ''k8s: open stream: %w'' [] [err])), cl @ cl',
                   evs @ [(EventBackendUnhealthy, Some err)], p''))))"

section \<open>Concurrent dials\<close>

datatype pf_task =
    Checked          \<comment> \<open>found the backend not stopped\<close>
  | NeedConn         \<comment> \<open>no live connection cached: resolving and dialing\<close>
  | Opened nat       \<comment> \<open>opened a connection, not yet installed\<close>
  | HasConn nat      \<comment> \<open>about to open a stream\<close>
  | Dropping nat     \<comment> \<open>the stream failed\<close>

text \<open>\<open>ps_open\<close> counts the connections opened and not closed by the backend.\<close>

record pf_sys =
  ps_pf :: portForward
  ps_tasks :: "pf_task multiset"
  ps_alive :: "nat set"
  ps_open :: "nat multiset"

inductive pf_step :: "pf_sys \<Rightarrow> pf_sys \<Rightarrow> bool" where
  enters: "\<not> pf_closed p \<Longrightarrow>
    pf_step \<lparr>ps_pf = p, ps_tasks = T, ps_alive = A, ps_open = O\<^sub>c\<rparr>
      \<lparr>ps_pf = p, ps_tasks = add_mset Checked T, ps_alive = A, ps_open = O\<^sub>c\<rparr>"
| reuse: "pf_cached A p = Some c \<Longrightarrow>
    pf_step \<lparr>ps_pf = p, ps_tasks = add_mset Checked T, ps_alive = A, ps_open = O\<^sub>c\<rparr>
      \<lparr>ps_pf = p, ps_tasks = add_mset (HasConn c) T, ps_alive = A, ps_open = O\<^sub>c\<rparr>"
| miss: "pf_cached A p = None \<Longrightarrow>
    pf_step \<lparr>ps_pf = p, ps_tasks = add_mset Checked T, ps_alive = A, ps_open = O\<^sub>c\<rparr>
      \<lparr>ps_pf = p, ps_tasks = add_mset NeedConn T, ps_alive = A, ps_open = O\<^sub>c\<rparr>"
| gives_up: "pf_step \<lparr>ps_pf = p, ps_tasks = add_mset NeedConn T, ps_alive = A, ps_open = O\<^sub>c\<rparr>
      \<lparr>ps_pf = p, ps_tasks = T, ps_alive = A, ps_open = O\<^sub>c\<rparr>"
| opens: "c \<notin># O\<^sub>c \<Longrightarrow>
    pf_step \<lparr>ps_pf = p, ps_tasks = add_mset NeedConn T, ps_alive = A, ps_open = O\<^sub>c\<rparr>
      \<lparr>ps_pf = p, ps_tasks = add_mset (Opened c) T, ps_alive = insert c A, ps_open = add_mset c O\<^sub>c\<rparr>"
| installs: "pf_install A c p = (Inr c', cl, p') \<Longrightarrow>
    pf_step \<lparr>ps_pf = p, ps_tasks = add_mset (Opened c) T, ps_alive = A, ps_open = O\<^sub>c\<rparr>
      \<lparr>ps_pf = p', ps_tasks = add_mset (HasConn c') T, ps_alive = A - set cl, ps_open = O\<^sub>c - mset cl\<rparr>"
| too_late: "pf_install A c p = (Inl e, cl, p') \<Longrightarrow>
    pf_step \<lparr>ps_pf = p, ps_tasks = add_mset (Opened c) T, ps_alive = A, ps_open = O\<^sub>c\<rparr>
      \<lparr>ps_pf = p', ps_tasks = T, ps_alive = A - set cl, ps_open = O\<^sub>c - mset cl\<rparr>"
| streams: "pf_step \<lparr>ps_pf = p, ps_tasks = add_mset (HasConn c) T, ps_alive = A, ps_open = O\<^sub>c\<rparr>
      \<lparr>ps_pf = p, ps_tasks = T, ps_alive = A, ps_open = O\<^sub>c\<rparr>"
| stream_fails: "pf_step \<lparr>ps_pf = p, ps_tasks = add_mset (HasConn c) T, ps_alive = A, ps_open = O\<^sub>c\<rparr>
      \<lparr>ps_pf = p, ps_tasks = add_mset (Dropping c) T, ps_alive = A, ps_open = O\<^sub>c\<rparr>"
| drops: "dropConn c p = (cl, p') \<Longrightarrow>
    pf_step \<lparr>ps_pf = p, ps_tasks = add_mset (Dropping c) T, ps_alive = A, ps_open = O\<^sub>c\<rparr>
      \<lparr>ps_pf = p', ps_tasks = T, ps_alive = A - set cl, ps_open = O\<^sub>c - mset cl\<rparr>"
| dies: "pf_step \<lparr>ps_pf = p, ps_tasks = T, ps_alive = A, ps_open = O\<^sub>c\<rparr>
      \<lparr>ps_pf = p, ps_tasks = T, ps_alive = A - {c}, ps_open = O\<^sub>c\<rparr>"
| stops: "pf_Stop p = (cl, p') \<Longrightarrow>
    pf_step \<lparr>ps_pf = p, ps_tasks = T, ps_alive = A, ps_open = O\<^sub>c\<rparr>
      \<lparr>ps_pf = p', ps_tasks = T, ps_alive = A - set cl, ps_open = O\<^sub>c - mset cl\<rparr>"

definition pf_init :: "pf_sys \<Rightarrow> bool" where
  "pf_init s \<longleftrightarrow> s = \<lparr>ps_pf = pf_Start pf_New, ps_tasks = {#}, ps_alive = {}, ps_open = {#}\<rparr>"

fun task_conns :: "pf_task \<Rightarrow> nat multiset" where
  "task_conns (Opened c) = {#c#}"
| "task_conns Checked = {#}"
| "task_conns NeedConn = {#}"
| "task_conns (HasConn c) = {#}"
| "task_conns (Dropping c) = {#}"

definition opened :: "pf_task multiset \<Rightarrow> nat multiset" where
  "opened T = \<Sum>\<^sub># (image_mset task_conns T)"

lemma opened_simps [simp]: "opened {#} = {#}" "opened (add_mset t T) = task_conns t + opened T"
  by (simp_all add: opened_def)

definition pf_inv :: "pf_sys \<Rightarrow> bool" where
  "pf_inv s \<longleftrightarrow> ps_open s = mset (opt_list (pf_conn (ps_pf s))) + opened (ps_tasks s) \<and>
     (pf_closed (ps_pf s) \<longrightarrow> pf_conn (ps_pf s) = None)"

lemmas pf_sections = pf_install_def pf_cached_def dropConn_def pf_Stop_def opt_list_def

lemma pf_inv_step: "pf_step s s' \<Longrightarrow> pf_inv s \<Longrightarrow> pf_inv s'"
proof (induction rule: pf_step.induct)
  case (installs A c p c' cl p' T O\<^sub>c)
  then show ?case by (auto simp: pf_inv_def pf_sections split: if_splits option.splits)
next
  case (too_late A c p e cl p' T O\<^sub>c)
  then show ?case by (auto simp: pf_inv_def pf_sections split: if_splits option.splits)
next
  case (drops c p cl p' T A O\<^sub>c)
  then show ?case by (auto simp: pf_inv_def pf_sections split: if_splits option.splits)
next
  case (stops p cl p' T A O\<^sub>c)
  then show ?case by (auto simp: pf_inv_def pf_sections split: if_splits option.splits)
qed (auto simp: pf_inv_def)

interpretation pf_conc: step_system pf_init pf_step pf_inv
proof unfold_locales
  show "pf_init s \<Longrightarrow> pf_inv s" for s
    by (simp add: pf_init_def pf_inv_def pf_Start_def pf_New_def opt_list_def)
qed (rule pf_inv_step)

text \<open>Every connection a section closes was open, so none is closed twice.\<close>

lemma closes_open:
  assumes "pf_inv \<lparr>ps_pf = p, ps_tasks = T, ps_alive = A, ps_open = O\<^sub>c\<rparr>"
  shows "pf_Stop p = (cl, p') \<Longrightarrow> mset cl \<subseteq># O\<^sub>c"
    and "dropConn c p = (cl, p') \<Longrightarrow> mset cl \<subseteq># O\<^sub>c"
    and "Opened c \<in># T \<Longrightarrow> pf_install A c p = (r, cl, p') \<Longrightarrow> mset cl \<subseteq># O\<^sub>c"
proof -
  from assms have O: "O\<^sub>c = mset (opt_list (pf_conn p)) + opened T" by (simp add: pf_inv_def)
  show "pf_Stop p = (cl, p') \<Longrightarrow> mset cl \<subseteq># O\<^sub>c"
    by (auto simp: O pf_Stop_def split: if_splits)
  show "dropConn c p = (cl, p') \<Longrightarrow> mset cl \<subseteq># O\<^sub>c"
    by (auto simp: O dropConn_def opt_list_def split: if_splits)
  assume "Opened c \<in># T" and i: "pf_install A c p = (r, cl, p')"
  then have "c \<in># opened T" by (force simp: opened_def)
  then have "{#c#} \<subseteq># O\<^sub>c" "mset (opt_list (pf_conn p)) \<subseteq># O\<^sub>c" by (simp_all add: O)
  with i show "mset cl \<subseteq># O\<^sub>c"
    by (auto simp: pf_install_def split: if_splits option.splits)
qed

section \<open>stream.go: the connection adapter\<close>

text \<open>
  A data stream as a \<open>net.Conn\<close>: the instants at which a deadline's timer will close it, whether it was
  closed (once), and the message its error stream delivered.
\<close>

record streamConn =
  sm_timers :: "int list"
  sm_closed :: bool
  sm_removals :: nat
  sm_errMsg :: "string option"

definition streamConn_new :: streamConn where
  "streamConn_new = \<lparr>sm_timers = [], sm_closed = False, sm_removals = 0, sm_errMsg = None\<rparr>"

definition stream_Close :: "streamConn \<Rightarrow> streamConn" where
  "stream_Close s = (if sm_closed s then s else s\<lparr>sm_closed := True, sm_removals := Suc (sm_removals s)\<rparr>)"

text \<open>A deadline is an instant, or the zero time.\<close>

definition armDeadline :: "int option \<Rightarrow> int \<Rightarrow> streamConn \<Rightarrow> streamConn" where
  "armDeadline t tnow s =
     (case t of
        None \<Rightarrow> s
      | Some d \<Rightarrow> if d \<le> tnow then stream_Close s else s\<lparr>sm_timers := d # sm_timers s\<rparr>)"

definition SetDeadline :: "int option \<Rightarrow> int \<Rightarrow> streamConn \<Rightarrow> streamConn" where
  "SetDeadline t tnow s = armDeadline t tnow s"

text \<open>The stream at a later instant: the timers that have fired ran \<open>Close\<close>.\<close>

definition stream_at :: "int \<Rightarrow> streamConn \<Rightarrow> streamConn" where
  "stream_at tnow s =
     (let fired = filter (\<lambda>d. d \<le> tnow) (sm_timers s)
      in (if fired = [] then s else stream_Close s)\<lparr>sm_timers := filter (\<lambda>d. \<not> d \<le> tnow) (sm_timers s)\<rparr>)"

definition drainError :: "goerr + string \<Rightarrow> streamConn \<Rightarrow> streamConn" where
  "drainError r s =
     (case r of
        Inl err \<Rightarrow> s
      | Inr msg \<Rightarrow> if msg = [] then s else stream_Close (s\<lparr>sm_errMsg := Some msg\<rparr>))"

definition stream_Read :: "nat \<times> goerr option \<Rightarrow> streamConn \<Rightarrow> nat \<times> goerr option" where
  "stream_Read r s =
     (case r of
        (n, None) \<Rightarrow> (n, None)
      | (n, Some err) \<Rightarrow>
          (case sm_errMsg s of
             Some (c # cs) \<Rightarrow> (n, Some (Errorf ''portforward: %s'' [c # cs] []))
           | _ \<Rightarrow> (n, Some err)))"

definition stream_Write :: "nat \<times> goerr option \<Rightarrow> nat \<times> goerr option" where
  "stream_Write r = r"

text \<open>\<open>hostFromConfig\<close> and the headers of \<open>dialStream\<close>: the port and the request's number in decimal.\<close>

definition hostFromConfig :: "string \<Rightarrow> goerr + string" where
  "hostFromConfig host = (if host = [] then Inl (ErrNew ''k8s: rest.Config has no host'') else Inr host)"

record pfConn =
  pc_podRef :: string
  pc_containerPort :: int
  pc_requestID :: int

text \<open>A connection is alive until its close channel is closed. The addresses of a stream name the pod.\<close>

definition pfConn_alive :: "int option \<Rightarrow> int \<Rightarrow> bool" where
  "pfConn_alive closeChan t = (case closeChan of None \<Rightarrow> True | Some d \<Rightarrow> \<not> d \<le> t)"

definition pfAddr :: "string \<Rightarrow> goaddr" where
  "pfAddr a = NetAddr ''portforward'' a"

definition stream_LocalAddr :: goaddr where
  "stream_LocalAddr = pfAddr ''portforward:local''"

definition stream_RemoteAddr :: "pfConn \<Rightarrow> goaddr" where
  "stream_RemoteAddr c = pfAddr (''portforward:'' @ pc_podRef c @ '':'' @ itoa (pc_containerPort c))"

definition stream_headers :: "pfConn \<Rightarrow> string \<Rightarrow> (string \<times> string) list" where
  "stream_headers c typ = [(''port'', itoa (pc_containerPort c)), (''requestID'', itoa (pc_requestID c)),
     (''streamType'', typ)]"

text \<open>
  \<open>create\<close> is the connection's \<open>CreateStream\<close>. The result carries the streams removed again: the error
  stream, when the data stream cannot be created.
\<close>

definition dialStream :: "((string \<times> string) list \<Rightarrow> goerr + nat) \<Rightarrow> pfConn
    \<Rightarrow> (goerr + nat \<times> nat) \<times> nat list \<times> pfConn" where
  "dialStream create c0 =
     (let c = c0\<lparr>pc_requestID := pc_requestID c0 + 1\<rparr> in
      case create (stream_headers c ''error'') of
        Inl err \<Rightarrow> (Inl (Errorf ''create error stream: %w'' [] [err]), [], c)
      | Inr errStream \<Rightarrow>
          (case create (stream_headers c ''data'') of
             Inl err \<Rightarrow> (Inl (Errorf ''create data stream: %w'' [] [err]), [errStream], c)
           | Inr dataStream \<Rightarrow> (Inr (dataStream, errStream), [], c)))"

text \<open>
  \<open>spdyDialer.dial\<close>: \<open>transport\<close> is the outcome of \<open>RoundTripperFor\<close>, \<open>host\<close> the configured host, \<open>dial\<close> the
  SPDY upgrade of a URL. The context is not used. \<open>mustParseURL\<close> panics on a URL that does not parse: \<open>None\<close>.
\<close>

definition mustParseURL :: "url_parser \<Rightarrow> string \<Rightarrow> ParsedURL option" where
  "mustParseURL url_Parse s = (case url_Parse s of Inl _ \<Rightarrow> None | Inr u \<Rightarrow> Some u)"

definition forward_url :: "string \<Rightarrow> target \<Rightarrow> string" where
  "forward_url host t = host @ ''/api/v1/namespaces/'' @ tg_namespace t @ ''/pods/'' @ tg_pod t @ ''/portforward''"

definition spdy_dial :: "goerr option \<Rightarrow> url_parser \<Rightarrow> string \<Rightarrow> (ParsedURL \<Rightarrow> goerr option) \<Rightarrow> target
    \<Rightarrow> (goerr + pfConn) option" where
  "spdy_dial transport url_Parse host dial t =
     (case transport of
        Some err \<Rightarrow> Some (Inl (Errorf ''spdy roundtripper: %w'' [] [err]))
      | None \<Rightarrow>
          (case hostFromConfig host of
             Inl err \<Rightarrow> Some (Inl err)
           | Inr h \<Rightarrow>
               (case mustParseURL url_Parse (forward_url h t) of
                  None \<Rightarrow> None
                | Some u \<Rightarrow>
                    (case dial u of
                       Some err \<Rightarrow> Some (Inl (Errorf ''dial portforward: %w'' [] [err]))
                     | None \<Rightarrow> Some (Inr \<lparr>pc_podRef = tg_namespace t @ ''/'' @ tg_pod t,
                         pc_containerPort = tg_port t, pc_requestID = 0\<rparr>)))))"

lemma spdy_dial_ok:
  assumes "spdy_dial transport url_Parse host dial t = Some (Inr c)"
  shows "transport = None \<and> host \<noteq> [] \<and> pc_containerPort c = tg_port t \<and>
    (\<exists>u. url_Parse (forward_url host t) = Inr u \<and> dial u = None)"
  using assms by (auto simp: spdy_dial_def mustParseURL_def hostFromConfig_def split: option.splits sum.splits if_splits)

lemma sm_closed_Close [simp]: "sm_closed (stream_Close s)" "sm_timers (stream_Close s) = sm_timers s"
  by (simp_all add: stream_Close_def)

section \<open>Properties\<close>

text \<open>C9: A port-forward backend leaks no connection: under every interleaving of dials, dying pods, failing
  streams and \<open>Stop\<close>, the connections it has open are the cached one and those just opened by dials in
  progress; so when no dial is in progress it holds at most one, and none once it was stopped; and what
  \<open>Stop\<close> or a failed stream closes was open.\<close>

theorem forward_leaks_no_connection:
  assumes "reachable pf_init pf_step s"
  shows "ps_open s = mset (opt_list (pf_conn (ps_pf s))) + opened (ps_tasks s) \<and>
    (ps_tasks s = {#} \<longrightarrow> size (ps_open s) \<le> 1 \<and> (pf_closed (ps_pf s) \<longrightarrow> ps_open s = {#})) \<and>
    mset (fst (pf_Stop (ps_pf s))) \<subseteq># ps_open s \<and> mset (fst (dropConn c (ps_pf s))) \<subseteq># ps_open s"
proof -
  have inv: "pf_inv s" by (rule pf_conc.reachable_inv [OF assms])
  obtain p T A O\<^sub>c where s: "s = \<lparr>ps_pf = p, ps_tasks = T, ps_alive = A, ps_open = O\<^sub>c\<rparr>" by (cases s)
  from closes_open(1,2) [OF inv [unfolded s]] inv show ?thesis
    by (auto simp: s pf_inv_def opt_list_def split: option.splits)
      (metis prod.collapse)+
qed

theorem forward_leaks_no_connection_witness:
  "\<exists>s. reachable pf_init pf_step s \<and> pf_conn (ps_pf s) = Some 4 \<and> ps_open s = mset (opt_list (Some 4))"
proof -
  let ?p = "pf_Start pf_New"
  let ?s = "\<lambda>p T A U. \<lparr>ps_pf = p, ps_tasks = T, ps_alive = A, ps_open = U\<rparr>"
  have p: "\<not> pf_closed ?p" "pf_conn ?p = None" by (simp_all add: pf_Start_def pf_New_def)
  then have c: "pf_cached A ?p = None" for A by (simp add: pf_cached_def)
  then have i: "pf_install A 4 ?p = (Inr 4, [], ?p\<lparr>pf_conn := Some 4\<rparr>)" for A
    by (simp add: pf_install_def p opt_list_def)
  have "reachable pf_init pf_step (?s ?p {#} {} {#})" by (rule reachable.start) (simp add: pf_init_def)
  then have "reachable pf_init pf_step (?s ?p {#Checked#} {} {#})"
    by (rule reachable.step) (rule pf_step.enters [OF p(1)])
  then have "reachable pf_init pf_step (?s ?p {#NeedConn#} {} {#})"
    by (rule reachable.step) (rule pf_step.miss [OF c])
  then have "reachable pf_init pf_step (?s ?p {#Opened 4#} {4} {#4#})"
    by (rule reachable.step) (rule pf_step.opens, simp)
  then have "reachable pf_init pf_step (?s (?p\<lparr>pf_conn := Some 4\<rparr>) {#HasConn 4#} ({4} - set []) ({#4#} - mset []))"
    by (rule reachable.step) (rule pf_step.installs [OF i])
  from forward_leaks_no_connection [OF this] this show ?thesis by fastforce
qed

text \<open>The connection a dial tries: the cached one if it is live, otherwise a new one to the pod it resolved.\<close>

definition tried_conn :: "goerr + target \<Rightarrow> (target \<Rightarrow> goerr + nat) \<Rightarrow> nat set \<Rightarrow> portForward \<Rightarrow> goerr + nat" where
  "tried_conn resolved dial live p =
     (case pf_conn p of
        Some c \<Rightarrow> if c \<in> live then Inr c else (case resolved of Inl e \<Rightarrow> Inl e | Inr t \<Rightarrow> dial t)
      | None \<Rightarrow> (case resolved of Inl e \<Rightarrow> Inl e | Inr t \<Rightarrow> dial t))"

lemma tried_cached: "tried_conn resolved dial live p =
    (case pf_cached live p of Some c \<Rightarrow> Inr c | None \<Rightarrow> (case resolved of Inl e \<Rightarrow> Inl e | Inr t \<Rightarrow> dial t))"
  by (auto simp: tried_conn_def pf_cached_def split: option.split)



text \<open>A stream's deadline cannot be taken back: a deadline that was set and then cleared with the zero time,
  or moved to a later instant, still closes the stream at the first instant, contrary to the contract of
  \<open>net.Conn\<close> that the setters replace one another.\<close>

theorem stream_deadline_not_cleared:
  "t0 < d \<and> d < d' \<Longrightarrow>
   sm_closed (stream_at d (SetDeadline None t1 (SetDeadline (Some d) t0 streamConn_new))) \<and>
   sm_closed (stream_at d (SetDeadline (Some d') t0 (SetDeadline (Some d) t0 streamConn_new))) \<and>
   \<not> sm_closed (stream_at d (SetDeadline (Some d') t0 streamConn_new))"
  by (simp add: SetDeadline_def armDeadline_def stream_at_def streamConn_new_def Let_def)

theorem stream_deadline_not_cleared_witness:
  "sm_closed (stream_at 10 (SetDeadline None 5 (SetDeadline (Some 10) 0 streamConn_new)))"
  using stream_deadline_not_cleared [of 0 10 20 5] by simp

text \<open>The daemon panics on a configured host whose URL does not parse, such as a bare address with a port.\<close>

theorem spdy_dial_panics:
  assumes "host \<noteq> []" and "url_Parse (forward_url host t) = Inl err"
  shows "spdy_dial None url_Parse host dial t = None"
  using assms by (simp add: spdy_dial_def hostFromConfig_def mustParseURL_def)

end
