(* ===== verification/K8s_Backend.thy ===== *)
theory K8s_Backend
  imports K8s_Forward
begin

text \<open>
  The port forward of \<open>k8s/portforward.go\<close> as a backend of the registry: its \<open>Start\<close>, \<open>Stop\<close>, \<open>SetEventSink\<close> and
  \<open>DialContext\<close> on a state that the world carries, the factory that the daemon's control server calls for the type
  \<open>k8s\<close>, and the contract of the readiness loop on it. The cluster and the SPDY connections are parameters that
  change with time.
\<close>

section \<open>The backend\<close>

text \<open>\<open>ks_sink\<close> is the route name that the registry's sink fills in; \<open>ks_closed\<close> the connections the backend closed.
  The world holds the port forwards by the number of their backend.\<close>

record k8s_state =
  ks_pf :: portForward
  ks_sink :: "string option"
  ks_closed :: "nat list"

definition k8s_fresh :: k8s_state where
  "k8s_fresh = \<lparr>ks_pf = pf_New, ks_sink = None, ks_closed = []\<rparr>"

type_synonym forwards = "nat \<Rightarrow> k8s_state"

text \<open>
  At each instant: what the API server answers, how a SPDY dial ends, which connections have an open close channel,
  how opening a stream ends. \<open>cl_time\<close> is the time one dial spends on these calls.
\<close>

record cluster =
  cl_kube :: "int \<Rightarrow> kube"
  cl_spdy :: "int \<Rightarrow> target \<Rightarrow> goerr + nat"
  cl_live :: "int \<Rightarrow> nat set"
  cl_stream :: "int \<Rightarrow> nat \<Rightarrow> goerr + conn"
  cl_time :: nat

definition SetEventSink :: "nat \<Rightarrow> string \<Rightarrow> forwards world \<Rightarrow> forwards world" where
  "SetEventSink i name w = w\<lparr>ext := (ext w)(i := (ext w i)\<lparr>ks_sink := Some name\<rparr>)\<rparr>"

definition k8s_Start :: "nat \<Rightarrow> ctx \<Rightarrow> forwards world \<Rightarrow> goerr option \<times> forwards world" where
  "k8s_Start i ctx w = (None, w\<lparr>ext := (ext w)(i := (ext w i)\<lparr>ks_pf := pf_Start (ks_pf (ext w i))\<rparr>)\<rparr>)"

definition k8s_Stop :: "nat \<Rightarrow> ctx \<Rightarrow> forwards world \<Rightarrow> goerr option \<times> forwards world" where
  "k8s_Stop i ctx w =
     (case pf_Stop (ks_pf (ext w i)) of
        (closed, p) \<Rightarrow> (None, w\<lparr>ext := (ext w)(i := (ext w i)\<lparr>ks_pf := p, ks_closed := closed @ ks_closed (ext w i)\<rparr>)\<rparr>))"

definition k8s_DialContext :: "forwards config \<Rightarrow> nat \<Rightarrow> cluster \<Rightarrow> pf_options \<Rightarrow> forwards dialfn" where
  "k8s_DialContext cfg i C po ctx nw addr w =
     (let t = now w; s = ext w i in
      case pf_DialContext (resolve (cl_kube C t) po) (cl_spdy C t) (cl_stream C t)
             (cl_live C t - set (ks_closed s)) (ks_pf s) of
        (res, closed, evs, p) \<Rightarrow>
          (res, fold (pf_emit (map_option (sink_emit cfg) (ks_sink s))) evs
             (w\<lparr>now := t + int (cl_time C), ext := (ext w)(i := s\<lparr>ks_pf := p, ks_closed := closed @ ks_closed s\<rparr>)\<rparr>)))"

definition K8sBackend :: "forwards config \<Rightarrow> nat \<Rightarrow> cluster \<Rightarrow> pf_options \<Rightarrow> forwards Backend" where
  "K8sBackend cfg i C po = \<lparr>bk_id = i, bk_dial = k8s_DialContext cfg i C po, bk_start = Some (k8s_Start i),
     bk_stop = Some (k8s_Stop i), bk_addr = None, bk_sink = Some (SetEventSink i)\<rparr>"

text \<open>The factory as the control server has it under the type \<open>k8s\<close>.\<close>

definition k8s_backend_factory :: "forwards config \<Rightarrow> nat \<Rightarrow> cluster \<Rightarrow> (string \<Rightarrow> int_or_string)
    \<Rightarrow> (string option \<Rightarrow> goerr option) \<Rightarrow> goerr option \<Rightarrow> forwards factory" where
  "k8s_backend_factory cfg i C parse load client raw =
     map_sum id (K8sBackend cfg i C) (k8s_factory parse load client raw)"

section \<open>One dial\<close>

lemma pf_dial_open:
  "pf_DialContext resolved dial stream live p = (res, cl, evs, p') \<Longrightarrow> pf_closed p' = pf_closed p \<and> pf_ch p' = pf_ch p"
  by (auto simp: pf_DialContext_def ensureConn_def pf_install_def dropConn_def split: if_splits sum.splits prod.splits option.splits)

lemma pf_dial_retryable:
  "\<not> pf_closed p \<Longrightarrow> pf_DialContext resolved dial stream live p = (Inl e, cl, evs, p') \<Longrightarrow> IsRetryable (Some e)"
  by (auto simp: pf_DialContext_def split: if_splits sum.splits prod.splits)

text \<open>A pod that is ready from \<open>R\<close> on: it resolves, a new connection and every live one carry streams.\<close>

definition pod_ready_from :: "cluster \<Rightarrow> pf_options \<Rightarrow> int \<Rightarrow> bool" where
  "pod_ready_from C po R \<longleftrightarrow> (\<forall>t \<ge> R. \<exists>g c. resolve (cl_kube C t) po = Inr g \<and> cl_spdy C t g = Inr c \<and>
     (\<forall>c' \<in> insert c (cl_live C t). is_ok (cl_stream C t c')))"

lemma pf_dial_ok:
  assumes "\<not> pf_closed p" "resolved = Inr g" "dial g = Inr c" "\<forall>c' \<in> insert c L. is_ok (stream c')" "live \<subseteq> L"
    and "pf_DialContext resolved dial stream live p = (res, cl, evs, p')"
  shows "is_ok res"
proof (cases "pf_cached live p")
  case None
  from assms(4) obtain s where "stream c = Inr s" by (cases "stream c") auto
  with None assms(1-3,6) have "res = Inr s" by (simp add: pf_DialContext_def ensureConn_def pf_install_def)
  then show ?thesis by simp
next
  case (Some x)
  then have "x \<in> live" by (auto simp: pf_cached_def split: option.splits if_splits)
  with assms(4,5) have "is_ok (stream x)" by blast
  then obtain s where "stream x = Inr s" by (cases "stream x") auto
  with Some assms(1,6) have "res = Inr s" by (simp add: pf_DialContext_def ensureConn_def)
  then show ?thesis by simp
qed

lemma emit_silent [simp]: "c_handlers cfg = [] \<Longrightarrow> fold (pf_emit (map_option (sink_emit cfg) sink)) evs w = w"
  by (induction evs arbitrary: w) (auto simp: pf_emit_def sink_emit_def split: option.split)

lemma k8s_dial_frame:
  assumes "k8s_DialContext (New_config []) i C po ctx nw addr w = (res, w')"
  shows "now w' = now w + int (cl_time C)" "done_at w' = done_at w" "pf_closed (ks_pf (ext w' i)) = pf_closed (ks_pf (ext w i))"
    "pf_ch (ks_pf (ext w' i)) = pf_ch (ks_pf (ext w i))"
  using assms by (auto simp: k8s_DialContext_def Let_def dest: pf_dial_open split: prod.splits)

lemma k8s_dial_res:
  assumes "k8s_DialContext (New_config []) i C po ctx nw addr w = (res, w')" and "\<not> pf_closed (ks_pf (ext w i))"
  shows "res = Inl e \<Longrightarrow> IsRetryable (Some e)" and "pod_ready_from C po R \<Longrightarrow> R \<le> now w \<Longrightarrow> is_ok res"
proof -
  obtain cl evs p where d: "pf_DialContext (resolve (cl_kube C (now w)) po) (cl_spdy C (now w)) (cl_stream C (now w))
      (cl_live C (now w) - set (ks_closed (ext w i))) (ks_pf (ext w i)) = (res, cl, evs, p)"
    using assms(1) by (auto simp: k8s_DialContext_def Let_def split: prod.splits)
  show "IsRetryable (Some e)" if "res = Inl e" using pf_dial_retryable [OF assms(2) d [unfolded that]] .
  show "is_ok res" if "pod_ready_from C po R" "R \<le> now w"
  proof -
    from that obtain g c where "resolve (cl_kube C (now w)) po = Inr g" "cl_spdy C (now w) g = Inr c"
      "\<forall>c' \<in> insert c (cl_live C (now w)). is_ok (cl_stream C (now w) c')" unfolding pod_ready_from_def by blast
    from pf_dial_ok [OF assms(2) this _ d] show ?thesis by blast
  qed
qed

section \<open>The readiness loop on it\<close>

text \<open>The state in which it dials: started, so that there is a close channel, and not stopped.\<close>

definition k8s_running :: "nat \<Rightarrow> forwards \<Rightarrow> bool" where
  "k8s_running i fs \<longleftrightarrow> pf_ch (ks_pf (fs i)) = Some False \<and> \<not> pf_closed (ks_pf (fs i))"

lemma K8sBackend_simps [simp]: "bk_dial (K8sBackend cfg i C po) = k8s_DialContext cfg i C po"
  by (simp add: K8sBackend_def)

interpretation k8s_route: timed_route "New_config []" "plain_route name (K8sBackend (New_config []) i C po)" "int (cl_time C)"
  for name i C po
  by unfold_locales (simp_all add: k8s_dial_frame(1) [OF surjective_pairing])

lemma k8s_ready_route:
  assumes "pod_ready_from C po R"
  shows "ready_route (New_config []) (plain_route name (K8sBackend (New_config []) i C po)) (int (cl_time C)) R (int (cl_time C)) (k8s_running i)"
proof (unfold_locales, goal_cases)
  case (3 w ctx nw a)
  then show ?case using k8s_dial_res(2) [OF surjective_pairing [of "k8s_DialContext (New_config []) i C po ctx nw a w"] _ assms] by (simp add: k8s_running_def)
next
  case (4 w ctx nw a e)
  then show ?case using k8s_dial_res(1) [OF surjective_pairing [of "k8s_DialContext (New_config []) i C po ctx nw a w"]] by (simp add: k8s_running_def)
qed (simp_all add: k8s_dial_frame [OF surjective_pairing] k8s_running_def)

end
