(* ===== verification/K8s_End_To_End.thy ===== *)
theory K8s_End_To_End
  imports End_To_End K8s_Backend
begin

text \<open>
  The whole path of a Kubernetes route: from the flags of \<open>route add\<close> over the control socket to the factory and the
  options of the port forward, and from a CONNECT at the proxy through the readiness loop to a stream of the forward.
\<close>

section \<open>The configuration on the wire\<close>

lemma k8s_found [simp]:
  "find_field k8s_fields ''kubeconfig'' = Some (set_string (\<lambda>x c. c\<lparr>kc_kubeconfig := x\<rparr>))"
  "find_field k8s_fields ''namespace'' = Some (set_string (\<lambda>x c. c\<lparr>kc_namespace := x\<rparr>))"
  "find_field k8s_fields ''service'' = Some (set_string (\<lambda>x c. c\<lparr>kc_service := x\<rparr>))"
  "find_field k8s_fields ''selector'' = Some (set_string (\<lambda>x c. c\<lparr>kc_selector := x\<rparr>))"
  "find_field k8s_fields ''targetPort'' = Some (set_string (\<lambda>x c. c\<lparr>kc_targetPort := x\<rparr>))"
  by (simp_all add: find_field_def k8s_fields_def)

lemma k8s_keys [simp]: "to_valid ''kubeconfig'' = ''kubeconfig''" "to_valid ''namespace'' = ''namespace''"
  "to_valid ''service'' = ''service''" "to_valid ''selector'' = ''selector''" "to_valid ''targetPort'' = ''targetPort''"
  by (simp_all add: to_valid_ascii byte_def)

text \<open>An object whose members are strings is a configuration that the wire carries as it is.\<close>

lemma k8sConfig_flat:
  "json_ok (k8sConfig_json k)" "json_depth (k8sConfig_json k) \<le> 1" "json_html (k8sConfig_json k) = k8sConfig_json k"
  by (simp_all add: k8sConfig_json_def json_ok_object json_depth_object json_fields object_json_def)

lemma k8sConfig_sent [simp]:
  "wire_config (json_print (k8sConfig_json k)) = json_print (k8sConfig_json k)" "config_ok (json_print (k8sConfig_json k))"
proof -
  have d: "json_depth (k8sConfig_json k) \<le> maxNestingDepth" using k8sConfig_flat(2) [of k] max_depth_2 by simp
  show "wire_config (json_print (k8sConfig_json k)) = json_print (k8sConfig_json k)"
    using compact_print [OF k8sConfig_flat(1) d] k8sConfig_flat(3) [of k] by (simp add: wire_config_def)
  show "config_ok (json_print (k8sConfig_json k))"
    using json_parse_print [OF k8sConfig_flat(1) d, of "[]"] k8sConfig_flat(2) [of k]
    by (simp add: config_ok_def config_within_def maxNestingDepth_def)
qed

lemma k8sConfig_decoded:
  "decode_k8s_config (json_print (k8sConfig_json k)) = Inr \<lparr>kc_kubeconfig = to_valid (kc_Kubeconfig k),
     kc_namespace = to_valid (kc_Namespace k), kc_service = to_valid (kc_Service k), kc_selector = to_valid (kc_Selector k),
     kc_pod = [], kc_targetPort = to_valid (kc_TargetPort k)\<rparr>"
proof -
  have d: "json_depth (k8sConfig_json k) \<le> maxNestingDepth" using k8sConfig_flat(2) [of k] max_depth_2 by simp
  let ?ms = "string_omitempty ''kubeconfig'' (kc_Kubeconfig k) @ string_field ''namespace'' (kc_Namespace k)
     @ string_omitempty ''service'' (kc_Service k) @ string_omitempty ''selector'' (kc_Selector k)
     @ string_omitempty ''targetPort'' (kc_TargetPort k)"
  have "decode_members k8s_fields (members_texts ?ms) no_k8s_config = (\<lparr>kc_kubeconfig = to_valid (kc_Kubeconfig k),
     kc_namespace = to_valid (kc_Namespace k), kc_service = to_valid (kc_Service k), kc_selector = to_valid (kc_Selector k),
     kc_pod = [], kc_targetPort = to_valid (kc_TargetPort k)\<rparr>, True)"
    by (simp add: field_coding no_k8s_config_def)
  with Unmarshal_print [OF k8sConfig_flat(1) d, of "decode_struct k8s_fields no_k8s_config" no_k8s_config] k8sConfig_flat(1) [of k]
  show ?thesis by (simp add: decode_k8s_config_def decode_value_def decode_struct_print k8sConfig_json_def decoded_def)
qed

lemma cut_str_slash: "cut_str s [x] = Some (a, b) \<Longrightarrow> x \<notin> set a"
proof (induction s arbitrary: a)
  case (Cons y ys)
  then show ?case by (auto simp: has_prefix_iff split: if_splits)
qed simp

text \<open>The configuration of the specification that \<open>routeAdd\<close> builds for Kubernetes.\<close>

lemma route_spec_k8s:
  assumes "route_spec P name fl = Inr spec" and "flag_string ''tcp'' fl = []"
  obtains ns svc sel where "spec = \<lparr>sp_name = name, sp_type = ''k8s'', sp_config = json_print (k8sConfig_json
      \<lparr>kc_Kubeconfig = flag_string ''kubeconfig'' fl, kc_Namespace = ns, kc_Service = svc, kc_Selector = sel,
       kc_TargetPort = flag_string ''target-port'' fl\<rparr>)\<rparr>"
    "flag_string ''k8s-service'' fl \<noteq> [] \<Longrightarrow> flag_string ''k8s-service'' fl = ns @ ''/'' @ svc \<and> CHR ''/'' \<notin> set ns \<and> sel = []"
    "flag_string ''k8s-service'' fl = [] \<Longrightarrow> ns = flag_string ''k8s-namespace'' fl \<and> ns \<noteq> [] \<and> svc = [] \<and> sel = flag_string ''k8s-selector'' fl"
proof (cases "flag_string ''k8s-service'' fl = []")
  case True
  with assms that [of "flag_string ''k8s-namespace'' fl" "[]" "flag_string ''k8s-selector'' fl"] show thesis
    by (auto simp: route_spec_def Let_def k8s_empty_def split: if_splits)
next
  case False
  with assms obtain ns svc where c: "cut_str (flag_string ''k8s-service'' fl) ''/'' = Some (ns, svc)"
    by (auto simp: route_spec_def Let_def split: option.splits)
  have "spec = \<lparr>sp_name = name, sp_type = ''k8s'', sp_config = json_print (k8sConfig_json
      \<lparr>kc_Kubeconfig = flag_string ''kubeconfig'' fl, kc_Namespace = ns, kc_Service = svc, kc_Selector = [],
       kc_TargetPort = flag_string ''target-port'' fl\<rparr>)\<rparr>"
    using assms c False by (simp add: route_spec_def Let_def k8s_empty_def)
  moreover have "flag_string ''k8s-service'' fl = ns @ ''/'' @ svc \<and> CHR ''/'' \<notin> set ns"
    using cut_str_SomeD [OF c] cut_str_slash [OF c] by (rule conjI)
  ultimately show thesis using False that [of ns svc "[]"] by blast
qed

text \<open>The route of a Kubernetes backend: the daemon starts it when it adds the route.\<close>

lemma K8s_start:
  "Add_start (plain_route name (K8sBackend cfg i C po)) ctx w = (None, snd (k8s_Start i ctx (SetEventSink i name w)))"
  by (simp add: Add_start_def K8sBackend_def k8s_Start_def SetEventSink_def plain_route_def Let_def)

lemma K8s_start_running: "ks_pf (ext w i) = pf_New \<Longrightarrow> k8s_running i (ext (snd (k8s_Start i ctx (SetEventSink i name w))))"
  by (simp add: k8s_running_def k8s_Start_def SetEventSink_def pf_Start_def pf_New_def)

lemma route_spec_wire:
  assumes "route_spec P name fl = Inr spec" and "flag_string ''tcp'' fl = []" and "ValidString name"
  shows "sp_name spec = name" "sp_type spec = ''k8s''" "wire_spec spec = spec" "config_ok (sp_config spec)"
proof -
  obtain k where k: "spec = \<lparr>sp_name = name, sp_type = ''k8s'', sp_config = json_print (k8sConfig_json k)\<rparr>"
    using route_spec_k8s [OF assms(1,2)] by metis
  show "sp_name spec = name" "sp_type spec = ''k8s''" "wire_spec spec = spec" "config_ok (sp_config spec)"
    using assms(3) by (simp_all add: k wire_spec_def to_valid_ascii byte_def)
qed

section \<open>Properties\<close>

text \<open>C22: The flags of a Kubernetes route reach the port forward: the specification that the command builds arrives at
  the daemon unchanged over the wire (texts that are valid UTF-8), its configuration decodes to exactly the namespace,
  service, selector, target port and kubeconfig of the flags, and the factory loads the kubeconfig of the flags, or the
  default one, and builds the port forward with exactly the namespace, service and selector of the flags and, when it
  was given, their target port. It fails only when the kubeconfig cannot be loaded, for an empty service (\<open>NS/\<close>) or
  namespace (\<open>/NAME\<close>), and when the client cannot be built, with the error of that step.\<close>

theorem k8s_flags_reach_factory:
  assumes "route_spec P name fl = Inr spec" and "flag_string ''tcp'' fl = []"
    and "\<forall>f \<in> {''k8s-service'', ''k8s-selector'', ''k8s-namespace'', ''target-port'', ''kubeconfig''}. ValidString (flag_string f fl)"
    and "ValidString name"
  shows "\<exists>b ns svc sel. marshal_RouteSpec spec = Inr b \<and> decode_RouteSpec b = Inr spec \<and> sp_name spec = name \<and> sp_type spec = ''k8s'' \<and>
    (if flag_string ''k8s-service'' fl \<noteq> [] then flag_string ''k8s-service'' fl = ns @ ''/'' @ svc \<and> CHR ''/'' \<notin> set ns \<and> sel = []
     else ns = flag_string ''k8s-namespace'' fl \<and> ns \<noteq> [] \<and> svc = [] \<and> sel = flag_string ''k8s-selector'' fl) \<and>
    decode_k8s_config (sp_config spec) = Inr \<lparr>kc_kubeconfig = flag_string ''kubeconfig'' fl, kc_namespace = ns, kc_service = svc,
      kc_selector = sel, kc_pod = [], kc_targetPort = flag_string ''target-port'' fl\<rparr> \<and>
    (\<forall>parse load client. k8s_factory parse load client (sp_config spec) =
      (case load (if flag_string ''kubeconfig'' fl = [] then None else Some (flag_string ''kubeconfig'' fl)) of
         Some err \<Rightarrow> Inl (Errorf ''k8s: load kubeconfig: %w'' [] [err])
       | None \<Rightarrow>
           if svc = [] \<and> sel = [] then Inl (Errorf ''k8s config: one of service, selector, or pod is required'' [] [])
           else if ns = [] then Inl (ErrNew ''k8s: namespace is required'')
           else (case client of
               Some err \<Rightarrow> Inl (Errorf ''k8s: build clientset: %w'' [] [err])
             | None \<Rightarrow> Inr \<lparr>po_namespace = ns, po_service = svc, po_selector = sel, po_pod = [],
                 po_targetPort = (if flag_string ''target-port'' fl = [] then IntPort 0 else parse (flag_string ''target-port'' fl)),
                 po_hasTarget = (flag_string ''target-port'' fl \<noteq> [])\<rparr>)))"
proof -
  from route_spec_k8s [OF assms(1,2)] obtain ns svc sel where
    spec: "spec = \<lparr>sp_name = name, sp_type = ''k8s'', sp_config = json_print (k8sConfig_json
      \<lparr>kc_Kubeconfig = flag_string ''kubeconfig'' fl, kc_Namespace = ns, kc_Service = svc, kc_Selector = sel,
       kc_TargetPort = flag_string ''target-port'' fl\<rparr>)\<rparr>"
    and svc: "flag_string ''k8s-service'' fl \<noteq> [] \<Longrightarrow> flag_string ''k8s-service'' fl = ns @ ''/'' @ svc \<and> CHR ''/'' \<notin> set ns \<and> sel = []"
    and sel: "flag_string ''k8s-service'' fl = [] \<Longrightarrow> ns = flag_string ''k8s-namespace'' fl \<and> ns \<noteq> [] \<and> svc = [] \<and> sel = flag_string ''k8s-selector'' fl"
    by metis
  have valid: "ValidString ns \<and> ValidString svc \<and> ValidString sel"
  proof (cases "flag_string ''k8s-service'' fl = []")
    case True
    with sel assms(3) show ?thesis by simp
  next
    case False
    from svc [OF this] have "flag_string ''k8s-service'' fl = ns @ CHR ''/'' # svc" and sel: "sel = []" by simp_all
    moreover have "ValidString (flag_string ''k8s-service'' fl)" using assms(3) by simp
    ultimately have "ValidString (ns @ CHR ''/'' # svc)" by metis
    from ValidString_cut [OF this] sel show ?thesis by (simp add: byte_def)
  qed
  have "wire_spec spec = spec" using assms(4) by (simp add: wire_spec_def spec to_valid_ascii byte_def)
  moreover have "config_ok (sp_config spec)" by (simp add: spec)
  ultimately obtain b where b: "marshal_RouteSpec spec = Inr b" "decode_RouteSpec b = Inr spec"
    using RouteSpec_roundtrip by metis
  have dec: "decode_k8s_config (sp_config spec) = Inr \<lparr>kc_kubeconfig = flag_string ''kubeconfig'' fl, kc_namespace = ns, kc_service = svc,
      kc_selector = sel, kc_pod = [], kc_targetPort = flag_string ''target-port'' fl\<rparr>"
    using valid assms(3) by (simp add: spec k8sConfig_decoded)
  have "svc = [] \<or> sel = []" using svc sel by blast
  then have "k8s_factory parse load client (sp_config spec) =
      (case load (if flag_string ''kubeconfig'' fl = [] then None else Some (flag_string ''kubeconfig'' fl)) of
         Some err \<Rightarrow> Inl (Errorf ''k8s: load kubeconfig: %w'' [] [err])
       | None \<Rightarrow>
           if svc = [] \<and> sel = [] then Inl (Errorf ''k8s config: one of service, selector, or pod is required'' [] [])
           else if ns = [] then Inl (ErrNew ''k8s: namespace is required'')
           else (case client of
               Some err \<Rightarrow> Inl (Errorf ''k8s: build clientset: %w'' [] [err])
             | None \<Rightarrow> Inr \<lparr>po_namespace = ns, po_service = svc, po_selector = sel, po_pod = [],
                 po_targetPort = (if flag_string ''target-port'' fl = [] then IntPort 0 else parse (flag_string ''target-port'' fl)),
                 po_hasTarget = (flag_string ''target-port'' fl \<noteq> [])\<rparr>))" for parse load client
    unfolding k8s_factory_def dec sum.case k8s_config.select_convs
    by (auto simp: k8s_options_def PortForward_def PortForward_options_def Service_def LabelSelector_def
        TargetPort_def no_options_def Let_def split: option.split)
  moreover have "sp_name spec = name" "sp_type spec = ''k8s''" by (simp_all only: spec RouteSpec.select_convs)
  moreover have "if flag_string ''k8s-service'' fl \<noteq> [] then flag_string ''k8s-service'' fl = ns @ ''/'' @ svc \<and> CHR ''/'' \<notin> set ns \<and> sel = []
     else ns = flag_string ''k8s-namespace'' fl \<and> ns \<noteq> [] \<and> svc = [] \<and> sel = flag_string ''k8s-selector'' fl"
    unfolding if_bool_eq_conj using svc sel by blast
  ultimately show ?thesis using b dec by blast
qed

definition k8s_fl :: flags where
  "k8s_fl = [(''k8s-service'', StringFlag ''prod/web''), (''target-port'', StringFlag ''http'')]"

theorem k8s_flags_reach_factory_witness:
  "\<exists>spec. route_spec clock_platform ''web'' k8s_fl = Inr spec \<and>
    k8s_factory StrPort (\<lambda>_. None) None (sp_config spec) = Inr \<lparr>po_namespace = ''prod'', po_service = ''web'', po_selector = [],
      po_pod = [], po_targetPort = StrPort ''http'', po_hasTarget = True\<rparr>"
proof -
  have fl: "flag_string ''tcp'' k8s_fl = []" "flag_string ''k8s-service'' k8s_fl = ''prod/web''" "flag_string ''k8s-selector'' k8s_fl = []"
    "flag_string ''k8s-namespace'' k8s_fl = []" "flag_string ''target-port'' k8s_fl = ''http''" "flag_string ''kubeconfig'' k8s_fl = []"
    by (simp_all add: k8s_fl_def flag_string_def)
  have v: "ValidString ''prod/web''" "ValidString ''http''" "ValidString ''web''" "ValidString []"
    by (rule ValidString_ascii; simp add: byte_def)+
  then have vs: "\<forall>f \<in> {''k8s-service'', ''k8s-selector'', ''k8s-namespace'', ''target-port'', ''kubeconfig''}.
    ValidString (flag_string f k8s_fl)" by (simp add: fl)
  have "cut_str ''prod/web'' ''/'' = Some (''prod'', ''web'')" by code_simp
  then obtain spec where s: "route_spec clock_platform ''web'' k8s_fl = Inr spec" by (simp add: route_spec_def fl Let_def)
  from k8s_flags_reach_factory [OF s fl(1) vs v(3)] obtain ns svc sel where
    c: "if flag_string ''k8s-service'' k8s_fl \<noteq> [] then flag_string ''k8s-service'' k8s_fl = ns @ ''/'' @ svc \<and> CHR ''/'' \<notin> set ns \<and> sel = []
      else ns = flag_string ''k8s-namespace'' k8s_fl \<and> ns \<noteq> [] \<and> svc = [] \<and> sel = flag_string ''k8s-selector'' k8s_fl"
    and f: "k8s_factory StrPort (\<lambda>_. None) None (sp_config spec) =
      (if svc = [] \<and> sel = [] then Inl (Errorf ''k8s config: one of service, selector, or pod is required'' [] [])
       else if ns = [] then Inl (ErrNew ''k8s: namespace is required'')
       else Inr \<lparr>po_namespace = ns, po_service = svc, po_selector = sel, po_pod = [],
         po_targetPort = (if flag_string ''target-port'' k8s_fl = [] then IntPort 0 else StrPort (flag_string ''target-port'' k8s_fl)),
         po_hasTarget = (flag_string ''target-port'' k8s_fl \<noteq> [])\<rparr>)"
    by (elim exE conjE) (drule spec [where x = StrPort], drule spec [where x = "\<lambda>_. None"], drule spec [where x = None], simp)
  from c have "''prod/web'' = ns @ ''/'' @ svc" "CHR ''/'' \<notin> set ns" "sel = []" by (simp_all add: fl)
  then have "ns = ''prod''" "svc = ''web''" by (auto simp: Cons_eq_append_conv)
  with f s fl \<open>sel = []\<close> show ?thesis by simp
qed


text \<open>A cluster whose Service has no pod in its first two seconds and \<open>web-1\<close> from then on.\<close>

definition late_cluster :: cluster where
  "late_cluster = \<lparr>cl_kube = (\<lambda>t. if t < 2 * nano_s then demo_kube\<lparr>list_pods := (\<lambda>ns sel. Inr [])\<rparr> else demo_kube),
     cl_spdy = (\<lambda>t g. if t < 2 * nano_s then Inl (ErrNew ''refused'') else Inr 1), cl_live = (\<lambda>t. {1}),
     cl_stream = (\<lambda>t c. if t < 2 * nano_s then Inl (ErrNew ''refused'') else Inr (Conn 7 True None)), cl_time = 1000\<rparr>"

lemma late_ready: "pod_ready_from late_cluster (Service ''ns'' ''web'' no_options) (2 * nano_s)"
  using demo_resolve_service by (auto simp: pod_ready_from_def late_cluster_def)

definition late_api :: "forwards api" where
  "late_api = \<lparr>ap_factories = [(''k8s'', k8s_backend_factory (New_config []) 0 late_cluster StrPort (\<lambda>_. None) None)],
     ap_text = (\<lambda>e. ''error''), ap_pid = 1, ap_version = ''dev'', ap_unreachable = ErrNew ''no such file'', ap_keep_method = True\<rparr>"

definition late_world :: "forwards world" where
  "late_world = \<lparr>now = 5, rnd = [], closed_conns = [], closed_listeners = [], done_at = None, ext = (\<lambda>_. k8s_fresh)\<rparr>"

definition late_daemon :: "forwards daemon" where
  "late_daemon = \<lparr>dm_server = NewServer [] 0, dm_reg = registry_New [], dm_world = late_world\<rparr>"

definition late_platform :: "forwards daemon option platform" where
  "late_platform = demo_platform (api_client late_api Background) (\<lambda>_. 0) (\<lambda>_ d. d)"

lemma late_daemon_ok: "daemon_ok (New_config []) late_api late_daemon"
  using api_ok_New [of "[]" "ap_factories late_api" "[]" 0 late_world]
  by (simp add: daemon_ok_def late_daemon_def specs_clean_def NewServer_def)

lemma late_flags:
  "\<exists>fl. Parse (route_add_flags late_platform) [''--k8s-service'', ''ns/web''] = Inr (fl, []) \<and> flag_string ''tcp'' fl = [] \<and>
     flag_string ''k8s-service'' fl = ''ns/web'' \<and> flag_string ''target-port'' fl = [] \<and> flag_string ''kubeconfig'' fl = []"
proof -
  have "item_ok (route_add_flags late_platform) (Separate True ''k8s-service'' ''ns/web'')"
    by (auto simp: accepts_def flag_name_def bare_def route_add_flags_def socket_flag_def)
  from Parse_item [OF this, of "[]"] show ?thesis
    by (simp add: dashed_def assign_def route_add_flags_def socket_flag_def flag_string_def)
qed

lemma late_spec:
  assumes "flag_string ''tcp'' fl = []" "flag_string ''k8s-service'' fl = ''ns/web''" "flag_string ''target-port'' fl = []"
    "flag_string ''kubeconfig'' fl = []"
  shows "\<exists>spec. route_spec P ''web'' fl = Inr spec \<and>
    k8s_factory StrPort (\<lambda>_. None) None (sp_config spec) = Inr (Service ''ns'' ''web'' no_options)"
proof -
  have "cut_str ''ns/web'' ''/'' = Some (''ns'', ''web'')" by code_simp
  moreover have "to_valid [] = []" "to_valid ''ns'' = ''ns''" "to_valid ''web'' = ''web''" by (simp_all add: to_valid_ascii byte_def)
  ultimately show ?thesis using assms
    by (simp add: route_spec_def Let_def k8s_factory_def k8sConfig_decoded k8s_empty_def k8s_options_def PortForward_def
        PortForward_options_def Service_def no_options_def)
qed


end
