(* ===== verification/Control_Conc.thy ===== *)
theory Control_Conc
  imports Control
begin

text \<open>
  The control server with requests in flight at the same time. A handler of \<open>server.go\<close> has two critical sections:
  its call of the registry, under the registry's lock, and its update of \<open>specs\<close>, under the server's. Requests
  interleave between the two. While no two requests for one name are in flight the listing stays right; with two it
  can lose a specification.
\<close>

section \<open>The two critical sections of a handler\<close>

text \<open>What a handler that succeeded at the registry has still to do to \<open>specs\<close>.\<close>

datatype change = Record RouteSpec | Forget string

primrec commit_key :: "change \<Rightarrow> string" where
  "commit_key (Record spec) = to_lower (sp_name spec)"
| "commit_key (Forget name) = to_lower name"

primrec commit :: "change \<Rightarrow> server \<Rightarrow> server" where
  "commit (Record spec) s = s\<lparr>sv_specs := AList.update (to_lower (sp_name spec)) spec (sv_specs s)\<rparr>"
| "commit (Forget name) s = s\<lparr>sv_specs := AList.delete (to_lower name) (sv_specs s)\<rparr>"

definition add_registry :: "(string \<times> 'x factory) list \<Rightarrow> RouteSpec \<Rightarrow> ctx \<Rightarrow> 'x Registry \<Rightarrow> 'x world
    \<Rightarrow> api_reply \<times> change option \<times> 'x Registry \<times> 'x world" where
  "add_registry factories spec ctx r w =
     (if sp_name spec = [] \<or> sp_type spec = [] then
        (ApiError 400 codeBadRequest (ErrNew ''spec requires name and type''), None, r, w)
      else case lookupFactory (sp_type spec) factories of
        None \<Rightarrow> (ApiError 400 codeBadRequest (Errorf ''unknown backend type %q'' [sp_type spec] []), None, r, w)
      | Some factory \<Rightarrow>
          (case factory (sp_config spec) of
             Inl err \<Rightarrow> (ApiError 400 codeBadRequest err, None, r, w)
           | Inr b \<Rightarrow>
               (case Add r ctx (sp_name spec) (Some b) [] w of
                  (Inl err, r', w') \<Rightarrow>
                    (if err_is ErrRouteExists err then ApiError 409 codeRouteExists err
                     else ApiError 500 codeInternal err, None, r', w')
                | (Inr rt, r', w') \<Rightarrow> (ApiDone 201, Some (Record spec), r', w'))))"

definition remove_registry :: "string \<Rightarrow> ctx \<Rightarrow> 'x Registry \<Rightarrow> 'x world
    \<Rightarrow> api_reply \<times> change option \<times> 'x Registry \<times> 'x world" where
  "remove_registry name ctx r w =
     (case Remove r ctx name w of
        (Some err, r', w') \<Rightarrow>
          (if err_is ErrRouteNotFound err then ApiError 404 codeRouteNotFound err
           else ApiError 500 codeInternal err, None, r', w')
      | (None, r', w') \<Rightarrow> (ApiDone 204, Some (Forget name), r', w'))"

fun request_registry :: "(string \<times> 'x factory) list \<Rightarrow> ctx \<Rightarrow> api_op \<Rightarrow> 'x Registry \<Rightarrow> 'x world
    \<Rightarrow> api_reply \<times> change option \<times> 'x Registry \<times> 'x world" where
  "request_registry fs ctx (ApiAdd spec) r w = add_registry fs spec ctx r w"
| "request_registry fs ctx (ApiRemove name) r w = remove_registry name ctx r w"

fun request_key :: "api_op \<Rightarrow> string" where
  "request_key (ApiAdd spec) = to_lower (sp_name spec)"
| "request_key (ApiRemove name) = to_lower name"

text \<open>One request alone is its two sections in sequence.\<close>

lemma api_exec_sections:
  "api_exec fs ctx (s, r, w) op =
     (case request_registry fs ctx op r w of (reply, c, r', w') \<Rightarrow> (reply, (case c of None \<Rightarrow> s | Some x \<Rightarrow> commit x s), r', w'))"
  by (cases op) (auto simp: handleAddRoute_def add_registry_def handleRemoveRoute_def remove_registry_def
      split: option.splits sum.splits prod.splits)

section \<open>Requests in flight\<close>

type_synonym 'x flight = "server \<times> 'x Registry \<times> 'x world \<times> change list"

text \<open>A request comes, with the commit it leaves open, or an open commit is made; any open commit can be the next.\<close>

datatype flight_event = Request api_op | Commit

inductive flight_step :: "(string \<times> 'x factory) list \<Rightarrow> ctx \<Rightarrow> 'x flight \<Rightarrow> flight_event \<Rightarrow> 'x flight \<Rightarrow> bool"
  for fs :: "(string \<times> 'x factory) list" and ctx :: ctx where
  request: "request_registry fs ctx op r w = (reply, c, r', w') \<Longrightarrow>
    flight_step fs ctx (s, r, w, open) (Request op) (s, r', w', open @ (case c of None \<Rightarrow> [] | Some x \<Rightarrow> [x]))"
| commit: "flight_step fs ctx (s, r, w, xs @ x # ys) Commit (commit x s, r, w, xs @ ys)"

inductive_cases flight_requestE: "flight_step fs ctx (s, r, w, open) (Request op) st"
inductive_cases flight_commitE: "flight_step fs ctx (s, r, w, open) Commit st"

text \<open>A request has its name for itself when no commit for it is open.\<close>

fun name_free :: "flight_event \<Rightarrow> 'x flight \<Rightarrow> bool" where
  "name_free (Request op) (s, r, w, open) = (request_key op \<notin> commit_key ` set open)"
| "name_free Commit st = True"

definition orderly :: "(string \<times> 'x factory) list \<Rightarrow> ctx \<Rightarrow> 'x flight \<Rightarrow> 'x flight \<Rightarrow> bool" where
  "orderly fs ctx st st' \<longleftrightarrow> (\<exists>e. name_free e st \<and> flight_step fs ctx st e st')"

section \<open>The invariant\<close>

text \<open>The specification of a published route is recorded, or its commit is open.\<close>

definition spec_known :: "server \<Rightarrow> change list \<Rightarrow> string \<Rightarrow> RouteSpec \<Rightarrow> bool" where
  "spec_known s open k spec \<longleftrightarrow>
     (if k \<in> commit_key ` set open then Record spec \<in> set open \<and> to_lower (sp_name spec) = k
      else map_of (sv_specs s) k = Some spec)"

definition flight_ok :: "'x config \<Rightarrow> (string \<times> 'x factory) list \<Rightarrow> 'x flight \<Rightarrow> bool" where
  "flight_ok cfg fs = (\<lambda>(s, r, w, open). table_ok cfg (r, w) \<and> distinct (map commit_key open) \<and>
     (\<forall>k rt. published r k = Some rt \<longrightarrow> (\<exists>spec. spec_known s open k spec \<and> spec_built fs spec rt)))"

lemma flight_ok_landed: "flight_ok cfg fs (s, r, w, []) \<longleftrightarrow> api_ok cfg fs (s, r, w)"
  by (simp add: flight_ok_def api_ok_def spec_known_def)

lemma request_registry_published:
  assumes "quiescent r" "request_registry fs ctx op r w = (reply, c, r', w')"
  shows "case c of
      None \<Rightarrow> (\<forall>k rt. published r' k = Some rt \<longrightarrow> published r k = Some rt)
    | Some x \<Rightarrow> commit_key x = request_key op \<and> (\<forall>k. k \<noteq> request_key op \<longrightarrow> published r' k = published r k) \<and>
        (case x of Forget n \<Rightarrow> published r' (request_key op) = None
         | Record spec \<Rightarrow> \<exists>rt. published r' (request_key op) = Some rt \<and> spec_built fs spec rt)"
proof (cases op)
  case (ApiAdd spec)
  show ?thesis
  proof (cases "\<exists>f b. lookupFactory (sp_type spec) fs = Some f \<and> f (sp_config spec) = Inr b \<and> sp_name spec \<noteq> [] \<and> sp_type spec \<noteq> []")
    case True
    then obtain f b where f: "lookupFactory (sp_type spec) fs = Some f" "f (sp_config spec) = Inr b" "sp_name spec \<noteq> []" "sp_type spec \<noteq> []"
      by blast
    obtain res r1 w1 where add: "Add r ctx (sp_name spec) (Some b) [] w = (res, r1, w1)" by (metis prod_cases3)
    from Add_published [OF assms(1) add] f add assms(2) show ?thesis
      by (cases res) (auto simp: ApiAdd add_registry_def spec_built_def)
  next
    case False
    with assms(2) have "c = None \<and> r' = r"
      by (auto simp: ApiAdd add_registry_def split: if_splits option.splits sum.splits)
    then show ?thesis by simp
  qed
next
  case (ApiRemove name)
  obtain e r1 w1 where rm: "Remove r ctx name w = (e, r1, w1)" by (metis prod_cases3)
  from Remove_published [OF rm] rm assms(2) show ?thesis
    by (cases e) (auto simp: ApiRemove remove_registry_def)
qed

lemma request_registry_ok:
  assumes t: "table_ok cfg (r, w)" and q: "request_registry fs ctx op r w = (reply, c, r', w')"
  shows "table_ok cfg (r', w')"
proof -
  have "table_ok cfg (r1, w1)" if "Add r ctx n b [] w = (res, r1, w1)" for n b res r1 w1
    using reg_exec_ok [OF t, of "OpAdd ctx n b []"] that by simp
  moreover have "table_ok cfg (r1, w1)" if "Remove r ctx n w = (e, r1, w1)" for n e r1 w1
    using reg_exec_ok [OF t, of "OpRemove ctx n"] that by simp
  ultimately show ?thesis using t q
    by (cases op) (auto simp: add_registry_def remove_registry_def split: if_splits option.splits sum.splits prod.splits)
qed

lemma flight_request_ok:
  assumes ok: "flight_ok cfg fs (s, r, w, open)" and free: "request_key op \<notin> commit_key ` set open"
    and q: "request_registry fs ctx op r w = (reply, c, r', w')"
  shows "flight_ok cfg fs (s, r', w', open @ (case c of None \<Rightarrow> [] | Some x \<Rightarrow> [x]))"
proof -
  from ok have t: "table_ok cfg (r, w)" by (simp add: flight_ok_def)
  then have "quiescent r" by (simp add: table_ok_def)
  note p = request_registry_published [OF this q]
  show ?thesis
  proof (cases c)
    case None
    with p ok request_registry_ok [OF t q] show ?thesis by (simp add: flight_ok_def)
  next
    case (Some x)
    let ?open = "open @ [x]"
    have key: "commit_key x = request_key op" using p Some by simp
    have "\<exists>spec. spec_known s ?open k spec \<and> spec_built fs spec rt" if "published r' k = Some rt" for k rt
    proof (cases "k = request_key op")
      case True
      with p Some that obtain spec where "x = Record spec" "spec_built fs spec rt" by (cases x) auto
      with key True show ?thesis by (auto simp: spec_known_def)
    next
      case False
      with p Some that have "published r k = Some rt" by simp
      with ok obtain spec where "spec_known s open k spec" "spec_built fs spec rt" by (auto simp: flight_ok_def)
      with False key show ?thesis by (auto simp: spec_known_def)
    qed
    with ok request_registry_ok [OF t q] key free Some show ?thesis by (auto simp: flight_ok_def)
  qed
qed

lemma flight_commit_ok:
  assumes "flight_ok cfg fs (s, r, w, xs @ x # ys)"
  shows "flight_ok cfg fs (commit x s, r, w, xs @ ys)"
proof -
  have own: "commit_key x \<notin> commit_key ` set (xs @ ys)" and d: "distinct (map commit_key (xs @ ys))"
    using assms by (auto simp: flight_ok_def)
  have "spec_known (commit x s) (xs @ ys) k spec" if "spec_known s (xs @ x # ys) k spec" for k spec
  proof (cases "k = commit_key x")
    case True
    with that have m: "Record spec \<in> set (xs @ x # ys)" and k: "commit_key (Record spec) = commit_key x"
      by (auto simp: spec_known_def)
    have "Record spec \<notin> set (xs @ ys)" using own k by (metis imageI)
    with m have "x = Record spec" by auto
    with own True show ?thesis by (auto simp: spec_known_def update_conv')
  next
    case False
    with that show ?thesis by (cases x) (auto simp: spec_known_def update_conv' delete_conv')
  qed
  moreover have "table_ok cfg (r, w)"
    and "\<And>k rt. published r k = Some rt \<Longrightarrow> \<exists>spec. spec_known s (xs @ x # ys) k spec \<and> spec_built fs spec rt"
    using assms unfolding flight_ok_def by blast+
  ultimately show ?thesis using d unfolding flight_ok_def by blast
qed

lemma orderly_ok: "flight_ok cfg fs st \<Longrightarrow> orderly fs ctx st st' \<Longrightarrow> flight_ok cfg fs st'"
  unfolding orderly_def
  by (elim exE conjE, erule flight_step.cases) (auto intro: flight_request_ok flight_commit_ok)

lemma orderly_run_ok: "(orderly fs ctx)\<^sup>*\<^sup>* st st' \<Longrightarrow> flight_ok cfg fs st \<Longrightarrow> flight_ok cfg fs st'"
  by (induction rule: rtranclp_induct) (auto dest: orderly_ok)

section \<open>Properties\<close>

text \<open>C12: The listing stays right with requests in flight at the same time, as long as no two of them are for one name:
  whatever the order in which their registry calls and their updates of \<open>specs\<close> interleave, once the updates are
  made every route is listed with the type and the configuration its backend was built from. The condition is
  needed: a remove and an add of one name can interleave so that the add's route stays, its client is told 201, and
  the route is listed as \<open>custom\<close>, without its specification.\<close>

theorem interleaved_requests_keep_listing:
  assumes "(orderly fs ctx)\<^sup>*\<^sup>* (NewServer (map WithProxyAddr as) t, registry_New opts, w0, []) (s, r, w, [])"
  shows "\<exists>is. handleListRoutes s r w = ApiRoutes is \<and> map ri_name is = map rt_name (Routes r) \<and>
    list_all2 (\<lambda>i rt. \<exists>f. lookupFactory (ri_type i) fs = Some f \<and> f (ri_config i) = Inr (rt_backend rt)) is (Routes r)"
proof -
  have "flight_ok (New_config opts) fs (s, r, w, [])"
    using assms by (rule orderly_run_ok) (simp add: flight_ok_landed api_ok_New)
  then have "listing_right fs s r w" unfolding flight_ok_landed by (rule api_ok_listing)
  then show ?thesis
    by (auto simp: handleListRoutes_def listing_right_def list_all2_conv_all_nth intro!: exI [of _ "map (route_info s w) (Routes r)"])
qed

abbreviation flight_run :: "(string \<times> 'x factory) list \<Rightarrow> ctx \<Rightarrow> 'x flight \<Rightarrow> 'x flight \<Rightarrow> bool" where
  "flight_run fs ctx \<equiv> (\<lambda>st st'. \<exists>e. flight_step fs ctx st e st')\<^sup>*\<^sup>*"

lemma flight_request_run:
  "request_registry fs ctx op r w = (reply, Some x, r', w') \<Longrightarrow> flight_run fs ctx (s, r, w, open) (s, r', w', open @ [x])"
  by (rule r_into_rtranclp) (use flight_step.request [of fs ctx op r w reply "Some x" r' w' s "open"] in auto)

lemma flight_commit_run: "flight_run fs ctx (s, r, w, xs @ x # ys) (commit x s, r, w, xs @ ys)"
  by (rule r_into_rtranclp) (use flight_step.commit in blast)

text \<open>The lost specification: a remove that has left the registry and an add of the same name that comes before the
  remove has updated \<open>specs\<close>.\<close>

theorem interleaved_requests_lose_spec:
  assumes ok: "api_ok cfg fs (s, r, w)" and rm: "Remove r ctx name w = (None, r1, w1)"
    and add: "request_registry fs ctx (ApiAdd spec) r1 w1 = (ApiDone 201, Some (Record spec), r2, w2)"
    and same: "to_lower (sp_name spec) = to_lower name"
  shows "\<exists>s' rt. flight_run fs ctx (s, r, w, []) (s', r2, w2, []) \<and> rt \<in> set (Routes r2) \<and> rt_name rt = sp_name spec \<and>
    ri_type (route_info s' w2 rt) = ''custom'' \<and> ri_config (route_info s' w2 rt) = []"
proof -
  have rm': "request_registry fs ctx (ApiRemove name) r w = (ApiDone 204, Some (Forget name), r1, w1)"
    using rm by (simp add: remove_registry_def)
  let ?s = "commit (Forget name) (commit (Record spec) s)"
  note flight_request_run [OF rm', of s "[]"]
  also note flight_request_run [OF add, of s "[] @ [Forget name]"]
  also have "flight_run fs ctx (s, r2, w2, ([] @ [Forget name]) @ [Record spec]) (commit (Record spec) s, r2, w2, [Forget name])"
    using flight_commit_run [of fs ctx s r2 w2 "[Forget name]" "Record spec" "[]"] by simp
  also have "flight_run fs ctx (commit (Record spec) s, r2, w2, [Forget name]) (?s, r2, w2, [])"
    using flight_commit_run [of fs ctx "commit (Record spec) s" r2 w2 "[]" "Forget name" "[]"] by simp
  finally have run: "flight_run fs ctx (s, r, w, []) (?s, r2, w2, [])" .
  have t: "table_ok cfg (r1, w1)"
    by (rule request_registry_ok [OF _ rm']) (use ok in \<open>simp add: api_ok_def\<close>)
  then have q: "quiescent r1" by (simp add: table_ok_def)
  from request_registry_ok [OF t add] have inv: "reg_inv r2" by (simp add: table_ok_def)
  from request_registry_published [OF q add] obtain rt where rt: "published r2 (to_lower name) = Some rt" "rt_name rt = sp_name spec"
    using same by (auto simp: spec_built_def)
  then have "rt \<in> set (Routes r2)" using Routes_published [OF inv] by (auto simp: ran_def)
  moreover have "map_of (sv_specs ?s) (to_lower (rt_name rt)) = None" using rt(2) same by (simp add: delete_conv')
  then have "ri_type (route_info ?s w2 rt) = ''custom''" "ri_config (route_info ?s w2 rt) = []"
    unfolding route_info_def Let_def by simp_all
  ultimately show ?thesis using run rt(2) by blast
qed

section \<open>Witnesses\<close>

lemma demo_add_registry:
  "request_registry demo_fs Background (ApiAdd demo_spec) (registry_New []) demo_world =
     (ApiDone 201, Some (Record demo_spec), demo_registry, demo_world)"
proof -
  have "Add_check (New_config []) ''a'' (Some (rt_backend demo_route)) [] = Inr (plain_route ''a'' (rt_backend demo_route))"
    by (simp add: Add_check_def plain_route_def route_config_def validateHostRewrite_def Let_def)
  moreover have "Add_start (plain_route ''a'' (rt_backend demo_route)) ctx w = (None, w)" for ctx w
    by (simp add: Add_start_def demo_route_def simple_backend_def)
  moreover have "rc_hostRewrite (rt_cfg (plain_route ''a'' b)) = []" for b :: "Event list Backend"
    by (simp add: plain_route_def route_config_def)
  ultimately show ?thesis
    by (simp add: add_registry_def demo_spec_def demo_fs_def lookupFactory_def Add_value registry_New_def
        to_lower_a with_flag_def demo_registry_def)
qed

lemma demo_routes: "Routes demo_registry = [plain_route ''a'' (rt_backend demo_route)]"
  by (simp add: demo_registry_def Routes_def map_filter_def)

theorem interleaved_requests_keep_listing_witness:
  "\<exists>i. handleListRoutes ((NewServer [] 0)\<lparr>sv_specs := [(''a'', demo_spec)]\<rparr>) demo_registry demo_world = ApiRoutes [i] \<and>
     (\<exists>f. lookupFactory (ri_type i) demo_fs = Some f \<and> f (ri_config i) = Inr (rt_backend demo_route))"
proof -
  let ?s0 = "NewServer (map WithProxyAddr []) 0"
  have "flight_step demo_fs Background (?s0, registry_New [], demo_world, []) (Request (ApiAdd demo_spec)) (?s0, demo_registry, demo_world, [Record demo_spec])"
    using flight_step.request [OF demo_add_registry, of ?s0 "[]"] by simp
  then have "orderly demo_fs Background (?s0, registry_New [], demo_world, []) (?s0, demo_registry, demo_world, [Record demo_spec])"
    unfolding orderly_def by (intro exI conjI) auto
  moreover have "flight_step demo_fs Background (?s0, demo_registry, demo_world, [Record demo_spec]) Commit
      ((NewServer [] 0)\<lparr>sv_specs := [(''a'', demo_spec)]\<rparr>, demo_registry, demo_world, [])"
    using flight_step.commit [of demo_fs Background ?s0 demo_registry demo_world "[]" "Record demo_spec" "[]"]
    by (simp add: demo_spec_def to_lower_a NewServer_def)
  then have "orderly demo_fs Background (?s0, demo_registry, demo_world, [Record demo_spec])
      ((NewServer [] 0)\<lparr>sv_specs := [(''a'', demo_spec)]\<rparr>, demo_registry, demo_world, [])"
    unfolding orderly_def by (intro exI conjI) auto
  ultimately have run: "(orderly demo_fs Background)\<^sup>*\<^sup>* (?s0, registry_New [], demo_world, [])
      ((NewServer [] 0)\<lparr>sv_specs := [(''a'', demo_spec)]\<rparr>, demo_registry, demo_world, [])" by (meson converse_rtranclp_into_rtranclp rtranclp.rtrancl_refl)
  from interleaved_requests_keep_listing [OF run] demo_routes show ?thesis
    by (auto simp: list_all2_Cons2)
qed

lemma demo_remove: "Remove demo_registry Background ''a'' demo_world = (None, registry_New [], demo_world)"
proof -
  have "published demo_registry ''a'' = Some (plain_route ''a'' (rt_backend demo_route))"
    by (simp add: published_def demo_registry_def)
  moreover have "r_cfg demo_registry = New_config []" by (simp add: demo_registry_def registry_New_def)
  moreover have "backend_Stop (rt_backend demo_route) Background w = (None, w)" for w
    by (simp add: backend_Stop_def demo_route_def simple_backend_def)
  ultimately show ?thesis by (simp add: Remove_value to_lower_a) (simp add: demo_registry_def registry_New_def)
qed

theorem interleaved_requests_lose_spec_witness:
  "\<exists>s' rt. flight_run demo_fs Background ((NewServer [] 0)\<lparr>sv_specs := [(''a'', demo_spec)]\<rparr>, demo_registry, demo_world, [])
      (s', demo_registry, demo_world, []) \<and> rt \<in> set (Routes demo_registry) \<and> ri_type (route_info s' demo_world rt) = ''custom''"
proof -
  have "api_ok (New_config []) demo_fs ((NewServer [] 0)\<lparr>sv_specs := [(''a'', demo_spec)]\<rparr>, demo_registry, demo_world)"
    using api_run_ok [OF api_ok_New [where as = "[]", unfolded list.map] demo_run] .
  from interleaved_requests_lose_spec [OF this demo_remove demo_add_registry] show ?thesis
    by (auto simp: demo_spec_def)
qed

end
