(* ===== verification/Health.thy ===== *)
theory Health
  imports Backends
begin

text \<open>
  The two health checks of \<open>options.go\<close>. The HTTP client's round trip over a dial function and the TLS
  handshake on a connection are parameters; whether a URL parses is one too.
\<close>

section \<open>options.go: health checks\<close>

text \<open>The response's status code and status text, or the client's error.\<close>

type_synonym 'x http_get = "'x dialfn \<Rightarrow> ctx \<Rightarrow> string \<Rightarrow> 'x world \<Rightarrow> (goerr + int \<times> string) \<times> 'x world"

definition health_url :: "int \<Rightarrow> string \<Rightarrow> string" where
  "health_url port path = ''http://'' @ JoinHostPort ''localhost'' (itoa port) @ path"

definition http_health :: "(string \<Rightarrow> goerr option) \<Rightarrow> 'x http_get \<Rightarrow> int \<Rightarrow> string \<Rightarrow> 'x healthcheck" where
  "http_health new_request get port path ctx dial w =
     (case new_request (health_url port path) of
        Some err \<Rightarrow> (Some err, w)
      | None \<Rightarrow>
          (case get dial ctx (health_url port path) w of
             (Inl err, w') \<Rightarrow> (Some err, w')
           | (Inr (code, status), w') \<Rightarrow>
               (if code < 200 \<or> code > 299 then Some (Errorf ''health %s: status %s'' [path, status] []) else None, w')))"

definition RouteWithHTTPHealth :: "(string \<Rightarrow> goerr option) \<Rightarrow> 'x http_get \<Rightarrow> int \<Rightarrow> string
    \<Rightarrow> 'x routeConfig \<Rightarrow> 'x routeConfig" where
  "RouteWithHTTPHealth new_request get port path = RouteWithHealthCheck (http_health new_request get port path)"

text \<open>
  Of a TLS configuration the model keeps whether it verifies the peer. Closing the TLS connection closes
  the one below it, which the deferred \<open>Close\<close> then closes again.
\<close>

record tls_config =
  tls_skip_verify :: bool

type_synonym 'x handshake = "tls_config \<Rightarrow> ctx \<Rightarrow> conn \<Rightarrow> 'x world \<Rightarrow> goerr option \<times> 'x world"

definition tls_health :: "'x handshake \<Rightarrow> int \<Rightarrow> tls_config option \<Rightarrow> 'x healthcheck" where
  "tls_health handshake port cfg ctx dial w =
     (case dial ctx ''tcp'' (JoinHostPort ''localhost'' (itoa port)) w of
        (Inl err, w') \<Rightarrow> (Some err, w')
      | (Inr conn, w') \<Rightarrow>
          (case handshake (case cfg of None \<Rightarrow> \<lparr>tls_skip_verify = True\<rparr> | Some c \<Rightarrow> c) ctx conn w' of
             (err, w'') \<Rightarrow> (err, close_conn conn (close_conn conn w''))))"

definition RouteWithTLSHealth :: "'x handshake \<Rightarrow> int \<Rightarrow> tls_config option \<Rightarrow> 'x routeConfig \<Rightarrow> 'x routeConfig" where
  "RouteWithTLSHealth handshake port cfg = RouteWithHealthCheck (tls_health handshake port cfg)"

lemma health_options [simp, go_config]:
  "rc_health (RouteWithHTTPHealth nr get port path c) = Some (http_health nr get port path)"
  "rc_health (RouteWithTLSHealth hs port cfg c) = Some (tls_health hs port cfg)"
  by (simp_all add: RouteWithHTTPHealth_def RouteWithTLSHealth_def RouteWithHealthCheck_def)

section \<open>What a health check gates\<close>

lemma dial_round_Inr_conn:
  assumes "dial_round cfg rt ctx nw addr start k bo w = Inl (Inr c, w')"
  shows "\<exists>w1. dial_attempt rt ctx nw addr w = (Inr c, w1)"
  using assms
  by (auto simp: dial_round_def dial_fail_def Let_def split: prod.splits sum.splits option.splits if_splits wake.splits)

lemma dialRoute_attempt:
  fixes rt :: "'x Route" and w :: "'x world"
  assumes "dialRoute cfg rt ctx nw addr w = Some (Inr c, w')"
  shows "\<exists>w1 w2. dial_attempt rt (dial_ctx rt ctx w) nw addr w1 = (Inr c, w2)"
proof -
  obtain v where "dial_loop cfg rt (dial_ctx rt ctx w) nw addr (now w) 0 dial_backoff v = Some (Inr c, w')"
    using assms by (auto simp: dialRoute_def Let_def)
  then have "fst (Inr c :: goerr + conn, w') = Inr c \<longrightarrow>
      (\<exists>w1 w2. dial_attempt rt (dial_ctx rt ctx w) nw addr w1 = (Inr c, w2))"
  proof (rule dial_loop_invariant [where I = "\<lambda>_ _ _. True" and
        Q = "\<lambda>r. fst r = Inr c \<longrightarrow> (\<exists>w1 w2. dial_attempt rt (dial_ctx rt ctx w) nw addr w1 = (Inr c, w2))"])
    fix k bo v and r :: "(goerr + conn) \<times> 'x world"
    assume "dial_round cfg rt (dial_ctx rt ctx w) nw addr (now w) k bo v = Inl r"
    then show "fst r = Inr c \<longrightarrow> (\<exists>w1 w2. dial_attempt rt (dial_ctx rt ctx w) nw addr w1 = (Inr c, w2))"
      using dial_round_Inr_conn by (metis prod.collapse)
  qed simp_all
  then show ?thesis by simp
qed

text \<open>Without event handlers the dial ends with that attempt.\<close>

lemma dialRoute_attempt_last:
  fixes rt :: "'x Route" and w :: "'x world"
  assumes "c_handlers cfg = []" and "dialRoute cfg rt ctx nw addr w = Some (Inr c, w')"
  shows "\<exists>w1. dial_attempt rt (dial_ctx rt ctx w) nw addr w1 = (Inr c, w')"
proof -
  let ?Q = "\<lambda>r :: (goerr + conn) \<times> 'x world. fst r = Inr c \<longrightarrow> (\<exists>w1. dial_attempt rt (dial_ctx rt ctx w) nw addr w1 = r)"
  obtain v where "dial_loop cfg rt (dial_ctx rt ctx w) nw addr (now w) 0 dial_backoff v = Some (Inr c, w')"
    using assms(2) by (auto simp: dialRoute_def Let_def)
  then have "?Q (Inr c, w')"
  proof (rule dial_loop_invariant [where I = "\<lambda>_ _ _. True" and Q = ?Q])
    fix k bo v and r :: "(goerr + conn) \<times> 'x world"
    assume rd: "dial_round cfg rt (dial_ctx rt ctx w) nw addr (now w) k bo v = Inl r"
    have "emit cfg e u = u" for e and u :: "'x world" using assms(1) by (simp add: emit_def)
    with rd show "?Q r"
      by (auto simp: dial_round_def dial_fail_def Let_def split: prod.splits sum.splits option.splits if_splits wake.splits)
  qed simp_all
  then show ?thesis by simp
qed

lemma dial_attempt_healthy:
  assumes "dial_attempt rt ctx nw addr w1 = (Inr c, w2)" and "rc_health (rt_cfg rt) = Some h"
  shows "\<exists>w3. rt_dial rt ctx nw addr w1 = (Inr c, w3) \<and> h ctx (bk_dial (rt_backend rt)) w3 = (None, w2)"
  using assms by (auto simp: dial_attempt_def split: prod.splits sum.splits option.splits)

lemma unhealthy_closes:
  assumes "rt_dial rt ctx nw addr w = (Inr c, w1)" and "rc_health (rt_cfg rt) = Some h"
    and "h ctx (bk_dial (rt_backend rt)) w1 = (Some e, w2)"
  shows "\<exists>err. dial_attempt rt ctx nw addr w = (Inl err, close_conn c w2) \<and> IsRetryable (Some err)"
  using assms by (simp add: dial_attempt_def)

lemma http_health_None:
  "http_health nr get port path ctx dial w = (None, w') \<longleftrightarrow> nr (health_url port path) = None \<and>
     (\<exists>code status. get dial ctx (health_url port path) w = (Inr (code, status), w') \<and> 200 \<le> code \<and> code \<le> 299)"
  by (auto simp: http_health_def split: option.splits prod.splits sum.splits if_splits)

lemma tls_health_None:
  "tls_health hs port cfg ctx dial w = (None, w') \<Longrightarrow>
     \<exists>conn w1 w2. dial ctx ''tcp'' (JoinHostPort ''localhost'' (itoa port)) w = (Inr conn, w1) \<and>
       hs (case cfg of None \<Rightarrow> \<lparr>tls_skip_verify = True\<rparr> | Some c \<Rightarrow> c) ctx conn w1 = (None, w2) \<and>
       w' = close_conn conn (close_conn conn w2)"
  by (auto simp: tls_health_def split: prod.splits sum.splits)

section \<open>Timing\<close>

text \<open>A call to the other side that takes \<open>dur\<close> and respects its context: \<open>None\<close> when it came to its end.\<close>

definition await :: "ctx \<Rightarrow> nat \<Rightarrow> 'x world \<Rightarrow> goerr option \<times> 'x world" where
  "await ctx dur w =
     (let fin = now w + int dur in
      case ctx_done ctx of
        Some (t, err, cause) \<Rightarrow> if t \<le> fin then (Some err, w\<lparr>now := max (now w) t\<rparr>) else (None, w\<lparr>now := fin\<rparr>)
      | None \<Rightarrow> (None, w\<lparr>now := fin\<rparr>))"

lemma await_time:
  "now w \<le> now (snd (await ctx dur w))" "now (snd (await ctx dur w)) \<le> now w + int dur"
  "done_by ctx D \<Longrightarrow> now (snd (await ctx dur w)) \<le> max (now w) D"
  "done_at (snd (await ctx dur w)) = done_at w"
  by (auto simp: await_def Let_def done_by_def split: prod.splits option.splits)

lemma await_alive: "alive ctx (now w + int dur) \<Longrightarrow> await ctx dur w = (None, w\<lparr>now := now w + int dur\<rparr>)"
  by (auto simp: await_def Let_def alive_def ctx_Cause_None_iff split: option.splits)

text \<open>
  \<open>HandshakeContext\<close> respects its context. \<open>peer\<close> is what the other side does: how long a handshake that
  starts at an instant takes, and how it ends.
\<close>

type_synonym peer = "int \<Rightarrow> tls_config \<Rightarrow> nat \<times> goerr option"

definition HandshakeContext :: "peer \<Rightarrow> 'x handshake" where
  "HandshakeContext peer cfg ctx conn w =
     (case peer (now w) cfg of (dur, res) \<Rightarrow>
        (case await ctx dur w of (Some err, w') \<Rightarrow> (Some err, w') | (None, w') \<Rightarrow> (res, w')))"

lemma Handshake_time:
  "now w \<le> now (snd (HandshakeContext peer cfg ctx c w))"
  "done_by ctx D \<Longrightarrow> now (snd (HandshakeContext peer cfg ctx c w)) \<le> max (now w) D"
proof -
  obtain dur res where p: "peer (now w) cfg = (dur, res)" by fastforce
  obtain e w1 where a: "await ctx dur w = (e, w1)" by fastforce
  have "snd (HandshakeContext peer cfg ctx c w) = w1" using p a by (cases e) (simp_all add: HandshakeContext_def)
  then show "now w \<le> now (snd (HandshakeContext peer cfg ctx c w))"
    "done_by ctx D \<Longrightarrow> now (snd (HandshakeContext peer cfg ctx c w)) \<le> max (now w) D"
    using await_time(1) [of w ctx dur] await_time(3) [of ctx D dur w] a by simp_all
qed

definition tls_route :: "string \<Rightarrow> 'x handshake \<Rightarrow> int \<Rightarrow> 'x Backend \<Rightarrow> 'x Route" where
  "tls_route name hs port b = make_route name b (route_config (New_config []) [RouteWithTLSHealth hs port None]) []"

lemma tls_route_simps [simp, go_route]:
  "rt_dial (tls_route name hs port b) = bk_dial b" "rt_backend (tls_route name hs port b) = b"
  "rc_health (rt_cfg (tls_route name hs port b)) = Some (tls_health hs port None)"
  by (simp_all add: tls_route_def buildDial_def route_config_def RouteWithTLSHealth_def RouteWithHealthCheck_def)

lemma tls_health_time:
  assumes "\<And>ctx nw a w. now w \<le> now (snd (dial ctx nw a w))"
    and "\<And>ctx nw a w D. done_by ctx D \<Longrightarrow> now (snd (dial ctx nw a w)) \<le> max (now w) D"
  shows "now w \<le> now (snd (tls_health (HandshakeContext peer) port cfg ctx dial w))"
    and "done_by ctx D \<Longrightarrow> now (snd (tls_health (HandshakeContext peer) port cfg ctx dial w)) \<le> max (now w) D"
proof -
  let ?cfg = "case cfg of None \<Rightarrow> \<lparr>tls_skip_verify = True\<rparr> | Some c \<Rightarrow> c"
  obtain r w1 where d: "dial ctx ''tcp'' (JoinHostPort ''localhost'' (itoa port)) w = (r, w1)" by fastforce
  have w1: "now w \<le> now w1" "done_by ctx D \<Longrightarrow> now w1 \<le> max (now w) D" for D
    using assms(1) [of w ctx] assms(2) [of ctx D] d by (metis snd_conv)+
  have "now w1 \<le> now (snd (HandshakeContext peer ?cfg ctx c w1))"
    "done_by ctx D \<Longrightarrow> now (snd (HandshakeContext peer ?cfg ctx c w1)) \<le> max (now w1) D" for c D
    by (rule Handshake_time)+
  with d w1 show "now w \<le> now (snd (tls_health (HandshakeContext peer) port cfg ctx dial w))"
    by (auto simp: tls_health_def split: sum.split prod.split) (metis order_trans snd_conv)
  assume D: "done_by ctx D"
  show "now (snd (tls_health (HandshakeContext peer) port cfg ctx dial w)) \<le> max (now w) D"
  proof (cases r)
    case (Inl e)
    with d w1(2) [OF D] show ?thesis by (simp add: tls_health_def)
  next
    case (Inr c)
    obtain e w2 where h: "HandshakeContext peer ?cfg ctx c w1 = (e, w2)" by fastforce
    have "now w2 \<le> max (now w1) D" using Handshake_time(2) [OF D, of peer ?cfg c w1] h by simp
    with w1(2) [OF D] have "now w2 \<le> max (now w) D" by linarith
    with d Inr h show ?thesis by (simp add: tls_health_def)
  qed
qed

interpretation tls_tcp: timed_route "New_config []" "tls_route name (HandshakeContext peer) port (TCP net i addr)" 0
  for name peer port net i addr
proof (unfold_locales, goal_cases)
  case (4 h w ctx)
  then show ?case
    by (auto simp: tcp_DialContext_def Dialer_steady Dialer_prompt intro!: tls_health_time(1))
next
  case (5 h ctx D w)
  then show ?case
    by (auto simp: tcp_DialContext_def Dialer_steady Dialer_prompt intro!: tls_health_time(2))
qed (auto simp: tcp_DialContext_def Dialer_steady Dialer_prompt)

lemma dialRoute_at_once:
  fixes rt :: "'x Route" and w :: "'x world"
  assumes "c_handlers cfg = []" and "dial_attempt rt (dial_ctx rt ctx w) nw addr w = (Inr c, w1)"
  shows "dialRoute cfg rt ctx nw addr w = Some (Inr c, w1)"
proof -
  have emit: "emit cfg e v = v" for e and v :: "'x world" using assms(1) by (simp add: emit_def)
  show ?thesis
    by (simp add: dialRoute_def Let_def emit) (subst dial_loop.simps, simp add: dial_round_def assms(2) emit)
qed

section \<open>Properties\<close>

text \<open>C39: A health check gates what a dial hands out: a connection that comes back from a route with an HTTP check
  was followed, in the same attempt, by a GET of the health URL over the backend that answered 2xx, and with
  a TLS check by a completed handshake on a connection of its own, which was closed; a connection whose check
  fails is closed and the attempt counts as not ready.\<close>

theorem health_gates_dials:
  assumes "dialRoute cfg rt ctx nw addr w = Some (Inr c, w')"
  shows "(rc_health (rt_cfg rt) = Some (http_health new_request get port path) \<longrightarrow>
      (\<exists>w1 w2 w3 code status. rt_dial rt (dial_ctx rt ctx w) nw addr w1 = (Inr c, w2) \<and>
         get (bk_dial (rt_backend rt)) (dial_ctx rt ctx w) (health_url port path) w2 = (Inr (code, status), w3) \<and>
         200 \<le> code \<and> code \<le> 299)) \<and>
    (rc_health (rt_cfg rt) = Some (tls_health hs port tls) \<longrightarrow>
      (\<exists>w1 w2 w3 w4 conn. rt_dial rt (dial_ctx rt ctx w) nw addr w1 = (Inr c, w2) \<and>
         bk_dial (rt_backend rt) (dial_ctx rt ctx w) ''tcp'' (JoinHostPort ''localhost'' (itoa port)) w2 = (Inr conn, w3) \<and>
         hs (case tls of None \<Rightarrow> \<lparr>tls_skip_verify = True\<rparr> | Some t \<Rightarrow> t) (dial_ctx rt ctx w) conn w3 = (None, w4) \<and>
         dial_attempt rt (dial_ctx rt ctx w) nw addr w1 = (Inr c, close_conn conn (close_conn conn w4)))) \<and>
    (\<forall>h v v1 v2 c' e ctx' nw' addr'. rc_health (rt_cfg rt) = Some h \<and> rt_dial rt ctx' nw' addr' v = (Inr c', v1) \<and>
       h ctx' (bk_dial (rt_backend rt)) v1 = (Some e, v2) \<longrightarrow>
       (\<exists>err. dial_attempt rt ctx' nw' addr' v = (Inl err, close_conn c' v2) \<and> IsRetryable (Some err)))"
proof -
  obtain w1 w2 where a: "dial_attempt rt (dial_ctx rt ctx w) nw addr w1 = (Inr c, w2)"
    using dialRoute_attempt [OF assms] by blast
  have "\<exists>w1 w2 w3 code status. rt_dial rt (dial_ctx rt ctx w) nw addr w1 = (Inr c, w2) \<and>
         get (bk_dial (rt_backend rt)) (dial_ctx rt ctx w) (health_url port path) w2 = (Inr (code, status), w3) \<and>
         200 \<le> code \<and> code \<le> 299"
    if "rc_health (rt_cfg rt) = Some (http_health new_request get port path)"
    using dial_attempt_healthy [OF a that] unfolding http_health_None by blast
  moreover have "\<exists>w1 w2 w3 w4 conn. rt_dial rt (dial_ctx rt ctx w) nw addr w1 = (Inr c, w2) \<and>
         bk_dial (rt_backend rt) (dial_ctx rt ctx w) ''tcp'' (JoinHostPort ''localhost'' (itoa port)) w2 = (Inr conn, w3) \<and>
         hs (case tls of None \<Rightarrow> \<lparr>tls_skip_verify = True\<rparr> | Some t \<Rightarrow> t) (dial_ctx rt ctx w) conn w3 = (None, w4) \<and>
         dial_attempt rt (dial_ctx rt ctx w) nw addr w1 = (Inr c, close_conn conn (close_conn conn w4))"
    if tls: "rc_health (rt_cfg rt) = Some (tls_health hs port tls)"
  proof -
    obtain v where d: "rt_dial rt (dial_ctx rt ctx w) nw addr w1 = (Inr c, v)"
      and h: "tls_health hs port tls (dial_ctx rt ctx w) (bk_dial (rt_backend rt)) v = (None, w2)"
      using dial_attempt_healthy [OF a tls] by blast
    from tls_health_None [OF h] d a show ?thesis by blast
  qed
  ultimately show ?thesis using unhealthy_closes by blast
qed

definition echo_net :: network where
  "echo_net t nw a = (5, Inr (Conn 1 True None))"

theorem health_gates_dials_witness:
  "\<exists>(v :: unit world) conn w3 w4. bk_dial (TCP echo_net 1 ''h:1'') (dial_ctx (tls_route ''web'' (HandshakeContext (\<lambda>t c. (3, None))) 443 (TCP echo_net 1 ''h:1'')) Background
        \<lparr>now = 0, rnd = [], closed_conns = [], closed_listeners = [], done_at = None, ext = ()\<rparr>)
      ''tcp'' (JoinHostPort ''localhost'' (itoa 443)) v = (Inr conn, w3) \<and>
     HandshakeContext (\<lambda>t c. (3, None)) \<lparr>tls_skip_verify = True\<rparr> (dial_ctx (tls_route ''web'' (HandshakeContext (\<lambda>t c. (3, None))) 443 (TCP echo_net 1 ''h:1'')) Background
        \<lparr>now = 0, rnd = [], closed_conns = [], closed_listeners = [], done_at = None, ext = ()\<rparr>) conn w3 = (None, w4)"
proof -
  let ?w = "\<lparr>now = 0, rnd = [], closed_conns = [], closed_listeners = [], done_at = None, ext = ()\<rparr>"
  let ?hs = "HandshakeContext (\<lambda>t c. (3, None)) :: unit handshake"
  let ?rt = "tls_route ''web'' ?hs 443 (TCP echo_net 1 ''h:1'')"
  have "rc_readyTimeout (rt_cfg ?rt) = defaultReadyTimeout"
    by (simp add: tls_route_def route_config_def RouteWithTLSHealth_def RouteWithHealthCheck_def)
  then have "\<exists>w1. dial_attempt ?rt (dial_ctx ?rt Background ?w) ''tcp'' ''web:443'' ?w = (Inr (Conn 1 True None), w1)"
    by (simp add: dial_attempt_def tcp_DialContext_def Dialer_DialContext_def echo_net_def tls_health_def
        HandshakeContext_def await_def Let_def dial_ctx_def Background_def WithTimeoutCause_def ctx_done_def defaultReadyTimeout_def)
  then obtain w1 where "dialRoute (New_config []) ?rt Background ''tcp'' ''web:443'' ?w = Some (Inr (Conn 1 True None), w1)"
    using dialRoute_at_once [of "New_config []"] by fastforce
  from health_gates_dials [OF this, THEN conjunct2, THEN conjunct1, of ?hs 443 None]
  show ?thesis unfolding tls_route_simps by auto
qed

end
