(* ===== verification/Health_Live.thy ===== *)
theory Health_Live
  imports Health
begin

text \<open>
  Liveness of health-checked routes: a dial waits until the check passes, and then it succeeds. The HTTP client of the
  check works on a server that is a parameter; whatever check it is, what the readiness loop needs of it is
  \<open>healthy_from\<close>.
\<close>

section \<open>A check that passes from some instant on\<close>

text \<open>A call of the check takes at most \<open>H\<close> and respects its context; it passes from \<open>R\<close> on and never before.\<close>

definition healthy_from :: "int \<Rightarrow> nat \<Rightarrow> 'x healthcheck \<Rightarrow> 'x dialfn \<Rightarrow> bool" where
  "healthy_from R H h dial \<longleftrightarrow> (\<forall>ctx w. now w \<le> now (snd (h ctx dial w)) \<and> now (snd (h ctx dial w)) \<le> now w + int H \<and>
     (\<forall>D. done_by ctx D \<longrightarrow> now (snd (h ctx dial w)) \<le> max (now w) D) \<and>
     done_at (snd (h ctx dial w)) = done_at w \<and>
     (R \<le> now w \<and> alive ctx (now w + int H) \<longrightarrow> fst (h ctx dial w) = None) \<and>
     (fst (h ctx dial w) = None \<longrightarrow> R \<le> now (snd (h ctx dial w))))"

text \<open>A route in a default registry with the given route options.\<close>

definition option_route :: "string \<Rightarrow> ('x routeConfig \<Rightarrow> 'x routeConfig) list \<Rightarrow> 'x Backend \<Rightarrow> 'x Route" where
  "option_route name opts b = make_route name b (route_config (New_config []) opts) []"

abbreviation checked_route :: "string \<Rightarrow> int \<Rightarrow> 'x healthcheck \<Rightarrow> 'x Backend \<Rightarrow> 'x Route" where
  "checked_route name timeout h \<equiv> option_route name [RouteWithReadyTimeout timeout, RouteWithHealthCheck h]"

lemma checked_route_simps [simp]:
  "rt_dial (checked_route name timeout h b) = bk_dial b" "rt_backend (checked_route name timeout h b) = b"
  "rc_health (rt_cfg (checked_route name timeout h b)) = Some h" "rt_name (checked_route name timeout h b) = name"
  "rc_readyTimeout (rt_cfg (checked_route name timeout h b)) = timeout"
  by (simp_all add: option_route_def buildDial_def route_config_def RouteWithHealthCheck_def RouteWithReadyTimeout_def)

text \<open>A server that accepts from \<open>R0\<close> on, with such a check.\<close>

abbreviation booting :: "int \<Rightarrow> nat \<Rightarrow> string \<Rightarrow> conn \<Rightarrow> nat \<Rightarrow> 'x Backend" where
  "booting R0 dur addr c i \<equiv> TCP (booting_net R0 dur addr c) i addr"

lemma booting_time:
  "now w \<le> now (snd (bk_dial (booting R0 dur addr c i) ctx nw a w))"
  "now (snd (bk_dial (booting R0 dur addr c i) ctx nw a w)) \<le> now w + int dur"
  "done_by ctx D \<Longrightarrow> now (snd (bk_dial (booting R0 dur addr c i) ctx nw a w)) \<le> max (now w) D"
  "done_at (snd (bk_dial (booting R0 dur addr c i) ctx nw a w)) = done_at w"
  by (simp_all add: tcp_DialContext_def Dialer_steady Dialer_quick Dialer_prompt Dialer_frame)

lemma booting_alive:
  "alive ctx (now w + int dur) \<Longrightarrow> bk_dial (booting R0 dur addr c i) ctx nw a w =
     (if R0 \<le> now w then Inr c else Inl (NetErr False [] [Sentinel ECONNREFUSED]), w\<lparr>now := now w + int dur\<rparr>)"
  by (simp add: tcp_DialContext_def booting_dial)

lemma checked_timed:
  assumes "healthy_from R H h (bk_dial (booting R0 dur addr c i))"
  shows "timed_route (New_config []) (checked_route name timeout h (booting R0 dur addr c i)) 0"
  by unfold_locales (use assms booting_time in \<open>auto simp: healthy_from_def simp del: backend_dials\<close>)

text \<open>One attempt on it.\<close>

lemma checked_attempt:
  assumes "healthy_from R H h (bk_dial (booting R0 dur addr c i))" "R0 \<le> R"
    and at: "dial_attempt (checked_route name timeout h (booting R0 dur addr c i)) ctx nw a w = (r, w')"
  shows "now w' \<le> now w + int (dur + H)" "done_at w' = done_at w"
    and "alive ctx (now w + int (dur + H)) \<Longrightarrow> r = Inl e \<Longrightarrow> IsRetryable (Some e)"
    and "R \<le> now w \<Longrightarrow> alive ctx (now w + int (dur + H)) \<Longrightarrow> is_ok r"
proof -
  let ?d = "bk_dial (booting R0 dur addr c i)"
  obtain r1 w1 where d: "?d ctx nw a w = (r1, w1)" by fastforce
  obtain r2 w2 where h: "h ctx ?d w1 = (r2, w2)" by fastforce
  have w1: "now w \<le> now w1" "now w1 \<le> now w + int dur" "done_at w1 = done_at w"
    using booting_time(1) [of w R0 dur addr c i ctx nw a] booting_time(2,4) [of R0 dur addr c i ctx nw a w] d by simp_all
  have w2: "now w2 \<le> now w1 + int H" "done_at w2 = done_at w1"
    "R \<le> now w1 \<Longrightarrow> alive ctx (now w1 + int H) \<Longrightarrow> r2 = None"
    using assms(1) h unfolding healthy_from_def by (metis fst_conv snd_conv)+
  have at': "(r, w') = (case r1 of Inl e \<Rightarrow> (Inl e, w1) | Inr c \<Rightarrow> (case r2 of None \<Rightarrow> (Inr c, w2)
      | Some e \<Rightarrow> (Inl (RetryableError (Errorf ''health check: %w'' [] [e])), close_conn c w2)))"
    using at d h by (auto simp: dial_attempt_def simp del: backend_dials split: sum.splits option.splits)
  then show "now w' \<le> now w + int (dur + H)" "done_at w' = done_at w"
    using w1 w2 by (auto simp: close_conn_def split: sum.splits option.splits)
  assume al: "alive ctx (now w + int (dur + H))"
  then have "alive ctx (now w + int dur)" by (rule alive_mono) simp
  note d' = booting_alive [OF this, of R0 addr c i nw a]
  show "IsRetryable (Some e)" if "r = Inl e"
    using at' that d d' by (auto split: sum.splits option.splits if_splits)
  show "is_ok r" if "R \<le> now w"
  proof -
    have "r1 = Inr c" using d d' that assms(2) by simp
    moreover have "alive ctx (now w1 + int H)" by (rule alive_mono [OF al]) (use w1 in simp)
    then have "r2 = None" using w2(3) that w1(1) by simp
    ultimately show ?thesis using at' by simp
  qed
qed

lemma checked_ready_route:
  assumes "healthy_from R H h (bk_dial (booting R0 dur addr c i))" "R0 \<le> R"
  shows "ready_route (New_config []) (checked_route name timeout h (booting R0 dur addr c i)) 0 R (int (dur + H)) (\<lambda>_. True)"
proof -

  from checked_timed [OF assms(1)] show ?thesis by (intro ready_route.intro ready_route_axioms.intro) (use checked_attempt [OF assms surjective_pairing] in auto)
qed

section \<open>The checks of options.go\<close>

text \<open>
  The TLS check against a peer whose handshakes take at most \<open>dh\<close> and succeed exactly from \<open>R\<close> on. The HTTP check with
  any client whose GET of the URL over the backend's dial function respects the context, takes at most \<open>H\<close>, redirects
  included, and ends with a 2xx answer exactly from \<open>R\<close> on. Before \<open>R\<close> both may fail in any way.
\<close>

definition serves_tls :: "int \<Rightarrow> nat \<Rightarrow> peer \<Rightarrow> bool" where
  "serves_tls R dh peer \<longleftrightarrow> (\<forall>t cfg. fst (peer t cfg) \<le> dh \<and> (snd (peer t cfg) = None \<longleftrightarrow> R \<le> t))"

type_synonym http_server = "int \<Rightarrow> nat \<times> (goerr + int \<times> string)"

fun reply_2xx :: "goerr + int \<times> string \<Rightarrow> bool" where
  "reply_2xx (Inl e) = False"
| "reply_2xx (Inr (code, status)) \<longleftrightarrow> 200 \<le> code \<and> code \<le> 299"

definition answers_from :: "int \<Rightarrow> nat \<Rightarrow> 'x http_get \<Rightarrow> string \<Rightarrow> 'x dialfn \<Rightarrow> bool" where
  "answers_from R H get url dial \<longleftrightarrow> (\<forall>ctx w. now w \<le> now (snd (get dial ctx url w)) \<and>
     now (snd (get dial ctx url w)) \<le> now w + int H \<and>
     (\<forall>D. done_by ctx D \<longrightarrow> now (snd (get dial ctx url w)) \<le> max (now w) D) \<and>
     done_at (snd (get dial ctx url w)) = done_at w \<and>
     (R \<le> now w \<and> alive ctx (now w + int H) \<longrightarrow> reply_2xx (fst (get dial ctx url w))) \<and>
     (reply_2xx (fst (get dial ctx url w)) \<longrightarrow> R \<le> now (snd (get dial ctx url w))))"

definition serves_http :: "int \<Rightarrow> nat \<Rightarrow> http_server \<Rightarrow> bool" where
  "serves_http R dh server \<longleftrightarrow> (\<forall>t. fst (server t) \<le> dh \<and> (reply_2xx (snd (server t)) \<longleftrightarrow> R \<le> t))"

text \<open>Such a client, for a server that does not redirect: it dials the URL's host through the dial function that it is given,
  and, keep-alives being off, closes the connection when it has the answer.\<close>

definition client_over :: "http_server \<Rightarrow> 'x http_get" where
  "client_over server dial ctx url w =
     (case dial ctx ''tcp'' (takeWhile (\<lambda>x. x \<noteq> CHR ''/'') (drop 7 url)) w of
        (Inl err, w1) \<Rightarrow> (Inl err, w1)
      | (Inr c, w1) \<Rightarrow>
          (case server (now w1) of (dur, reply) \<Rightarrow>
             (case await ctx dur w1 of
                (Some err, w2) \<Rightarrow> (Inl err, close_conn c w2)
              | (None, w2) \<Rightarrow> (reply, close_conn c w2))))"

text \<open>Both checks dial and then wait for the other side.\<close>

lemma dial_then_await:
  assumes d: "bk_dial (booting R0 dur addr c i) ctx nw a w = (r, w1)" and a: "await ctx n w1 = (e, w2)" and n: "n \<le> dh"
  shows "now w \<le> now w1" "now w1 \<le> now w + int (dur + dh)" "now w1 \<le> now w2" "now w2 \<le> now w + int (dur + dh)"
    "done_at w1 = done_at w" "done_at w2 = done_at w"
    "done_by ctx D \<Longrightarrow> now w1 \<le> max (now w) D" "done_by ctx D \<Longrightarrow> now w2 \<le> max (now w) D"
    "R0 \<le> now w \<Longrightarrow> alive ctx (now w + int (dur + dh)) \<Longrightarrow> r = Inr c \<and> e = None"
proof -
  show t: "now w \<le> now w1" "done_at w1 = done_at w"
    using booting_time(1) [of w R0 dur addr c i ctx nw a] booting_time(4) [of R0 dur addr c i ctx nw a w] d by simp_all
  have q: "now w1 \<le> now w + int dur" using booting_time(2) [of R0 dur addr c i ctx nw a w] d by simp
  have t2: "now w1 \<le> now w2" "now w2 \<le> now w1 + int n" "done_at w2 = done_at w1"
    using await_time(1) [of w1 ctx n] await_time(2,4) [of ctx n w1] a by simp_all
  show "now w1 \<le> now w + int (dur + dh)" "now w1 \<le> now w2" "now w2 \<le> now w + int (dur + dh)" "done_at w2 = done_at w"
    using t q t2 n by simp_all
  show d1: "now w1 \<le> max (now w) D" if "done_by ctx D"
    using booting_time(3) [OF that, of R0 dur addr c i nw a w] d by simp
  show "now w2 \<le> max (now w) D" if "done_by ctx D"
    using await_time(3) [OF that, of n w1] a d1 [OF that] by simp
  assume R: "R0 \<le> now w" and al: "alive ctx (now w + int (dur + dh))"
  have "alive ctx (now w + int dur)" by (rule alive_mono [OF al]) simp
  from booting_alive [OF this, of R0 addr c i nw a] R d have "r = Inr c" by simp
  moreover have "alive ctx (now w1 + int n)" by (rule alive_mono [OF al]) (use q n in simp)
  from await_alive [OF this] a have "e = None" by simp
  ultimately show "r = Inr c \<and> e = None" ..
qed

lemma tls_healthy:
  assumes "serves_tls R dh peer" "R0 \<le> R"
  shows "healthy_from R (dur + dh) (tls_health (HandshakeContext peer) port None) (bk_dial (booting R0 dur addr c i))"
  unfolding healthy_from_def
proof (intro allI conjI impI)
  fix ctx and w :: "'a world"
  let ?d = "bk_dial (booting R0 dur addr c i)" and ?cfg = "\<lparr>tls_skip_verify = True\<rparr>" and ?a = "JoinHostPort ''localhost'' (itoa port)"
  obtain r w1 where d: "?d ctx ''tcp'' ?a w = (r, w1)" by fastforce
  obtain n res where p: "peer (now w1) ?cfg = (n, res)" by fastforce
  obtain e w2 where aw: "await ctx n w1 = (e, w2)" by fastforce
  have n: "n \<le> dh" and res: "res = None \<longleftrightarrow> R \<le> now w1" using assms(1) p unfolding serves_tls_def by (metis fst_conv snd_conv)+
  note t = dial_then_await [OF d aw n]
  have v: "tls_health (HandshakeContext peer) port None ctx ?d w = (case r of Inl err \<Rightarrow> (Some err, w1)
      | Inr k \<Rightarrow> (if e = None then res else e, close_conn k (close_conn k w2)))"
    using d p aw by (auto simp: tls_health_def HandshakeContext_def simp del: backend_dials split: sum.split option.split)
  let ?x = "tls_health (HandshakeContext peer) port None ctx ?d w"
  show "now w \<le> now (snd ?x)" "now (snd ?x) \<le> now w + int (dur + dh)" "done_at (snd ?x) = done_at w"
    unfolding v using t(1-6) by (auto simp: close_conn_def split: sum.split)
  show "now (snd ?x) \<le> max (now w) D" if "done_by ctx D" for D
    unfolding v using t(7,8) [OF that] by (auto simp: close_conn_def split: sum.split)
  show "fst ?x = None" if "R \<le> now w \<and> alive ctx (now w + int (dur + dh))"
    unfolding v using t(9) that assms(2) res t(1) by auto
  show "R \<le> now (snd ?x)" if "fst ?x = None"
    using that t(3) res unfolding v by (auto simp: close_conn_def split: sum.splits if_splits)
qed

lemma client_answers:
  assumes "serves_http R dh server" "R0 \<le> R"
  shows "answers_from R (dur + dh) (client_over server) url (bk_dial (booting R0 dur addr c i))"
  unfolding answers_from_def
proof (intro allI conjI impI)
  fix ctx and w :: "'a world"
  let ?d = "bk_dial (booting R0 dur addr c i)" and ?a = "takeWhile (\<lambda>x. x \<noteq> CHR ''/'') (drop 7 url)"
  obtain r w1 where d: "?d ctx ''tcp'' ?a w = (r, w1)" by fastforce
  obtain n reply where p: "server (now w1) = (n, reply)" by fastforce
  obtain e w2 where aw: "await ctx n w1 = (e, w2)" by fastforce
  have n: "n \<le> dh" and res: "reply_2xx reply \<longleftrightarrow> R \<le> now w1" using assms(1) p unfolding serves_http_def by (metis fst_conv snd_conv)+
  note t = dial_then_await [OF d aw n]
  have g: "client_over server ?d ctx url w = (case r of Inl err \<Rightarrow> (Inl err, w1)
      | Inr k \<Rightarrow> (case e of Some err \<Rightarrow> Inl err | None \<Rightarrow> reply, close_conn k w2))"
    using d p aw by (auto simp: client_over_def simp del: backend_dials split: sum.split option.split)
  let ?x = "client_over server ?d ctx url w"
  show "now w \<le> now (snd ?x)" "now (snd ?x) \<le> now w + int (dur + dh)" "done_at (snd ?x) = done_at w"
    unfolding g using t(1-6) by (auto simp: close_conn_def split: sum.split)
  show "now (snd ?x) \<le> max (now w) D" if "done_by ctx D" for D
    unfolding g using t(7,8) [OF that] by (auto simp: close_conn_def split: sum.split)
  show "reply_2xx (fst ?x)" if "R \<le> now w \<and> alive ctx (now w + int (dur + dh))"
    unfolding g using t(9) that assms(2) res t(1) by auto
  show "R \<le> now (snd ?x)" if "reply_2xx (fst ?x)"
    using that t(3) res unfolding g by (auto simp: close_conn_def split: sum.splits option.splits)
qed

lemma http_healthy:
  assumes "answers_from R H get (health_url port path) dial" "new_request (health_url port path) = None"
  shows "healthy_from R H (http_health new_request get port path) dial"
proof -
  have "snd (http_health new_request get port path ctx dial w) = snd (get dial ctx (health_url port path) w)"
    "fst (http_health new_request get port path ctx dial w) = None \<longleftrightarrow> reply_2xx (fst (get dial ctx (health_url port path) w))" for ctx w
    using assms(2) by (auto simp: http_health_def split: prod.split sum.split)
  with assms(1) show ?thesis unfolding healthy_from_def answers_from_def by simp
qed

section \<open>Properties\<close>

lemma checked_dialed:
  assumes h: "healthy_from R H h (bk_dial (booting R0 dur addr c i))" "R0 \<le> R"
    and t: "L = max (now w) (R + int (dur + H) + 625 * nano_ms)" "patient timeout ctx w (L + int (dur + H))" "open_until L w"
  shows "\<exists>w'. dialRoute (New_config []) (checked_route name timeout h (booting R0 dur addr c i)) ctx nw a w = Some (Inr c, w') \<and> R \<le> now w'"
proof -
  let ?rt = "checked_route name timeout h (booting R0 dur addr c i)"
  have "alive (dial_ctx ?rt ctx w) (L + int (dur + H))" by (rule patient_dial) (use t(2) in simp)
  from ready_route.dialRoute_ready [OF checked_ready_route [OF h] TrueI _ this t(3)] t(1)
  obtain c' w' where d: "dialRoute (New_config []) ?rt ctx nw a w = Some (Inr c', w')" by fastforce
  from dialRoute_attempt_last [OF _ this] obtain w1 where at: "dial_attempt ?rt (dial_ctx ?rt ctx w) nw a w1 = (Inr c', w')" by auto
  from dial_attempt_healthy [OF this] obtain w2 where w2: "rt_dial ?rt (dial_ctx ?rt ctx w) nw a w1 = (Inr c', w2)"
    "h (dial_ctx ?rt ctx w) (bk_dial (booting R0 dur addr c i)) w2 = (None, w')" by auto
  have "c' = c"
    using w2(1) by (auto simp: tcp_DialContext_def Dialer_DialContext_def booting_net_def Let_def split: option.splits if_splits)
  moreover have "R \<le> now w'" using h(1) w2(2) unfolding healthy_from_def by (metis fst_conv snd_conv)
  ultimately show ?thesis using d by blast
qed


text \<open>A server that accepts at once and whose pages come after two seconds; before that it answers 503. The route waits for
  at most four.\<close>

definition slow_server :: http_server where
  "slow_server t = (1000, if 2 * nano_s \<le> t then Inr (200, ''OK'') else Inr (503, ''Service Unavailable''))"


end
