(* ===== verification/Mem.thy ===== *)
theory Mem
  imports Backends "HOL-Library.Multiset"
begin

text \<open>
  \<open>backend/mem.go\<close>: the in-memory backend, a listener whose \<open>Accept\<close> meets a dial on an unbuffered
  channel. First one dial as a function of time, for the readiness loop; then the rendezvous of any number
  of dials, accepts and a close as a step relation.
\<close>

section \<open>One dial\<close>

text \<open>
  The three cases of the \<open>select\<close>. \<open>accept_at t\<close> is when the server next accepts, seen from \<open>t\<close>;
  \<open>closed_at\<close> when the listener is closed. \<open>None\<close> is a dial that blocks forever.
\<close>

datatype mem_case = MemTaken | MemDone | MemCtx

definition errMemClosed :: goerr where
  "errMemClosed = ErrNew ''portless: mem listener closed''"

definition mem_cases :: "(int \<Rightarrow> int option) \<Rightarrow> int option \<Rightarrow> ctx \<Rightarrow> int \<Rightarrow> (int \<times> mem_case) list" where
  "mem_cases accept_at closed_at ctx t =
     (case accept_at t of None \<Rightarrow> [] | Some a \<Rightarrow> [(max t a, MemTaken)]) @
     (case closed_at of None \<Rightarrow> [] | Some d \<Rightarrow> [(max t d, MemDone)]) @
     (case ctx_done ctx of None \<Rightarrow> [] | Some (d, _) \<Rightarrow> [(max t d, MemCtx)])"

definition ctx_Err_now :: "ctx \<Rightarrow> 'x world \<Rightarrow> goerr" where
  "ctx_Err_now ctx w = (case ctx_Err ctx (now w) of Some e \<Rightarrow> e | None \<Rightarrow> ErrNew ''<nil>'')"

text \<open>\<open>pipe\<close> is \<open>net.Pipe\<close>: the client's and the server's half.\<close>

definition mem_DialContext :: "('x world \<Rightarrow> conn \<times> conn) \<Rightarrow> (int \<Rightarrow> int option) \<Rightarrow> int option
    \<Rightarrow> ctx \<Rightarrow> string \<Rightarrow> string \<Rightarrow> 'x world \<Rightarrow> ((goerr + conn) \<times> 'x world) option" where
  "mem_DialContext pipe accept_at closed_at ctx network address w =
     (case pipe w of (client, server) \<Rightarrow>
      let cs = mem_cases accept_at closed_at ctx (now w) in
      if cs = [] then None
      else Some (case select_first cs w of
          (MemTaken, w') \<Rightarrow> (Inr client, w')
        | (MemDone, w') \<Rightarrow> (Inl errMemClosed, close_conn server (close_conn client w'))
        | (MemCtx, w') \<Rightarrow> (Inl (ctx_Err_now ctx w'), close_conn server (close_conn client w'))))"

definition memAddr :: goaddr where
  "memAddr = NetAddr ''mem'' ''mem''"

text \<open>
  The backend. The registry gives every dial a deadline, so the dial that blocks forever does not occur
  there (\<open>mem_dial_returns\<close>); its value below is never used.
\<close>

definition Mem :: "nat \<Rightarrow> ('x world \<Rightarrow> conn \<times> conn) \<Rightarrow> (int \<Rightarrow> int option) \<Rightarrow> int option \<Rightarrow> 'x Backend" where
  "Mem i pipe accept_at closed_at =
     (simple_backend i (\<lambda>ctx nw a w. case mem_DialContext pipe accept_at closed_at ctx nw a w of
        Some r \<Rightarrow> r | None \<Rightarrow> (Inl (ErrNew ''blocked''), w)))
     \<lparr>bk_addr := Some (\<lambda>w. Some memAddr)\<rparr>"

lemma mem_dial_returns: "done_by ctx D \<Longrightarrow> mem_DialContext pipe acc cl ctx nw a w \<noteq> None"
  by (auto simp: mem_DialContext_def mem_cases_def done_by_def Let_def split: prod.splits)

lemma mem_cases_later: "c \<in> set (mem_cases acc cl ctx t) \<Longrightarrow> t \<le> fst c"
  by (auto simp: mem_cases_def split: option.splits prod.splits)

lemma mem_dial_time:
  assumes "mem_DialContext pipe acc cl ctx nw a w = Some (r, w')"
  shows "now w \<le> now w'" and "done_by ctx D \<Longrightarrow> now w' \<le> max (now w) D"
proof -
  let ?cs = "mem_cases acc cl ctx (now w)"
  obtain k w1 where s: "select_first ?cs w = (k, w1)" by fastforce
  have ne: "?cs \<noteq> []" and w': "now w' = now w1"
    using assms s by (auto simp: mem_DialContext_def Let_def split: prod.splits if_splits mem_case.splits)
  note sel = select_first_mem [OF ne s]
  show "now w \<le> now w'" using mem_cases_later [OF sel(1)] w' by simp
  show "now w' \<le> max (now w) D" if "done_by ctx D"
    using that sel(2) w' by (auto simp: mem_cases_def done_by_def)
qed

interpretation mem_route: timed_route "New_config []" "plain_route name (Mem i pipe acc cl)" 0
  for name i pipe acc cl
  by unfold_locales
     (auto simp: Mem_def simple_backend_def split: option.split intro: mem_dial_time
        dest: mem_dial_returns [of _ _ pipe acc cl])

text \<open>
  A dial ends at the first of three instants: when the server accepts, when the listener is closed and when the context is
  over; which of them it was decides the result, and whether the two halves of the pipe are closed.
\<close>

inductive mem_outcome :: "conn \<Rightarrow> conn \<Rightarrow> (int \<Rightarrow> int option) \<Rightarrow> int option \<Rightarrow> ctx \<Rightarrow> int \<Rightarrow> goerr + conn \<Rightarrow> int \<Rightarrow> nat list \<Rightarrow> bool"
  for client server accept_at closed_at ctx t where
  taken: "accept_at t = Some a \<Longrightarrow> mem_outcome client server accept_at closed_at ctx t (Inr client) (max t a) []"
| shut: "closed_at = Some d \<Longrightarrow>
    mem_outcome client server accept_at closed_at ctx t (Inl errMemClosed) (max t d) [conn_id server, conn_id client]"
| cancelled: "ctx_done ctx = Some (d, err, cause) \<Longrightarrow>
    mem_outcome client server accept_at closed_at ctx t (Inl err) (max t d) [conn_id server, conn_id client]"

lemma mem_dial_outcome:
  assumes "mem_DialContext pipe acc cl ctx nw a w = Some (r, w')" and "pipe w = (client, server)"
  shows "\<exists>closed. mem_outcome client server acc cl ctx (now w) r (now w') closed \<and> closed_conns w' = closed @ closed_conns w"
    and "\<And>r' t' closed'. mem_outcome client server acc cl ctx (now w) r' t' closed' \<Longrightarrow> now w' \<le> t'"
proof -
  let ?cs = "mem_cases acc cl ctx (now w)"
  obtain k w1 where s: "select_first ?cs w = (k, w1)" by fastforce
  have ne: "?cs \<noteq> []" and r: "(r, w') = (case k of MemTaken \<Rightarrow> (Inr client, w1)
      | MemDone \<Rightarrow> (Inl errMemClosed, close_conn server (close_conn client w1))
      | MemCtx \<Rightarrow> (Inl (ctx_Err_now ctx w1), close_conn server (close_conn client w1)))"
    using assms s by (auto simp: mem_DialContext_def Let_def split: if_splits mem_case.splits)
  have cc: "closed_conns w1 = closed_conns w"
    using s by (auto simp: select_first_def Let_def take_draw_def split: list.splits)
  note sel = select_first_mem [OF ne s]
  have w': "now w' = now w1" using r by (auto split: mem_case.splits)
  show "\<exists>closed. mem_outcome client server acc cl ctx (now w) r (now w') closed \<and> closed_conns w' = closed @ closed_conns w"
  proof (cases k)
    case MemTaken
    with sel(1) obtain x where "acc (now w) = Some x" "now w1 = max (now w) x"
      by (cases "acc (now w)"; cases cl; cases "ctx_done ctx") (auto simp: mem_cases_def)
    with mem_outcome.taken [of acc "now w" x] r MemTaken cc show ?thesis by (auto intro!: exI [of _ "[]"])
  next
    case MemDone
    with sel(1) obtain d where "cl = Some d" "now w1 = max (now w) d"
      by (cases "acc (now w)"; cases cl; cases "ctx_done ctx") (auto simp: mem_cases_def)
    with mem_outcome.shut [of cl d] r MemDone cc show ?thesis by (auto simp: close_conn_def)
  next
    case MemCtx
    with sel(1) obtain d err cause where d: "ctx_done ctx = Some (d, err, cause)" "now w1 = max (now w) d"
      by (cases "acc (now w)"; cases cl; cases "ctx_done ctx") (auto simp: mem_cases_def)
    then have "ctx_Err_now ctx w1 = err" by (simp add: ctx_Err_now_def ctx_Err_def)
    with mem_outcome.cancelled [OF d(1), of client server acc cl "now w"] r MemCtx cc d(2) show ?thesis
      by (auto simp: close_conn_def)
  qed
  show "now w' \<le> t'" if "mem_outcome client server acc cl ctx (now w) r' t' closed'" for r' t' closed'
    using that sel(2) by cases (auto simp: w' mem_cases_def)
qed

lemma mem_dial_blocks:
  "mem_DialContext pipe acc cl ctx nw a w = None \<longleftrightarrow> acc (now w) = None \<and> cl = None \<and> ctx_done ctx = None"
  by (auto simp: mem_DialContext_def mem_cases_def Let_def split: option.splits prod.splits)

section \<open>The rendezvous\<close>

text \<open>
  Pipes are numbered. A blocked dial offers its pipe; \<open>mm_clients\<close> and \<open>mm_servers\<close> are the halves handed out,
  \<open>mm_refused\<close> the pipes whose dial returned \<open>errMemClosed\<close> and \<open>mm_cancelled\<close> those whose dial returned its context's
  error, after closing both halves; \<open>mm_over\<close> are the dials whose context is over, and \<open>mm_opened\<close> is every pipe made.
\<close>

record mem_sys =
  mm_done :: bool
  mm_dials :: "nat multiset"
  mm_over :: "nat set"
  mm_accepts :: nat
  mm_clients :: "nat multiset"
  mm_servers :: "nat multiset"
  mm_refused :: "nat multiset"
  mm_cancelled :: "nat multiset"
  mm_opened :: "nat multiset"

definition mem_offer :: "nat \<Rightarrow> mem_sys \<Rightarrow> mem_sys" where
  "mem_offer p s = s\<lparr>mm_dials := add_mset p (mm_dials s), mm_opened := add_mset p (mm_opened s)\<rparr>"

definition mem_refuse :: "nat \<Rightarrow> mem_sys \<Rightarrow> mem_sys" where
  "mem_refuse p s = s\<lparr>mm_dials := mm_dials s - {#p#}, mm_refused := add_mset p (mm_refused s)\<rparr>"

definition mem_cancel :: "nat \<Rightarrow> mem_sys \<Rightarrow> mem_sys" where
  "mem_cancel p s = s\<lparr>mm_dials := mm_dials s - {#p#}, mm_cancelled := add_mset p (mm_cancelled s)\<rparr>"

definition mem_meet :: "nat \<Rightarrow> mem_sys \<Rightarrow> mem_sys" where
  "mem_meet p s = s\<lparr>mm_dials := mm_dials s - {#p#}, mm_accepts := mm_accepts s - 1,
     mm_clients := add_mset p (mm_clients s), mm_servers := add_mset p (mm_servers s)\<rparr>"

definition mem_Close :: "mem_sys \<Rightarrow> mem_sys" where
  "mem_Close s = s\<lparr>mm_done := True\<rparr>"

inductive mem_step :: "mem_sys \<Rightarrow> mem_sys \<Rightarrow> bool" where
  dials: "p \<notin># mm_opened s \<Longrightarrow> mem_step s (mem_offer p s)"
| accepts: "mem_step s (s\<lparr>mm_accepts := Suc (mm_accepts s)\<rparr>)"
| meets: "p \<in># mm_dials s \<Longrightarrow> 0 < mm_accepts s \<Longrightarrow> mem_step s (mem_meet p s)"
| dial_closed: "mm_done s \<Longrightarrow> p \<in># mm_dials s \<Longrightarrow> mem_step s (mem_refuse p s)"
| dial_cancelled: "p \<in> mm_over s \<Longrightarrow> p \<in># mm_dials s \<Longrightarrow> mem_step s (mem_cancel p s)"
| accept_closed: "mm_done s \<Longrightarrow> 0 < mm_accepts s \<Longrightarrow> mem_step s (s\<lparr>mm_accepts := mm_accepts s - 1\<rparr>)"
| context_ends: "mem_step s (s\<lparr>mm_over := insert p (mm_over s)\<rparr>)"
| closes: "mem_step s (mem_Close s)"

inductive_simps mem_step_iff: "mem_step s s'"

definition mem_init :: "mem_sys \<Rightarrow> bool" where
  "mem_init s \<longleftrightarrow> s = \<lparr>mm_done = False, mm_dials = {#}, mm_over = {}, mm_accepts = 0, mm_clients = {#}, mm_servers = {#},
     mm_refused = {#}, mm_cancelled = {#}, mm_opened = {#}\<rparr>"

definition once :: "nat multiset \<Rightarrow> bool" where
  "once M \<longleftrightarrow> (\<forall>p. count M p \<le> 1)"

definition mem_inv :: "mem_sys \<Rightarrow> bool" where
  "mem_inv s \<longleftrightarrow> mm_clients s = mm_servers s \<and> once (mm_opened s) \<and>
     mm_opened s = mm_dials s + mm_clients s + mm_refused s + mm_cancelled s \<and>
     (mm_refused s \<noteq> {#} \<longrightarrow> mm_done s) \<and> set_mset (mm_cancelled s) \<subseteq> mm_over s"

lemma mem_inv_step: "mem_step s s' \<Longrightarrow> mem_inv s \<Longrightarrow> mem_inv s'"
proof (induction rule: mem_step.induct)
  case (dials p s)
  then show ?case by (auto simp: mem_inv_def mem_offer_def once_def not_in_iff)
next
  case (meets p s)
  then show ?case by (auto simp: mem_inv_def mem_meet_def dest!: multi_member_split)
next
  case (dial_closed s p)
  then show ?case by (auto simp: mem_inv_def mem_refuse_def dest!: multi_member_split)
next
  case (dial_cancelled p s)
  then show ?case by (auto simp: mem_inv_def mem_cancel_def dest!: multi_member_split)
qed (auto simp: mem_inv_def mem_Close_def)

interpretation mem_conc: step_system mem_init mem_step mem_inv
proof unfold_locales
  show "mem_init s \<Longrightarrow> mem_inv s" for s by (simp add: mem_init_def mem_inv_def once_def)
qed (rule mem_inv_step)

text \<open>The one way out of \<open>mm_dials\<close> is a return.\<close>

lemma in_diff_other: "p \<in># M \<Longrightarrow> p \<noteq> q \<Longrightarrow> p \<in># M - {#q#}"
  by (auto dest!: multi_member_split)

lemma mem_dial_ends:
  assumes "mem_step s s'" "p \<in># mm_dials s" "p \<notin># mm_dials s'"
  shows "s' = mem_meet p s \<and> 0 < mm_accepts s \<or> s' = mem_refuse p s \<and> mm_done s \<or> s' = mem_cancel p s \<and> p \<in> mm_over s"
  using assms
proof (cases rule: mem_step.cases)
  case (meets q)
  with assms(2,3) show ?thesis by (cases "p = q") (auto simp: mem_meet_def dest: in_diff_other)
next
  case (dial_closed q)
  with assms(2,3) show ?thesis by (cases "p = q") (auto simp: mem_refuse_def dest: in_diff_other)
next
  case (dial_cancelled q)
  with assms(2,3) show ?thesis by (cases "p = q") (auto simp: mem_cancel_def dest: in_diff_other)
qed (simp_all add: mem_offer_def mem_Close_def)

section \<open>Properties\<close>

text \<open>C38: A dial of the in-memory backend ends at the first of three instants, when the server accepts, when the listener
  is closed or when its context is over, and blocks for ever only if none of them comes; it returns the client's half in
  the first case, leaving both halves open, and otherwise \<open>errMemClosed\<close> or the context's error, with both halves closed.
  Under every interleaving of dials, accepts, cancellations and \<open>Close\<close>, a dial returns a connection only together with
  an \<open>Accept\<close> that returns the other half of the same pipe, \<open>errMemClosed\<close> only after \<open>Close\<close> and a context's error only
  after the end of its context; every pipe has one fate; and once the listener is closed each blocked dial and each
  blocked \<open>Accept\<close> can return.\<close>

theorem mem_pairs_connections:
  assumes "reachable mem_init mem_step s" and "pipe w = (client, server)"
  shows "(case mem_DialContext pipe acc cl ctx nw a w of
       None \<Rightarrow> acc (now w) = None \<and> cl = None \<and> ctx_done ctx = None
     | Some (r, w') \<Rightarrow>
         (\<exists>closed. mem_outcome client server acc cl ctx (now w) r (now w') closed \<and> closed_conns w' = closed @ closed_conns w) \<and>
         (\<forall>r' t' closed'. mem_outcome client server acc cl ctx (now w) r' t' closed' \<longrightarrow> now w' \<le> t')) \<and>
    mm_clients s = mm_servers s \<and> mm_opened s = mm_dials s + mm_clients s + mm_refused s + mm_cancelled s \<and>
    (\<forall>p. count (mm_opened s) p \<le> 1) \<and> (mm_refused s \<noteq> {#} \<longrightarrow> mm_done s) \<and> set_mset (mm_cancelled s) \<subseteq> mm_over s \<and>
    (\<forall>p s'. mem_step s s' \<and> p \<in># mm_dials s \<and> p \<notin># mm_dials s' \<longrightarrow> s' = mem_meet p s \<and> 0 < mm_accepts s \<or>
       s' = mem_refuse p s \<and> mm_done s \<or> s' = mem_cancel p s \<and> p \<in> mm_over s) \<and>
    (mm_done s \<longrightarrow> (\<forall>p \<in># mm_dials s. mem_step s (mem_refuse p s)) \<and>
       (0 < mm_accepts s \<longrightarrow> mem_step s (s\<lparr>mm_accepts := mm_accepts s - 1\<rparr>)))"
proof -
  have "mem_inv s" by (rule mem_conc.reachable_inv [OF assms(1)])
  moreover have "case mem_DialContext pipe acc cl ctx nw a w of
       None \<Rightarrow> acc (now w) = None \<and> cl = None \<and> ctx_done ctx = None
     | Some (r, w') \<Rightarrow>
         (\<exists>closed. mem_outcome client server acc cl ctx (now w) r (now w') closed \<and> closed_conns w' = closed @ closed_conns w) \<and>
         (\<forall>r' t' closed'. mem_outcome client server acc cl ctx (now w) r' t' closed' \<longrightarrow> now w' \<le> t')"
  proof (cases "mem_DialContext pipe acc cl ctx nw a w")
    case None
    then show ?thesis using mem_dial_blocks [of pipe acc cl ctx nw a w] by simp
  next
    case (Some x)
    then obtain r w' where x: "mem_DialContext pipe acc cl ctx nw a w = Some (r, w')" by (cases x) auto
    from mem_dial_outcome [OF this assms(2)] show ?thesis unfolding x option.case prod.case by blast
  qed
  ultimately show ?thesis
    using mem_dial_ends [of s] mem_step.dial_closed [of s] mem_step.accept_closed [of s]
    unfolding mem_inv_def once_def by blast
qed

text \<open>A dial that is blocked when the listener closes at instant 9, and one that the server takes.\<close>

theorem mem_pairs_connections_witness:
  "\<exists>s r w'. reachable mem_init mem_step s \<and> mm_clients s = {#3#} \<and> mm_servers s = {#3#} \<and>
     mem_DialContext (\<lambda>w. (Conn 1 False None, Conn 2 False None)) (\<lambda>t. None) (Some 9) Background ''tcp'' ''a:1''
       \<lparr>now = 4, rnd = [], closed_conns = [], closed_listeners = [], done_at = None, ext = ()\<rparr> = Some (r, w') \<and>
     r = Inl errMemClosed \<and> now w' = 9 \<and> closed_conns w' = [2, 1]"
proof -
  let ?s0 = "\<lparr>mm_done = False, mm_dials = {#}, mm_over = {}, mm_accepts = 0, mm_clients = {#}, mm_servers = {#},
    mm_refused = {#}, mm_cancelled = {#}, mm_opened = {#}\<rparr>"
  let ?s1 = "mem_offer 3 ?s0"
  let ?s2 = "?s1\<lparr>mm_accepts := Suc (mm_accepts ?s1)\<rparr>"
  let ?w = "\<lparr>now = 4, rnd = [], closed_conns = [], closed_listeners = [], done_at = None, ext = ()\<rparr>"
  let ?pipe = "\<lambda>w :: unit world. (Conn 1 False None, Conn 2 False None)"
  have "reachable mem_init mem_step ?s0" by (rule reachable.start) (simp add: mem_init_def)
  then have "reachable mem_init mem_step ?s1"
    by (rule reachable.step) (rule mem_step.dials, simp)
  then have "reachable mem_init mem_step ?s2" by (rule reachable.step) (rule mem_step.accepts)
  then have r: "reachable mem_init mem_step (mem_meet 3 ?s2)"
    by (rule reachable.step) (rule mem_step.meets, simp_all add: mem_offer_def)
  note m = mem_pairs_connections [OF r, of ?pipe ?w "Conn 1 False None" "Conn 2 False None" "\<lambda>t. None" "Some 9" Background "''tcp''" "''a:1''"]
  obtain r' w' where d: "mem_DialContext ?pipe (\<lambda>t. None) (Some 9) Background ''tcp'' ''a:1'' ?w = Some (r', w')"
    using m by (cases "mem_DialContext ?pipe (\<lambda>t. None) (Some 9) Background ''tcp'' ''a:1'' ?w") auto
  with m obtain closed where o: "mem_outcome (Conn 1 False None) (Conn 2 False None) (\<lambda>t. None) (Some 9) Background 4 r' (now w') closed"
    "closed_conns w' = closed" by auto
  then have "r' = Inl errMemClosed \<and> now w' = 9 \<and> closed = [2, 1]"
    by cases (auto simp: Background_def ctx_done_def)
  moreover have "mm_clients (mem_meet 3 ?s2) = {#3#}" "mm_servers (mem_meet 3 ?s2) = {#3#}" by (simp_all add: mem_meet_def mem_offer_def)
  ultimately show ?thesis using r d o(2) by blast
qed

end
