(* ===== verification/Ports.thy ===== *)
theory Ports
  imports Registry_Spec
begin

text \<open>
  \<open>backend/ports.go\<close> and \<open>ListenAndAdd\<close> of \<open>backend/listener.go\<close>. What the system's \<open>listen\<close> call returns
  is a parameter: the port it assigns, given the listeners this process already holds.
\<close>

section \<open>ReservePorts\<close>

text \<open>\<open>True\<close> asks for \<open>tcp4\<close>, \<open>False\<close> for \<open>tcp\<close>. The second result is what the deferred loop closes.\<close>

type_synonym listen_call = "bool \<Rightarrow> int list \<Rightarrow> goerr + int"

definition listen_any :: "listen_call \<Rightarrow> int list \<Rightarrow> goerr + int" where
  "listen_any sys held = (case sys True held of Inl _ \<Rightarrow> sys False held | Inr p \<Rightarrow> Inr p)"

fun reserve_loop :: "listen_call \<Rightarrow> nat \<Rightarrow> int list \<Rightarrow> (goerr + int list) \<times> int list" where
  "reserve_loop sys 0 held = (Inr held, held)"
| "reserve_loop sys (Suc k) held =
     (case listen_any sys held of
        Inl err \<Rightarrow> (Inl (Errorf ''backend: reserve ports: %w'' [] [err]), held)
      | Inr p \<Rightarrow> reserve_loop sys k (held @ [p]))"

definition ReservePorts :: "listen_call \<Rightarrow> int \<Rightarrow> (goerr + int list) \<times> int list" where
  "ReservePorts sys n =
     (if n \<le> 0 then (Inl (Errorf ''backend: reserve ports: n must be positive, got %d'' [itoa n] []), [])
      else reserve_loop sys (nat n) [])"

text \<open>What a listen call on port 0 promises: a port of the valid range that nobody in the process holds.\<close>

definition assigns_free_ports :: "listen_call \<Rightarrow> bool" where
  "assigns_free_ports sys \<longleftrightarrow> (\<forall>b held p. sys b held = Inr p \<longrightarrow> p \<notin> set held \<and> 0 < p \<and> p < 65536)"

definition ports_ok :: "int list \<Rightarrow> bool" where
  "ports_ok ps \<longleftrightarrow> distinct ps \<and> set ps \<subseteq> {1..65535}"

lemma ports_ok_length: "ports_ok ps \<Longrightarrow> length ps \<le> 65535"
proof -
  assume "ports_ok ps"
  then have "length ps = card (set ps)" "set ps \<subseteq> {1..65535}" by (auto simp: ports_ok_def distinct_card)
  then have "length ps \<le> card {1..65535::int}" by (metis card_mono finite_atLeastAtMost_int)
  then show ?thesis by simp
qed

lemma listen_any_free:
  "assigns_free_ports sys \<Longrightarrow> listen_any sys held = Inr p \<Longrightarrow> p \<notin> set held \<and> 0 < p \<and> p < 65536"
  unfolding assigns_free_ports_def listen_any_def by (auto split: sum.splits)

lemma reserve_loop_ok:
  assumes "assigns_free_ports sys" and "ports_ok held" and "reserve_loop sys k held = (res, closed)"
  shows "ports_ok closed \<and> (case res of Inr ps \<Rightarrow> ps = closed \<and> length ps = length held + k | Inl e \<Rightarrow> True)"
  using assms(2,3)
proof (induction k arbitrary: held)
  case (Suc k)
  show ?case
  proof (cases "listen_any sys held")
    case (Inl err)
    with Suc.prems show ?thesis by auto
  next
    case (Inr p)
    then have "ports_ok (held @ [p])"
      using listen_any_free [OF assms(1) Inr] Suc.prems(1) by (auto simp: ports_ok_def)
    then show ?thesis using Suc.IH [of "held @ [p]"] Suc.prems(2) Inr by (auto split: sum.splits)
  qed
qed auto

section \<open>ListenAndAdd\<close>

text \<open>\<open>listen\<close> is the outcome of binding: the listener's identity and the text of its address.\<close>

definition ListenAndAdd :: "network \<Rightarrow> nat \<Rightarrow> goerr + nat \<times> string \<Rightarrow> 'x Registry \<Rightarrow> ctx \<Rightarrow> string
    \<Rightarrow> ('x routeConfig \<Rightarrow> 'x routeConfig) list \<Rightarrow> 'x world \<Rightarrow> (goerr + nat) \<times> 'x Registry \<times> 'x world" where
  "ListenAndAdd net i listen r ctx name opts w =
     (case listen of
        Inl err \<Rightarrow> (Inl (Errorf ''backend: listen for %q: %w'' [name] [err]), r, w)
      | Inr (l, laddr) \<Rightarrow>
          (case Add r ctx name (Some (Listener net i laddr)) opts w of
             (Inl err, r', w') \<Rightarrow> (Inl err, r', close_listener l w')
           | (Inr rt, r', w') \<Rightarrow> (Inr l, r', w')))"

section \<open>Properties\<close>

text \<open>\<open>ReservePorts\<close> returns exactly the number of ports asked for, all distinct and valid, provided the system
  does not assign a port that this process already holds; every listener it opened is closed when it
  returns, also when a later one cannot be opened; it rejects a count that is not positive, and no count
  above 65535 can succeed.\<close>

theorem ReservePorts_distinct:
  assumes "assigns_free_ports sys" and "ReservePorts sys n = (res, closed)"
  shows "distinct closed \<and> set closed \<subseteq> {1..65535} \<and>
    (case res of Inr ps \<Rightarrow> 0 < n \<and> int (length ps) = n \<and> ps = closed \<and> n \<le> 65535 | Inl e \<Rightarrow> True) \<and>
    (n \<le> 0 \<longrightarrow> isl res \<and> closed = [])"
proof (cases "n \<le> 0")
  case True
  with assms(2) show ?thesis by (auto simp: ReservePorts_def)
next
  case False
  have "ports_ok []" by (simp add: ports_ok_def)
  with False assms(2) have ok: "ports_ok closed"
    and res: "case res of Inr ps \<Rightarrow> ps = closed \<and> length ps = nat n | Inl e \<Rightarrow> True"
    using reserve_loop_ok [OF assms(1), of "[]" "nat n" res closed]
    by (auto simp: ReservePorts_def split: sum.splits)
  with ports_ok_length [OF ok] False show ?thesis
    by (auto simp: ports_ok_def split: sum.splits)
qed

definition two_ports :: listen_call where
  "two_ports b held = (if b then Inl (ErrNew ''no IPv4'')
     else if held = [] then Inr 7000 else if held = [7000] then Inr 7001 else Inl (ErrNew ''none left''))"

theorem ReservePorts_distinct_witness:
  "ReservePorts two_ports 2 = (Inr [7000, 7001], [7000, 7001]) \<and> distinct [7000, 7001 :: int]"
proof -
  have a: "assigns_free_ports two_ports"
    by (auto simp: assigns_free_ports_def two_ports_def split: if_splits)
  have r: "ReservePorts two_ports 2 = (Inr [7000, 7001], [7000, 7001])"
    by (simp add: ReservePorts_def two_ports_def listen_any_def numeral_2_eq_2)
  from ReservePorts_distinct [OF a r] r show ?thesis by simp
qed

text \<open>\<open>ListenAndAdd\<close> hands out a listener exactly when its route is registered: after any calls on a registry,
  a success publishes a route under the name whose \<open>Addr\<close> is the listener's address and leaves the listener
  open, and a failure leaves the published routes as they were and closes the listener.\<close>

theorem ListenAndAdd_all_or_nothing:
  assumes "exec_all reg_exec (registry_New opts0, w0) ops = (outs, r, w)"
  shows "case ListenAndAdd net i (Inr (l, laddr)) r ctx name opts w of
      (Inr l', r', w') \<Rightarrow> l' = l \<and> (\<exists>rt. Lookup r' name = Some rt \<and> Route_Addr rt w' = (Some (tcpAddr laddr), True))
    | (Inl e, r', w') \<Rightarrow> (\<forall>n. Lookup r' n = Lookup r n) \<and> l \<in> set (closed_listeners w')"
proof -
  have "quiescent r" using registry_table.run_refines [OF table_ok_New assms] by (simp add: table_ok_def)
  obtain res r' w' where add: "Add r ctx name (Some (Listener net i laddr)) opts w = (res, r', w')"
    by (metis prod_cases3)
  show ?thesis
  proof (cases res)
    case (Inl e)
    with Add_published [OF \<open>quiescent r\<close> add] add show ?thesis
      by (simp add: ListenAndAdd_def Lookup_published close_listener_def)
  next
    case (Inr rt)
    with Add_published [OF \<open>quiescent r\<close> add] have "Lookup r' name = Some rt"
      and b: "rt_backend rt = Listener net i laddr" by (simp_all add: Lookup_published)
    moreover have "Route_Addr rt w' = (Some (tcpAddr laddr), True)"
      by (simp add: Route_Addr_def b Listener_def TCP_def isTypedNil_def tcpAddr_def)
    ultimately show ?thesis using add Inr by (simp add: ListenAndAdd_def)
  qed
qed

theorem ListenAndAdd_all_or_nothing_witness:
  "case ListenAndAdd (\<lambda>t nw a. (0, Inl (ErrNew ''x''))) 1 (Inr (4, ''127.0.0.1:7000'')) (registry_New []) Background [] []
      \<lparr>now = 0, rnd = [], closed_conns = [], closed_listeners = [], done_at = None, ext = ()\<rparr> of
     (Inr l', r', w') \<Rightarrow> False | (Inl e, r', w') \<Rightarrow> 4 \<in> set (closed_listeners w')"
proof -
  let ?w = "\<lparr>now = 0, rnd = [], closed_conns = [], closed_listeners = [], done_at = None, ext = ()\<rparr>"
  let ?r = "ListenAndAdd (\<lambda>t nw a. (0, Inl (ErrNew ''x''))) 1 (Inr (4, ''127.0.0.1:7000'')) (registry_New []) Background [] [] ?w"
  have e: "exec_all reg_exec (registry_New [], ?w) [] = ([], registry_New [], ?w)" by simp
  have "isl (fst ?r)" by (simp add: ListenAndAdd_def Add_def Add_check_def)
  with ListenAndAdd_all_or_nothing [OF e, where net = "\<lambda>t nw a. (0, Inl (ErrNew ''x''))" and i = 1 and l = 4
      and laddr = "''127.0.0.1:7000''" and ctx = Background and name = "[]" and opts = "[]"]
  show ?thesis by (auto split: prod.splits sum.splits)
qed

end
