(* ===== verification/Sockets.thy ===== *)
theory Sockets
  imports Cli_Props
begin

text \<open>
  \<open>NewClient\<close> (\<open>control/client.go\<close>): a client is bound to one socket path. Here the world outside is the daemons
  behind all paths, and a command changes nothing but the one behind the socket it was given.
\<close>

section \<open>Clients by path\<close>

type_synonym 'x sockets = "string \<Rightarrow> 'x daemon option"

definition on_socket :: "('x daemon option \<Rightarrow> 'a \<times> 'x daemon option) \<Rightarrow> string \<Rightarrow> 'x sockets \<Rightarrow> 'a \<times> 'x sockets" where
  "on_socket rpc path st = (case rpc (st path) of (res, d) \<Rightarrow> (res, st(path := d)))"

definition NewClient :: "'x api \<Rightarrow> ctx \<Rightarrow> 'x sockets client" where
  "NewClient a ctx = \<lparr>cl_Status = on_socket (client_Status a ctx), cl_Routes = on_socket (client_Routes a ctx),
     cl_AddRoute = (\<lambda>path spec. on_socket (client_AddRoute a ctx spec) path),
     cl_RemoveRoute = (\<lambda>path name. on_socket (client_RemoveRoute a ctx name) path),
     cl_WaitReady = (\<lambda>path name timeout. on_socket (client_WaitReady a ctx name timeout) path)\<rparr>"

text \<open>The client of one socket, which the properties of the commands are about, is what this client does there.\<close>

lemma on_socket_at: "on_socket rpc path st = (res, st') \<longleftrightarrow> rpc (st path) = (res, st' path) \<and> (\<forall>q. q \<noteq> path \<longrightarrow> st' q = st q)"
  by (cases "rpc (st path)") (auto simp: on_socket_def fun_eq_iff)

lemma NewClient_is_api_client:
  "cl_Status (NewClient a ctx) p = on_socket (cl_Status (api_client a ctx) p) p"
  "cl_Routes (NewClient a ctx) p = on_socket (cl_Routes (api_client a ctx) p) p"
  "cl_AddRoute (NewClient a ctx) p spec = on_socket (cl_AddRoute (api_client a ctx) p spec) p"
  "cl_RemoveRoute (NewClient a ctx) p name = on_socket (cl_RemoveRoute (api_client a ctx) p name) p"
  "cl_WaitReady (NewClient a ctx) p name t = on_socket (cl_WaitReady (api_client a ctx) p name t) p"
  by (simp_all add: NewClient_def api_client_def)

section \<open>Commands stay on their socket\<close>

definition elsewhere :: "string \<Rightarrow> 'x sockets sys \<Rightarrow> 'x sockets sys \<Rightarrow> bool" where
  "elsewhere p s s' \<longleftrightarrow> (\<forall>q. q \<noteq> p \<longrightarrow> outside s' q = outside s q)"

lemma elsewhere_simps [simp]:
  "elsewhere p s s" "elsewhere p s (Println l s') = elsewhere p s s'" "elsewhere p s (Eprintln l s') = elsewhere p s s'"
  "elsewhere p s (fold Println ls s') = elsewhere p s s'"
  by (induction ls arbitrary: s') (simp_all add: elsewhere_def Println_def Eprintln_def)

lemma elsewhere_on_socket: "outside_do (on_socket rpc p) s = (res, s') \<Longrightarrow> elsewhere p s s'"
  by (auto simp: outside_do_def elsewhere_def on_socket_def split: prod.splits)

text \<open>The commands that ask a running daemon, with the socket their flags name.\<close>

theorem commands_stay_on_their_socket:
  assumes P: "pl_client P = NewClient a ctx"
  shows "splitName args = Inr (name, fa) \<Longrightarrow> Parse (route_add_flags P) fa = Inr (fl, rest) \<Longrightarrow>
      elsewhere (flag_string ''socket'' fl) s (snd (routeAdd P args s))"
    and "splitName args = Inr (name, fa) \<Longrightarrow> Parse [socket_flag P] fa = Inr (fl, rest) \<Longrightarrow>
      elsewhere (flag_string ''socket'' fl) s (snd (routeRm P args s))"
    and "Parse [socket_flag P, (''json'', BoolFlag False)] args = Inr (fl, rest) \<Longrightarrow>
      elsewhere (flag_string ''socket'' fl) s (snd (routeList P args s)) \<and> elsewhere (flag_string ''socket'' fl) s (snd (cmdStatus P args s))"
proof -
  note [dest] = elsewhere_on_socket
  note [simp] = P NewClient_is_api_client
  show "splitName args = Inr (name, fa) \<Longrightarrow> Parse (route_add_flags P) fa = Inr (fl, rest) \<Longrightarrow>
      elsewhere (flag_string ''socket'' fl) s (snd (routeAdd P args s))"
    by (auto simp: routeAdd_def as_outcome_def split: sum.splits) (metis elsewhere_on_socket surjective_pairing)
  show "splitName args = Inr (name, fa) \<Longrightarrow> Parse [socket_flag P] fa = Inr (fl, rest) \<Longrightarrow>
      elsewhere (flag_string ''socket'' fl) s (snd (routeRm P args s))"
    by (auto simp: routeRm_def as_outcome_def) (metis elsewhere_on_socket surjective_pairing)
  show "Parse [socket_flag P, (''json'', BoolFlag False)] args = Inr (fl, rest) \<Longrightarrow>
      elsewhere (flag_string ''socket'' fl) s (snd (routeList P args s)) \<and> elsewhere (flag_string ''socket'' fl) s (snd (cmdStatus P args s))"
    by (auto simp: routeList_def cmdStatus_def split: prod.split sum.split)
qed

end
