(* ===== verification/Spec2Isabelle.thy ===== *)
theory Spec2Isabelle
  imports K8s_End_To_End Control_Conc Health_Live Mem Ports Sockets
begin

text \<open>
  A verification library for go-portless.

  go-portless names services instead of ports. A \<open>Registry\<close> (\<open>registry.go\<close>) maps names to routes; a dial of
  \<open>name:port\<close> finds the route and retries its backend until the backend is ready or the caller's patience
  ends. Around it stand clients (HTTP transports, local listeners), a forward proxy for other processes, a
  daemon with a control API, and backends, the largest of which forwards to Kubernetes pods.

  \<^bold>\<open>Theories and code.\<close> In the order of the layers; each theory imports what it calls.

    \<^item> \<open>Prelude\<close>: association lists as Go maps, results, the locales \<open>data_refinement\<close> (a concrete
      machine refines an abstract one) and \<open>step_system\<close> (an invariant of a step relation).
    \<^item> \<open>Go_Net\<close>: the text functions of \<open>net\<close>, \<open>strings\<close> and \<open>strconv\<close> that the code calls (\<open>SplitHostPort\<close>,
      \<open>JoinHostPort\<close>, \<open>ParseIP\<close>, \<open>Itoa\<close>, \<open>Atoi\<close>), over strings as lists of bytes.
    \<^item> \<open>Errors\<close> (\<open>errors.go\<close>): an error is a tree of wrapped errors; \<open>errors.Is\<close>, \<open>Retryable\<close>, \<open>IsRetryable\<close>.
    \<^item> \<open>Backoff\<close> (\<open>internal/backoff\<close>): durations are 64-bit words.
    \<^item> \<open>World\<close> (\<open>events.go\<close>): the clock, the random draws to come, what was closed, contexts, events.
    \<^item> \<open>Options\<close> (\<open>options.go\<close>, \<open>backend.go\<close>), \<open>Http_Names\<close> (\<open>http.go\<close>), \<open>Route\<close> (\<open>route.go\<close>, \<open>middleware.go\<close>).
    \<^item> \<open>Dial_Loop\<close>, \<open>Dial_Props\<close>, \<open>Dial_Live\<close>: the readiness loop \<open>dialRoute\<close>, its error and event
      behaviour, its termination and its liveness, under the locales \<open>timed_route\<close> and \<open>ready_route\<close>.
    \<^item> \<open>Backends\<close>, \<open>Parse_Tcp\<close> (\<open>backend/\<close>): TCP, listener and future backends, on which those locales
      are interpreted, and the parser of TCP addresses.
    \<^item> \<open>Registry\<close>, \<open>Registry_Props\<close>, \<open>Registry_Spec\<close>, \<open>Registry_Conc\<close>: the registry's operations, its
      refinement of a table from names to routes, and the interleaving of its locked sections.
    \<^item> \<open>Host_Rewrite\<close> (\<open>http.go\<close>): Host headers, the round tripper, the shared transport.
    \<^item> \<open>Pipe\<close>, \<open>Listen_Local\<close> (\<open>listenlocal.go\<close>, \<open>proxy/connect.go\<close>): byte pipes, local listeners.
    \<^item> \<open>Headers\<close>, \<open>Proxy\<close> (\<open>proxy/\<close>): hop-by-hop headers, forwarding, CONNECT, dispatch.
    \<^item> \<open>Utf8\<close>, \<open>Json\<close>, \<open>Json_Value\<close>, \<open>Json_Struct\<close>: what the program uses of \<open>unicode/utf8\<close> and \<open>encoding/json\<close>:
      runes and their repair, quoting and unquoting, the scanner with its nesting limit, \<open>RawMessage\<close>, and structs
      by their field tags; parsing undoes printing.
    \<^item> \<open>Control_Spec\<close> (\<open>control/spec.go\<close>): the types that travel over the control socket with their JSON forms,
      and the backend types.
    \<^item> \<open>Control\<close> (\<open>control/\<close>): the daemon's handlers and the client's reading of their replies, as bytes;
      \<open>Control_Conc\<close>: the critical sections of handlers that run at the same time.
    \<^item> \<open>K8s_Resolve\<close>, \<open>K8s_Forward\<close>, \<open>K8s_Backend\<close> (\<open>k8s/\<close>): from options to a ready pod, the cached connection
      that concurrent dials share, and the port forward as a backend, that satisfies \<open>ready_route\<close>.
    \<^item> \<open>Health\<close>, \<open>Health_Live\<close> (\<open>options.go\<close>): the HTTP and TLS health checks, and that a dial waits for them;
      \<open>Mem\<close>, \<open>Ports\<close> (\<open>backend/\<close>): the in-memory backend, port reservation and \<open>ListenAndAdd\<close>.
    \<^item> \<open>Paths\<close> (\<open>control/socket.go\<close>, \<open>ca/ca.go\<close>): \<open>path/filepath\<close>, the places of the socket and the CA.
    \<^item> \<open>Ca\<close> (\<open>ca/ca.go\<close>): the certificate authority, its files and its leaf cache.
    \<^item> \<open>Go_Time\<close>: \<open>Duration.String\<close> and \<open>ParseDuration\<close> of package \<open>time\<close>, and that the second undoes the first.
    \<^item> \<open>Wire\<close>, \<open>Client\<close> (\<open>control/client.go\<close>, \<open>server.go\<close>): request lines, URL escaping and the multiplexer;
      then the client's calls on the daemon behind the socket, through all layers down to the registry.
    \<^item> \<open>Flags\<close>, \<open>Cli\<close>, \<open>Cli_Props\<close>, \<open>Ca_Cmd\<close>, \<open>Serve\<close>, \<open>Portless\<close> (\<open>cmd/portless/\<close>): flag parsing, the commands
      as functions of a platform (client, clock, processes), what they promise, the \<open>ca\<close> subcommands, the
      daemon process as the list of its actions, and the dispatch with its exit codes and usage text;
      \<open>Sockets\<close>: the client of each socket path (\<open>NewClient\<close>), and that a command stays on its own.
    \<^item> \<open>End_To_End\<close>, \<open>K8s_End_To_End\<close>: whole paths, from a command over the socket, the registry and the readiness
      loop to the proxy that tunnels or forwards to the service, and from a local listener to it.

  \<^bold>\<open>State and operations.\<close> A Go struct is a record with the source's field names behind a prefix; a method
  takes the record and the \<open>world\<close> and returns them changed. A Go map is an association list without
  duplicate keys, a nil pointer or interface \<open>None\<close>, an error value a \<open>goerr\<close>, a fallible result a sum with
  the error on the left. An optional interface (a type assertion in Go) is an option field. Dial functions,
  backends, event handlers and health checks are functions on the world, whose field \<open>ext\<close> belongs to them;
  so whatever a caller supplies is quantified over, not modelled.

  A command of \<open>cmd/portless\<close> takes a \<open>platform\<close>, its arguments and a \<open>sys\<close> (the world outside, of any type,
  and the printed lines) and returns its error and the new \<open>sys\<close>. The same commands are run on an arbitrary
  platform and on the one whose outside is the modelled daemon (\<open>api_client\<close>).

  \<^bold>\<open>Time and termination.\<close> Cancellation by another goroutine is an instant in the context, the close of the
  registry an instant in the world, and jitter a list of draws; all are arbitrary in the theorems. The
  readiness loop and the wait for a daemon may run forever, so each is a \<open>partial_function (option)\<close> and that
  it returns is a theorem. Two definitions use fuel: the IPv6 parser, whose loop is bounded by the eight groups
  of an address, and the JSON parser, which gets twice the length of its input and one more
  (\<open>json_value_fuel\<close>: more changes nothing).

  \<^bold>\<open>Concurrency.\<close> Where goroutines interfere, the locked sections are the steps of an inductive relation
  (\<open>sys_step\<close> for the registry, \<open>listen_step\<close> for listeners, \<open>pipe_step\<close> for the two copy loops, \<open>mem_step\<close> for
  the in-memory backend, \<open>pf_step\<close> for port-forward dials, \<open>flight_step\<close> for control requests), and the properties
  hold in every reachable state. What a loop does by itself is told apart from what its surroundings do to it
  (\<open>pipe_own\<close> within \<open>pipe_step\<close>), so that a claim that it ends says what it waits for.

  \<^bold>\<open>Waiting.\<close> A dial waits until the caller's deadline or, without one, for the ready timeout of the route.
  \<open>patient timeout ctx w T\<close> is a caller whom neither stops before \<open>T\<close>; the daemon builds its registry without
  options, so there the timeout is \<open>defaultReadyTimeout\<close>, 60 seconds. \<open>prompt_config\<close> is what \<open>options.go\<close> asks of
  middleware, health checks and event handlers as far as time goes.

  \<^bold>\<open>What the lemmas show.\<close> The registry refines its table; no started backend is lost under concurrent adds,
  removals and close; reservations are exclusive; dials return in time and reach a server that boots in time;
  their errors and events keep a protocol, with one event for each retry; port-forward connections do not leak, and a
  local listener leaks in one case only (its accept loop ends in its retry pause while the registry closes); pipes
  deliver prefixes of what was sent, and everything when nobody interferes; the proxy filters and preserves
  headers, and reaches registered routes only; sentinel errors survive the control API; a resolved target is
  a ready pod. Every request of the client reaches its handler with its name and timeout intact, and to the client the
  daemon is a table of specifications; the CA survives a restart and serves certificates that verify for the hosts
  they are good for; health
  checks gate dials, and a dial waits until they pass; the two ways of reading names among flags agree; \<open>run\<close> leaves the table as it found it
  and passes on its child's exit code; waiting for a started daemon ends after five seconds and finds it if it comes up; \<open>ca\<close> executes nothing
  without consent; the daemon serves only a private socket and releases what it acquired. Across components: \<open>alias\<close> and \<open>route add\<close> make a TCP service or a Kubernetes pod
  reachable through the proxy under its name, also when it boots later; a named request, plain or decrypted, is
  forwarded to its service; a local listener bridges its clients to the service and delivers; the values
  on the control socket survive their JSON forms; concurrent requests for
  different names keep the listing right. The theorems that no property names record special cases, and where
  the code departs from its own documentation or from what it means to do.

  \<^bold>\<open>Hypotheses about foreign code.\<close> What is not in the repository is an argument: \<open>url.Parse\<close>, the table of
  service names, the text of an error (\<open>ap_text\<close>), the Kubernetes API and SPDY (\<open>kube\<close>, \<open>cluster\<close>), the network of
  a dialer, \<open>http.Transport\<close> as a \<open>roundtrip\<close>. Where a property needs more of one than its type it says so:
  \<open>transport_dials\<close> (the transport of \<open>New\<close> dials the host of the request's URL through the registry),
  \<open>pod_ready_from\<close> (from an instant on the target resolves to a pod that takes connections), \<open>foreign_errors\<close>.

  The proxy is modelled with and without TLS termination (\<open>connect_via\<close>); a CONNECT is tunneled only without it.
  \<open>VerifyHostname\<close> of \<open>crypto/x509\<close>, by which a client judges a leaf, is modelled as documented, with its wildcards,
  case and trailing dots.

  \<^bold>\<open>Not modelled.\<close> Logging; signatures and PEM, TLS, the HTTP connection and transport, SPDY and the Kubernetes
  client (parameters or left out); the usage of a single command's flags, the layout of printed tables, and
  signal delivery (a signal shows only as the way the child or the daemon ends). Lower-casing is that of ASCII.
  What is left of the code is interfaces, function types, one-line accessors of fields and addresses, and \<open>main\<close>.
\<close>

end
